(* ===== verification/Prelude.thy ===== *)
theory Prelude
  imports Main "HOL-Library.Word" "HOL-Library.Char_ord" "HOL-Library.List_Lexorder"
begin

text \<open>
  The vocabulary every component shares. It fixes how the Rust values of the crate are
  represented, the crate's error type with its \<open>Result\<close>, and the parts of the standard
  library (checked arithmetic, decimal text, string splitting, byte classes) that the
  modules use, with the generic lemmas about them.

  A \<open>String\<close>, a \<open>&str\<close> and a \<open>Vec<u8>\<close> that holds a document are HOL strings in which
  a \<open>char\<close> is one byte, so \<open>length\<close> is Rust's \<open>len()\<close> and a non-ASCII character is its
  UTF-8 bytes. Fixed byte arrays (digests, keys, signatures) are lists of 8-bit words.
  \<open>u16\<close>, \<open>u32\<close> and \<open>u64\<close> are words; \<open>usize\<close> lengths are \<open>nat\<close> with the 32-bit
  bound of the release target written out where the source checks it.
\<close>

unbundle bit_operations_syntax

type_synonym u8 = "8 word"
type_synonym u16 = "16 word"
type_synonym u32 = "32 word"
type_synonym u64 = "64 word"
type_synonym bytes = "u8 list"

named_theorems result_simps "how binds and guards of results decompose"
named_theorems std_simps "evaluation of the standard-library models"

subsection \<open>Errors (lib.rs)\<close>

datatype error_code =
    JsonInvalid | JsonNonCanonical | ManifestTooLarge | TrustSignature | TrustUnknownKey
  | KeyringRollback | KeyringConflict | FileSetRollback | GenerationConflict | FileSetPath
  | FileSetLimit | FileSetHash | RegistrySetRollback | RegistrySetLimit | RegistryScopeInvalid
  | RegistryScopeNotFound | RegistryScopeUnauthorized | RegistryValueInvalid | RegistryIo
  | ProductMismatch | ProtocolInvalid | ProtocolVersion | ProtocolTooLarge | RootInvalid
  | RootNotFound | RootUnauthorized | RootIdentity | StagingInvalid | InsufficientSpace
  | ServiceBusy | TransactionConflict | TransactionIo | TransactionState | RecoveryIncomplete

fun as_str :: "error_code \<Rightarrow> string" where
  "as_str JsonInvalid = ''E_JSON_INVALID''"
| "as_str JsonNonCanonical = ''E_JSON_NON_CANONICAL''"
| "as_str ManifestTooLarge = ''E_MANIFEST_TOO_LARGE''"
| "as_str TrustSignature = ''E_TRUST_SIGNATURE''"
| "as_str TrustUnknownKey = ''E_TRUST_UNKNOWN_KEY''"
| "as_str KeyringRollback = ''E_KEYRING_ROLLBACK''"
| "as_str KeyringConflict = ''E_KEYRING_CONFLICT''"
| "as_str FileSetRollback = ''E_FILESET_ROLLBACK''"
| "as_str GenerationConflict = ''E_GENERATION_CONFLICT''"
| "as_str FileSetPath = ''E_FILESET_PATH''"
| "as_str FileSetLimit = ''E_FILESET_LIMIT''"
| "as_str FileSetHash = ''E_FILESET_HASH''"
| "as_str RegistrySetRollback = ''E_REGISTRYSET_ROLLBACK''"
| "as_str RegistrySetLimit = ''E_REGISTRYSET_LIMIT''"
| "as_str RegistryScopeInvalid = ''E_REGISTRY_SCOPE_INVALID''"
| "as_str RegistryScopeNotFound = ''E_REGISTRY_SCOPE_NOT_FOUND''"
| "as_str RegistryScopeUnauthorized = ''E_REGISTRY_SCOPE_UNAUTHORIZED''"
| "as_str RegistryValueInvalid = ''E_REGISTRY_VALUE_INVALID''"
| "as_str RegistryIo = ''E_REGISTRY_IO''"
| "as_str ProductMismatch = ''E_PRODUCT_MISMATCH''"
| "as_str ProtocolInvalid = ''E_PROTOCOL_INVALID''"
| "as_str ProtocolVersion = ''E_PROTOCOL_VERSION''"
| "as_str ProtocolTooLarge = ''E_PROTOCOL_TOO_LARGE''"
| "as_str RootInvalid = ''E_ROOT_INVALID''"
| "as_str RootNotFound = ''E_ROOT_NOT_FOUND''"
| "as_str RootUnauthorized = ''E_ROOT_UNAUTHORIZED''"
| "as_str RootIdentity = ''E_ROOT_IDENTITY''"
| "as_str StagingInvalid = ''E_STAGING_INVALID''"
| "as_str InsufficientSpace = ''E_INSUFFICIENT_SPACE''"
| "as_str ServiceBusy = ''E_SERVICE_BUSY''"
| "as_str TransactionConflict = ''E_TRANSACTION_CONFLICT''"
| "as_str TransactionIo = ''E_TRANSACTION_IO''"
| "as_str TransactionState = ''E_TRANSACTION_STATE''"
| "as_str RecoveryIncomplete = ''E_RECOVERY_INCOMPLETE''"

record maintenance_error =
  code :: error_code
  detail :: string
  platform_status :: "u32 option"

definition maintenance_error_new :: "error_code \<Rightarrow> string \<Rightarrow> maintenance_error" where
  "maintenance_error_new c d = \<lparr>code = c, detail = d, platform_status = None\<rparr>"

definition with_platform_status :: "error_code \<Rightarrow> string \<Rightarrow> u32 \<Rightarrow> maintenance_error" where
  "with_platform_status c d st = \<lparr>code = c, detail = d, platform_status = Some st\<rparr>"

type_synonym 'a result = "maintenance_error + 'a"

abbreviation Err :: "error_code \<Rightarrow> string \<Rightarrow> 'a result" where
  "Err c d \<equiv> Inl (maintenance_error_new c d)"

abbreviation Ok :: "'a \<Rightarrow> 'a result" where
  "Ok x \<equiv> Inr x"

lemma maintenance_error_new_sel [simp]:
  "code (maintenance_error_new c d) = c"
  "detail (maintenance_error_new c d) = d"
  "platform_status (maintenance_error_new c d) = None"
  by (simp_all add: maintenance_error_new_def)

lemma with_platform_status_sel [simp]:
  "code (with_platform_status c d st) = c"
  "detail (with_platform_status c d st) = d"
  "platform_status (with_platform_status c d st) = Some st"
  by (simp_all add: with_platform_status_def)

subsection \<open>Results: the question-mark operator\<close>

definition and_then :: "'e + 'a \<Rightarrow> ('a \<Rightarrow> 'e + 'b) \<Rightarrow> 'e + 'b" where
  "and_then r f = (case r of Inl e \<Rightarrow> Inl e | Inr x \<Rightarrow> f x)"

definition ensure :: "bool \<Rightarrow> 'e \<Rightarrow> 'e + unit" where
  "ensure b e = (if b then Inr () else Inl e)"

definition ok_or :: "'a option \<Rightarrow> 'e \<Rightarrow> 'e + 'a" where
  "ok_or m e = (case m of None \<Rightarrow> Inl e | Some x \<Rightarrow> Inr x)"

definition is_ok :: "'e + 'a \<Rightarrow> bool" where
  "is_ok r = (case r of Inl _ \<Rightarrow> False | Inr _ \<Rightarrow> True)"

fun sequence :: "('e + 'a) list \<Rightarrow> 'e + 'a list" where
  "sequence [] = Inr []"
| "sequence (r # rs) = and_then r (\<lambda>x. and_then (sequence rs) (\<lambda>xs. Inr (x # xs)))"

lemma and_then_simps [simp]:
  "and_then (Inl e) f = Inl e"
  "and_then (Inr x) f = f x"
  by (simp_all add: and_then_def)

lemma and_then_cong [fundef_cong]:
  assumes "r = r'" and "\<And>x. r' = Inr x \<Longrightarrow> f x = g x"
  shows "and_then r f = and_then r' g"
  using assms by (cases r') auto

lemma and_then_Inr [result_simps]: "and_then r f = Inr y \<longleftrightarrow> (\<exists>x. r = Inr x \<and> f x = Inr y)"
  by (cases r) auto

lemma and_then_Inl [result_simps]:
  "and_then r f = Inl e \<longleftrightarrow> r = Inl e \<or> (\<exists>x. r = Inr x \<and> f x = Inl e)"
  by (cases r) auto

lemma ensure_Inr [simp]: "ensure b e = Inr u \<longleftrightarrow> b"
  by (simp add: ensure_def)

lemma ensure_Inl [simp]: "ensure b e = Inl e' \<longleftrightarrow> \<not> b \<and> e' = e"
  by (auto simp: ensure_def)

lemma ensure_simps [simp]: "ensure True e = Inr ()" "ensure False e = Inl e"
  by (simp_all add: ensure_def)

lemma ok_or_simps [simp]: "ok_or None e = Inl e" "ok_or (Some x) e = Inr x"
  by (simp_all add: ok_or_def)

lemma ok_or_Inr [result_simps]: "ok_or m e = Inr x \<longleftrightarrow> m = Some x"
  by (cases m) auto

lemma ok_or_Inl [result_simps]: "ok_or m e = Inl e' \<longleftrightarrow> m = None \<and> e' = e"
  by (cases m) auto

lemma is_ok_simps [simp]: "is_ok (Inl e) = False" "is_ok (Inr x) = True"
  by (simp_all add: is_ok_def)

lemma is_ok_iff: "is_ok r \<longleftrightarrow> (\<exists>x. r = Inr x)"
  by (cases r) auto

lemma is_ok_ensure [simp]: "is_ok (ensure b e) = b"
  by (simp add: ensure_def)

lemma is_ok_and_then [simp]: "is_ok (and_then r f) \<longleftrightarrow> (\<exists>x. r = Inr x \<and> is_ok (f x))"
  by (cases r) auto

lemma and_then_ensure: "and_then (ensure b e) f = (if b then f () else Inl e)"
  by (simp add: ensure_def)

lemma sequence_Inr: "sequence rs = Inr xs \<longleftrightarrow> rs = map Inr xs"
  by (induction rs arbitrary: xs) (auto simp: result_simps Cons_eq_map_conv)

lemma length_sequence: "sequence rs = Inr xs \<Longrightarrow> length xs = length rs"
  by (simp add: sequence_Inr)

end
