(* ===== verification/Contract.thy ===== *)
theory Contract
  imports Rust_Std
begin

text \<open>
  The shared contract of \<open>src/lib.rs\<close>: JSON values and their canonical text, the bounded
  canonical parser, the signing message, lower-case hexadecimal, and the identifiers of
  roots, products, keys, scopes and jobs.

  Code outside the repository is a field of the record \<open>external\<close>: the text of JSON
  strings and numbers (serde_json), SHA-256 (sha2), Ed25519 (ed25519-dalek), base64, and
  Unicode lower-casing (the Unicode tables behind \<open>str::to_lowercase\<close>). What a theorem
  needs of them is one of the laws below, and \<open>serde_json::from_slice\<close> for a document type
  is an argument of the functions that parse that type.
\<close>

subsection \<open>The bounds (lib.rs)\<close>

definition MAX_IPC_MESSAGE_BYTES :: nat where "MAX_IPC_MESSAGE_BYTES = 64 * 1024"
definition MAX_MANIFEST_BYTES :: nat where "MAX_MANIFEST_BYTES = 32 * 1024 * 1024"
definition MAX_PATH_BYTES :: nat where "MAX_PATH_BYTES = 1024"
definition MAX_JOB_ID_BYTES :: nat where "MAX_JOB_ID_BYTES = 64 + 1 + 20 + 1 + 64"
definition MAX_FILE_ENTRIES :: nat where "MAX_FILE_ENTRIES = 100000"
definition MAX_DECLARED_PAYLOAD_BYTES :: u64 where
  "MAX_DECLARED_PAYLOAD_BYTES = 2 * 1024 * 1024 * 1024 * 1024"
definition MAX_REGISTRY_SET_BYTES :: nat where "MAX_REGISTRY_SET_BYTES = 64 * 1024"
definition MAX_REGISTRY_ENTRIES :: nat where "MAX_REGISTRY_ENTRIES = 32"
definition MAX_REGISTRY_VALUE_NAME_BYTES :: nat where "MAX_REGISTRY_VALUE_NAME_BYTES = 256"
definition MAX_REGISTRY_STRING_BYTES :: nat where "MAX_REGISTRY_STRING_BYTES = 16 * 1024"
definition MAX_REGISTRY_BINARY_BYTES :: nat where "MAX_REGISTRY_BINARY_BYTES = 16 * 1024"

definition KEYRING_SIGNING_DOMAIN :: string where
  "KEYRING_SIGNING_DOMAIN = ''7launcher-maintenance-keyring-v1''"
definition FILE_SET_SIGNING_DOMAIN :: string where
  "FILE_SET_SIGNING_DOMAIN = ''7launcher-file-set-v1''"
definition REGISTRY_SET_SIGNING_DOMAIN :: string where
  "REGISTRY_SET_SIGNING_DOMAIN = ''7launcher-registry-set-v1''"

definition OFFLINE_ROOT_PUBLIC_KEY :: bytes where
  "OFFLINE_ROOT_PUBLIC_KEY =
    [0x07, 0x63, 0xa6, 0xdd, 0x11, 0x62, 0x94, 0x8b, 0xbf, 0xb9, 0x9b, 0x0b, 0x7b, 0x0f, 0xfd, 0x98,
     0xfe, 0xf3, 0x74, 0x0a, 0x75, 0xb5, 0x50, 0x00, 0xf1, 0x04, 0xbd, 0xf7, 0x1a, 0xde, 0xc8, 0xd6]"

subsection \<open>JSON values and code outside the repository\<close>

datatype json_number = PosInt u64 | NegInt u64 | Float u64

datatype json =
    JNull | JBool bool | JNumber json_number | JString string
  | JArray "json list" | JObject "(string \<times> json) list"

record external =
  json_string_text :: "string \<Rightarrow> string option"
  json_number_text :: "json_number \<Rightarrow> string"
  sha256 :: "string \<Rightarrow> bytes"
  key_from_bytes :: "bytes \<Rightarrow> bytes option"
  verify_strict :: "bytes \<Rightarrow> string \<Rightarrow> bytes \<Rightarrow> bool"
  to_lowercase :: "string \<Rightarrow> string"
  base64_decode :: "string \<Rightarrow> bytes option"
  base64_encode :: "bytes \<Rightarrow> string"

text \<open>
  A serde_json number is a \<open>u64\<close>, a negative \<open>i64\<close> (its two's complement word) or a float
  (its bits).
\<close>

fun as_u64 :: "json_number \<Rightarrow> u64 option" where
  "as_u64 (PosInt n) = Some n"
| "as_u64 (NegInt n) = None"
| "as_u64 (Float b) = None"

fun as_i64 :: "json_number \<Rightarrow> int option" where
  "as_i64 (PosInt n) = (if uint n < 2 ^ 63 then Some (uint n) else None)"
| "as_i64 (NegInt n) = Some (sint n)"
| "as_i64 (Float b) = None"

subsection \<open>Canonical JSON\<close>

text \<open>
  The source walks the sorted keys and looks each one up; a serde_json object holds one
  value per key, so this is a walk over the entries sorted by key.
\<close>

fun write_canonical :: "external \<Rightarrow> json \<Rightarrow> string result" where
  "write_canonical X JNull = Ok ''null''"
| "write_canonical X (JBool True) = Ok ''true''"
| "write_canonical X (JBool False) = Ok ''false''"
| "write_canonical X (JNumber n) =
     (if as_u64 n = None \<and> as_i64 n = None
      then Err JsonInvalid ''floating-point JSON numbers are not supported''
      else Ok (json_number_text X n))"
| "write_canonical X (JString s) =
     ok_or (json_string_text X s)
       (maintenance_error_new JsonInvalid ''could not encode JSON string'')"
| "write_canonical X (JArray items) =
     and_then (sequence (map (write_canonical X) items))
       (\<lambda>ts. Ok (''['' @ join_with '','' ts @ '']''))"
| "write_canonical X (JObject entries) =
     and_then
       (sequence
         (map (\<lambda>(key, item).
             and_then
               (ok_or (json_string_text X key)
                 (maintenance_error_new JsonInvalid ''could not encode JSON key''))
               (\<lambda>k. and_then item (\<lambda>v. Ok (k @ '':'' @ v))))
           (sort_key fst (map (\<lambda>(key, value). (key, write_canonical X value)) entries))))
       (\<lambda>ts. Ok (''{'' @ join_with '','' ts @ ''}''))"

definition canonical_json :: "external \<Rightarrow> json \<Rightarrow> string result" where
  "canonical_json X value = write_canonical X value"

text \<open>
  \<open>parse_canonical\<close> takes \<open>serde_json::from_slice\<close> and \<open>serde_json::to_value\<close> of the
  document's type.
\<close>

definition parse_canonical ::
  "external \<Rightarrow> (string \<Rightarrow> 'a option) \<Rightarrow> ('a \<Rightarrow> json option) \<Rightarrow> string \<Rightarrow> nat \<Rightarrow> 'a result"
where
  "parse_canonical X from_slice to_value bytes maximum =
     (if length bytes > maximum
      then Err ManifestTooLarge ''signed document exceeds the configured bound''
      else
        and_then (ok_or (from_slice bytes)
          (maintenance_error_new JsonInvalid ''signed document is not strict JSON'')) (\<lambda>parsed.
        and_then (ok_or (to_value parsed)
          (maintenance_error_new JsonInvalid ''signed document cannot be re-encoded'')) (\<lambda>value.
        and_then (canonical_json X value) (\<lambda>text.
          if text \<noteq> bytes
          then Err JsonNonCanonical ''signed document bytes are not canonical''
          else Ok parsed))))"

definition signing_message :: "string \<Rightarrow> string \<Rightarrow> string" where
  "signing_message domain canonical_payload = domain @ [CHR 0x00] @ canonical_payload"

subsection \<open>Hexadecimal text\<close>

definition hex_nibble :: "char \<Rightarrow> error_code \<Rightarrow> u8 result" where
  "hex_nibble byte c =
     (if CHR ''0'' \<le> byte \<and> byte \<le> CHR ''9'' then Ok (byte_of byte - byte_of CHR ''0'')
      else if CHR ''a'' \<le> byte \<and> byte \<le> CHR ''f''
      then Ok (byte_of byte - byte_of CHR ''a'' + 10)
      else Err c ''hexadecimal value must use lowercase ASCII'')"

fun decode_pairs :: "string \<Rightarrow> error_code \<Rightarrow> bytes result" where
  "decode_pairs (a # b # rest) c =
     and_then (hex_nibble a c) (\<lambda>hi.
     and_then (hex_nibble b c) (\<lambda>lo.
     and_then (decode_pairs rest c) (\<lambda>ds. Ok ((push_bit 4 hi OR lo) # ds))))"
| "decode_pairs _ c = Ok []"

definition decode_lower_hex :: "nat \<Rightarrow> string \<Rightarrow> error_code \<Rightarrow> bytes result" where
  "decode_lower_hex n value c =
     (if length value \<noteq> n * 2
      then Err c ''hexadecimal value has the wrong length''
      else decode_pairs value c)"

definition hex_digit :: "u8 \<Rightarrow> char" where
  "hex_digit n = ''0123456789abcdef'' ! unat n"

text \<open>\<open>encode_lower_hex\<close>: two lower-case digits for each byte.\<close>

definition encode_lower_hex :: "bytes \<Rightarrow> string" where
  "encode_lower_hex bs =
     concat (map (\<lambda>b. [hex_digit (drop_bit 4 b), hex_digit (b AND 15)]) bs)"

definition is_lower_hex :: "char \<Rightarrow> bool" where
  "is_lower_hex c = (is_ascii_digit c \<or> (CHR ''a'' \<le> c \<and> c \<le> CHR ''f''))"

subsection \<open>Identifiers\<close>

definition identifier_char :: "char \<Rightarrow> bool" where
  "identifier_char byte =
     (is_ascii_lowercase byte \<or> is_ascii_digit byte \<or> byte \<in> set ''._-'')"

definition valid_identifier :: "string \<Rightarrow> bool" where
  "valid_identifier value =
     (value \<noteq> [] \<and> length value \<le> 64 \<and> is_ascii_alphanumeric (hd value)
      \<and> list_all identifier_char value)"

definition valid_job_identifier :: "string \<Rightarrow> bool" where
  "valid_job_identifier value =
     (if length value > MAX_JOB_ID_BYTES then False
      else (case rsplitn 3 CHR ''-'' value of
          [digest, generation_text, root_id] \<Rightarrow>
            if \<not> valid_identifier root_id \<or> length digest \<noteq> 64
               \<or> \<not> list_all is_lower_hex digest
            then False
            else (case parse_u64 generation_text of
                None \<Rightarrow> False
              | Some generation \<Rightarrow>
                  generation > 0 \<and> word_to_string generation = generation_text)
        | _ \<Rightarrow> False))"

subsection \<open>Canonical documents\<close>

lemma parse_canonical_Ok:
  "parse_canonical X fs tv bytes m = Ok v \<longleftrightarrow>
     length bytes \<le> m \<and> fs bytes = Some v
     \<and> (\<exists>j. tv v = Some j \<and> canonical_json X j = Ok bytes)"
  by (auto simp: parse_canonical_def result_simps split: if_splits)

lemma parse_canonical_code:
  "parse_canonical X fs tv bytes m = Inl e \<Longrightarrow>
     code e \<in> {ManifestTooLarge, JsonInvalid, JsonNonCanonical} \<or>
     (\<exists>v j. tv v = Some j \<and> canonical_json X j = Inl e)"
  by (auto simp: parse_canonical_def result_simps split: if_splits)

subsection \<open>Hexadecimal text\<close>

lemma word8_nibbles:
  fixes b :: u8
  shows "push_bit 4 (drop_bit 4 b) OR (b AND 15) = b"
proof -
  have m: "(15 :: u8) = mask 4" by (simp add: mask_eq_exp_minus_1)
  show ?thesis unfolding m
    by (rule bit_word_eqI) (auto simp: bit_simps)
qed

lemma nibble_bounds:
  fixes b :: u8
  shows "drop_bit 4 b < 16" and "b AND 15 < 16"
proof -
  have "unat (drop_bit 4 b) < 16"
    using unsigned_less [of b, where ?'a = nat]
    by (simp only: unsigned_drop_bit_eq) (simp add: drop_bit_eq_div take_bit_nat_eq_self)
  then show "drop_bit 4 b < 16" by (simp add: word_less_nat_alt)
  have "(15 :: u8) = mask 4" by (simp add: mask_eq_exp_minus_1)
  then show "b AND 15 < 16"
    using and_mask_less' [of 4 b] by simp
qed

lemma word_below_16_cases:
  fixes n :: u8
  assumes "n < 16"
  shows "n \<in> {0, 1, 2, 3, 4, 5, 6, 7, 8, 9, 10, 11, 12, 13, 14, 15}"
proof -
  have "unat n < 16" using assms by (simp add: word_less_nat_alt)
  then have "unat n = 0 \<or> unat n = 1 \<or> unat n = 2 \<or> unat n = 3 \<or> unat n = 4 \<or> unat n = 5
    \<or> unat n = 6 \<or> unat n = 7 \<or> unat n = 8 \<or> unat n = 9 \<or> unat n = 10 \<or> unat n = 11
    \<or> unat n = 12 \<or> unat n = 13 \<or> unat n = 14 \<or> unat n = 15"
    by arith
  then show ?thesis by (simp add: word_unat_eq_iff)
qed

lemma hex_nibble_digit [simp]: "n < 16 \<Longrightarrow> hex_nibble (hex_digit n) c = Ok n"
  by (drule word_below_16_cases)
    (auto simp: hex_nibble_def hex_digit_def byte_of_def)

lemma hex_digit_is_lower_hex [simp]: "n < 16 \<Longrightarrow> is_lower_hex (hex_digit n)"
  by (drule word_below_16_cases)
    (auto simp: is_lower_hex_def is_ascii_digit_def hex_digit_def)

lemma is_lower_hex_iff: "is_lower_hex c \<longleftrightarrow> c \<in> set ''0123456789abcdef''"
proof -
  let ?k = "of_char c :: nat"
  have "is_lower_hex c \<longleftrightarrow> 48 \<le> ?k \<and> ?k \<le> 57 \<or> 97 \<le> ?k \<and> ?k \<le> 102"
    by (simp add: is_lower_hex_def is_ascii_digit_def less_eq_char_def)
  also have "\<dots> \<longleftrightarrow> ?k = 48 \<or> ?k = 49 \<or> ?k = 50 \<or> ?k = 51 \<or> ?k = 52 \<or> ?k = 53 \<or> ?k = 54
    \<or> ?k = 55 \<or> ?k = 56 \<or> ?k = 57 \<or> ?k = 97 \<or> ?k = 98 \<or> ?k = 99 \<or> ?k = 100 \<or> ?k = 101
    \<or> ?k = 102"
    by arith
  also have "\<dots> \<longleftrightarrow> c \<in> set ''0123456789abcdef''"
    by (simp flip: of_char_eq_iff [where 'a = nat])
  finally show ?thesis .
qed

lemma hex_nibble_Ok:
  assumes "hex_nibble c e = Ok n"
  shows "is_lower_hex c" and "n < 16" and "hex_digit n = c"
proof -
  show c: "is_lower_hex c"
    using assms by (auto simp: hex_nibble_def is_lower_hex_def is_ascii_digit_def split: if_splits)
  then have "c \<in> set ''0123456789abcdef''" by (simp add: is_lower_hex_iff)
  with assms show "n < 16" and "hex_digit n = c"
    by (auto simp: hex_nibble_def hex_digit_def byte_of_def)
qed

lemma hex_nibble_total: "is_lower_hex c \<Longrightarrow> \<exists>n. hex_nibble c e = Ok n"
  by (auto simp: hex_nibble_def is_lower_hex_def is_ascii_digit_def)

lemma hex_nibble_code: "hex_nibble c e = Inl x \<Longrightarrow> code x = e"
  by (auto simp: hex_nibble_def split: if_splits)

lemma length_encode_lower_hex [simp]: "length (encode_lower_hex bs) = 2 * length bs"
  by (induction bs) (auto simp: encode_lower_hex_def)

lemma encode_lower_hex_simps [simp]:
  "encode_lower_hex [] = []"
  "encode_lower_hex (b # bs) =
     hex_digit (drop_bit 4 b) # hex_digit (b AND 15) # encode_lower_hex bs"
  by (simp_all add: encode_lower_hex_def)

lemma encode_lower_hex_chars: "list_all is_lower_hex (encode_lower_hex bs)"
  by (induction bs) (auto simp: nibble_bounds)

lemma decode_pairs_encode: "decode_pairs (encode_lower_hex bs) c = Ok bs"
  by (induction bs) (auto simp: nibble_bounds word8_nibbles)

lemma nibbles_of_join:
  fixes hi lo :: u8
  assumes "hi < 16" and "lo < 16"
  shows "drop_bit 4 (push_bit 4 hi OR lo) = hi" and "(push_bit 4 hi OR lo) AND 15 = lo"
proof -
  have "take_bit 4 w = w" if "w < 16" for w :: u8
    using that by (simp add: word_unat_eq_iff unsigned_take_bit_eq take_bit_nat_eq_self
        word_less_nat_alt)
  then have high: "n < 4" if "w < 16" "bit w n" for w :: u8 and n
    using that by (metis bit_take_bit_iff)
  have m: "(15 :: u8) = mask 4" by (simp add: mask_eq_exp_minus_1)
  show "drop_bit 4 (push_bit 4 hi OR lo) = hi"
    by (rule bit_word_eqI) (use assms high in \<open>force simp: bit_simps\<close>)
  show "(push_bit 4 hi OR lo) AND 15 = lo"
    unfolding m by (rule bit_word_eqI) (use assms high in \<open>force simp: bit_simps\<close>)
qed

lemma decode_pairs_Ok:
  "decode_pairs s c = Ok bs \<Longrightarrow> even (length s) \<Longrightarrow> encode_lower_hex bs = s"
proof (induction s c arbitrary: bs rule: decode_pairs.induct)
  case (1 a b rest c)
  then obtain hi lo ds where hi: "hex_nibble a c = Ok hi" and lo: "hex_nibble b c = Ok lo"
    and ds: "decode_pairs rest c = Ok ds" and bs: "bs = (push_bit 4 hi OR lo) # ds"
    by (auto simp: result_simps)
  have "encode_lower_hex ds = rest" using 1 hi lo ds by simp
  with bs show ?case
    using hex_nibble_Ok [OF hi] hex_nibble_Ok [OF lo] by (simp add: nibbles_of_join del: drop_bit_or)
qed auto

lemma decode_lower_hex_encode [simp]:
  "length bs = n \<Longrightarrow> decode_lower_hex n (encode_lower_hex bs) c = Ok bs"
  by (simp add: decode_lower_hex_def decode_pairs_encode)

lemma decode_lower_hex_Ok:
  "decode_lower_hex n s c = Ok bs \<longleftrightarrow> length bs = n \<and> s = encode_lower_hex bs"
proof
  assume a: "decode_lower_hex n s c = Ok bs"
  then have "encode_lower_hex bs = s"
    by (auto simp: decode_lower_hex_def decode_pairs_Ok split: if_splits)
  moreover from this a have "length bs = n"
    by (auto simp: decode_lower_hex_def split: if_splits)
  ultimately show "length bs = n \<and> s = encode_lower_hex bs" by simp
qed auto

lemma decode_pairs_total:
  "list_all is_lower_hex s \<Longrightarrow> \<exists>bs. decode_pairs s c = Ok bs"
proof (induction s c rule: decode_pairs.induct)
  case (1 a b rest c)
  then obtain hi lo where "hex_nibble a c = Ok hi" "hex_nibble b c = Ok lo"
    using hex_nibble_total [of a c] hex_nibble_total [of b c] by auto
  moreover from this 1 obtain ds where "decode_pairs rest c = Ok ds" by auto
  ultimately show ?case by simp
qed auto

lemma decode_lower_hex_total:
  assumes "length s = n * 2" and "list_all is_lower_hex s"
  obtains bs where "decode_lower_hex n s c = Ok bs"
  using assms decode_pairs_total [of s c] by (auto simp: decode_lower_hex_def)

lemma decode_pairs_code: "decode_pairs s c = Inl e \<Longrightarrow> code e = c"
  by (induction s c rule: decode_pairs.induct) (auto simp: result_simps dest: hex_nibble_code)

lemma decode_lower_hex_code: "decode_lower_hex n s c = Inl e \<Longrightarrow> code e = c"
  by (auto simp: decode_lower_hex_def dest: decode_pairs_code split: if_splits)

lemma decode_lower_hex_inject:
  "decode_lower_hex n s c = Ok bs \<Longrightarrow> decode_lower_hex n t c' = Ok bs \<Longrightarrow> s = t"
  by (simp add: decode_lower_hex_Ok)

subsection \<open>Identifiers\<close>

lemma identifier_char_iff:
  "identifier_char c \<longleftrightarrow> is_ascii_lowercase c \<or> is_ascii_digit c \<or> c \<in> {CHR ''.'', CHR ''_'', CHR ''-''}"
  by (auto simp: identifier_char_def)

lemma valid_identifier_length: "valid_identifier s \<Longrightarrow> 0 < length s \<and> length s \<le> 64"
  by (simp add: valid_identifier_def)

text \<open>An identifier is a safe path component: no separator, no dot name, no control byte.\<close>

lemma valid_identifier_safe:
  assumes "valid_identifier s"
  shows "CHR ''/'' \<notin> set s" and "CHR 0x5C \<notin> set s" and "CHR '':'' \<notin> set s"
    and "s \<noteq> ''.''" and "s \<noteq> ''..''" and "\<not> has_control s"
proof -
  have all: "\<forall>c \<in> set s. identifier_char c" and hd: "s \<noteq> []" "is_ascii_alphanumeric (hd s)"
    using assms by (auto simp: valid_identifier_def list_all_iff)
  show "CHR ''/'' \<notin> set s" "CHR 0x5C \<notin> set s" "CHR '':'' \<notin> set s"
    using all by (auto simp: identifier_char_def ascii_defs)
  show "s \<noteq> ''.''" "s \<noteq> ''..''" using hd by (auto simp: ascii_defs)
  have ctl: "\<not> c < CHR 0x20" "c \<noteq> CHR 0x7F" "c \<noteq> CHR 0xC2" if "identifier_char c" for c
    using that by (auto simp: identifier_char_def ascii_defs less_char_def less_eq_char_def)
  from all show "\<not> has_control s"
    by (induction s rule: has_control.induct) (auto simp: ctl)
qed

definition job_identifier :: "string \<Rightarrow> u64 \<Rightarrow> string \<Rightarrow> string" where
  "job_identifier root_id generation digest_text =
     root_id @ ''-'' @ word_to_string generation @ ''-'' @ digest_text"

lemma word_to_string_no_dash: "CHR ''-'' \<notin> set (word_to_string w)"
  unfolding word_to_string_def
  by (rule digit_not_in_decimal) (simp add: is_ascii_digit_def)

lemma lower_hex_no_dash: "list_all is_lower_hex s \<Longrightarrow> CHR ''-'' \<notin> set s"
  by (induction s) (auto simp: is_lower_hex_def is_ascii_digit_def)

lemma rsplitn_3:
  "rsplitn 3 d s =
     (case rsplit_once d s of None \<Rightarrow> [s]
      | Some (a, b) \<Rightarrow> b # (case rsplit_once d a of None \<Rightarrow> [a] | Some (a', b') \<Rightarrow> [b', a']))"
  by (simp add: numeral_3_eq_3 split: option.splits)

lemma rsplitn_job_identifier:
  assumes "list_all is_lower_hex d"
  shows "rsplitn 3 CHR ''-'' (job_identifier r g d) = [d, word_to_string g, r]"
proof -
  have "rsplit_once CHR ''-'' (job_identifier r g d) = Some (r @ ''-'' @ word_to_string g, d)"
    using rsplit_once_append [OF lower_hex_no_dash [OF assms], of "r @ ''-'' @ word_to_string g"]
    by (simp add: job_identifier_def)
  moreover have "rsplit_once CHR ''-'' (r @ ''-'' @ word_to_string g) = Some (r, word_to_string g)"
    using rsplit_once_append [OF word_to_string_no_dash, of r g] by simp
  ultimately show ?thesis by (simp add: rsplitn_3)
qed

text \<open>Exactly the identifiers of the form the transaction layer builds are accepted.\<close>

lemma valid_job_identifier_iff:
  "valid_job_identifier v \<longleftrightarrow>
     (\<exists>r g d. v = job_identifier r g d \<and> valid_identifier r \<and> 0 < g
        \<and> length d = 64 \<and> list_all is_lower_hex d)"
proof
  assume "valid_job_identifier v"
  then obtain d t r where sp: "rsplitn 3 CHR ''-'' v = [d, t, r]" and "valid_identifier r"
    "length d = 64" "list_all is_lower_hex d"
    and g: "case parse_u64 t of None \<Rightarrow> False | Some g \<Rightarrow> 0 < g \<and> word_to_string g = t"
    by (auto simp: valid_job_identifier_def split: if_splits list.splits)
  moreover from g obtain g :: u64 where "0 < g" "word_to_string g = t"
    by (auto split: option.splits)
  moreover have "v = r @ CHR ''-'' # t @ CHR ''-'' # d"
    using sp by (auto simp: rsplitn_3 rsplit_once_Some split: option.splits)
  ultimately show "\<exists>r g d. v = job_identifier r g d \<and> valid_identifier r \<and> 0 < g
        \<and> length d = 64 \<and> list_all is_lower_hex d"
    by (auto simp: job_identifier_def)
next
  assume "\<exists>r g d. v = job_identifier r g d \<and> valid_identifier r \<and> 0 < g
        \<and> length d = 64 \<and> list_all is_lower_hex d"
  then obtain r g d where v: "v = job_identifier r g d" "valid_identifier r" "0 < g"
    "length d = 64" "list_all is_lower_hex d" by blast
  have "length v \<le> MAX_JOB_ID_BYTES"
    using v valid_identifier_length [of r] length_word_to_string_u64 [of g]
    by (simp add: job_identifier_def MAX_JOB_ID_BYTES_def)
  with v show "valid_job_identifier v"
    by (simp add: valid_job_identifier_def rsplitn_job_identifier)
qed

end
