(* ===== verification/File_System.thy ===== *)
theory File_System
  imports Contract "HOL-Library.Finite_Map"
begin

text \<open>
  The part of \<open>std::fs\<close> the crate uses, over an explicit disk.

  A disk is a finite map from paths (their components, case-folded as the Windows file
  system compares them) to nodes. An operation is a function of the world: the disk, a fault
  script and a clock that stamps new nodes. Every call consumes one fault of the script:
  it works, it fails, or the machine stops inside it. A failing or stopping write may have
  stored any prefix of its bytes, a failing or stopping tree removal may have left any part
  of the tree. An empty script means that every further call works.
\<close>

subsection \<open>Paths and nodes\<close>

type_synonym path = "string list"

record directory_identity =
  volume_serial :: u64
  file_id :: bytes

record stored_file =
  contents :: string
  file_identity :: directory_identity
  last_write_time :: u64
  multiple_links :: bool

text \<open>A reparse point stands for symbolic links, junctions and every other special node.\<close>

datatype node = File stored_file | Directory directory_identity | Reparse

type_synonym disk = "(path, node) fmap"

abbreviation node_at :: "disk \<Rightarrow> path \<Rightarrow> node option" where
  "node_at d p \<equiv> fmlookup d p"

fun is_file_node :: "node \<Rightarrow> bool" where
  "is_file_node (File f) = True"
| "is_file_node _ = False"

fun is_dir_node :: "node \<Rightarrow> bool" where
  "is_dir_node (Directory i) = True"
| "is_dir_node _ = False"

definition parent :: "path \<Rightarrow> path" where
  "parent p = butlast p"

definition below :: "path \<Rightarrow> path \<Rightarrow> bool" where
  "below dir p = (take (length dir) p = dir)"

definition is_directory :: "disk \<Rightarrow> path \<Rightarrow> bool" where
  "is_directory d p = (case node_at d p of Some n \<Rightarrow> is_dir_node n | None \<Rightarrow> False)"

text \<open>Names in a directory, in the byte order the crate sorts them in.\<close>

definition children :: "disk \<Rightarrow> path \<Rightarrow> string list" where
  "children d dir =
     sorted_list_of_fset (fimage last (ffilter (\<lambda>p. p \<noteq> [] \<and> butlast p = dir) (fmdom d)))"

text \<open>
  Windows paths: \<open>Path::is_absolute\<close> (a drive with a root, a verbatim or device prefix, or a
  server and a share) and the folded components of an absolute path.
\<close>

definition is_separator :: "char \<Rightarrow> bool" where
  "is_separator c = (c = CHR 0x5C \<or> c = CHR ''/'')"

fun is_absolute :: "string \<Rightarrow> bool" where
  "is_absolute (a # b # c # s) =
     (if is_separator a \<and> is_separator b
      then c = CHR ''?'' \<or> c = CHR ''.''
        \<or> (let server = takeWhile (\<lambda>x. \<not> is_separator x) (c # s);
               share = takeWhile (\<lambda>x. \<not> is_separator x) (drop (Suc (length server)) (c # s))
           in server \<noteq> [] \<and> share \<noteq> [])
      else (is_ascii_lowercase a \<or> is_ascii_uppercase a) \<and> b = CHR '':'' \<and> is_separator c)"
| "is_absolute _ = False"

definition fold_path :: "external \<Rightarrow> string \<Rightarrow> path" where
  "fold_path X p = map (to_lowercase X) (split_on CHR 0x5C p)"

subsection \<open>The world and its faults\<close>

datatype fault = Works | Fails nat "path \<Rightarrow> bool" | Stops nat "path \<Rightarrow> bool"

text \<open>
  The machine's registry: the keys below \<open>HKEY_LOCAL_MACHINE\<close>, by their view (the
  \<open>KEY_WOW64\<close> flag) and folded components, with their values by folded name.
\<close>

record stored_registry_value =
  value_data :: bytes
  stored_type :: u32

type_synonym registry_key = "u32 \<times> path"
type_synonym key_values = "(string, stored_registry_value) fmap"
type_synonym hive = "(registry_key, key_values) fmap"

record world =
  disk :: disk
  faults :: "fault list"
  clock :: nat
  hive :: hive

datatype 'a outcome = Returned 'a | Stopped

type_synonym 'a io = "world \<Rightarrow> 'a outcome \<times> world"

text \<open>The error kinds the crate distinguishes.\<close>

datatype io_error = NotFound | AlreadyExists | Other

definition io_return :: "'a \<Rightarrow> 'a io" where
  "io_return x w = (Returned x, w)"

definition io_bind :: "'a io \<Rightarrow> ('a \<Rightarrow> 'b io) \<Rightarrow> 'b io" where
  "io_bind m f w = (case m w of (Returned x, w') \<Rightarrow> f x w' | (Stopped, w') \<Rightarrow> (Stopped, w'))"

text \<open>The question-mark operator on effectful results, and \<open>map_err\<close>.\<close>

definition io_then :: "('e + 'a) io \<Rightarrow> ('a \<Rightarrow> ('e + 'b) io) \<Rightarrow> ('e + 'b) io" where
  "io_then m f = io_bind m (\<lambda>r. case r of Inl e \<Rightarrow> io_return (Inl e) | Inr x \<Rightarrow> f x)"

definition map_err :: "('e \<Rightarrow> 'f) \<Rightarrow> ('e + 'a) io \<Rightarrow> ('f + 'a) io" where
  "map_err g m =
     io_bind m (\<lambda>r. io_return (case r of Inl e \<Rightarrow> Inl (g e) | Inr x \<Rightarrow> Inr x))"

definition lift_result :: "('e + 'a) \<Rightarrow> ('e + 'a) io" where
  "lift_result r = io_return r"

fun io_each :: "('b \<Rightarrow> ('e + unit) io) \<Rightarrow> 'b list \<Rightarrow> ('e + unit) io" where
  "io_each f [] = io_return (Inr ())"
| "io_each f (x # xs) = io_then (f x) (\<lambda>_. io_each f xs)"

lemma io_simps:
  "io_bind (io_return x) f = f x"
  "io_then (io_return (Inr x)) g = g x" "io_then (io_return (Inl e)) g = io_return (Inl e)"
  "io_then (lift_result (Inr x)) g = g x" "io_then (lift_result (Inl e)) g = io_return (Inl e)"
  by (simp_all add: io_bind_def io_return_def io_then_def lift_result_def fun_eq_iff)

text \<open>
  One call: its effect when it works, and what it may leave behind when it does not.
\<close>

definition disk_call ::
  "(nat \<Rightarrow> disk \<Rightarrow> io_error + ('a \<times> disk)) \<Rightarrow> (nat \<Rightarrow> (path \<Rightarrow> bool) \<Rightarrow> disk \<Rightarrow> disk)
   \<Rightarrow> (io_error + 'a) io"
where
  "disk_call effect partial w =
     (case faults w of
        Fails n keep # fs \<Rightarrow>
          (Returned (Inl Other),
           w\<lparr>disk := partial n keep (disk w), faults := fs, clock := Suc (clock w)\<rparr>)
      | Stops n keep # fs \<Rightarrow>
          (Stopped, w\<lparr>disk := partial n keep (disk w), faults := fs, clock := Suc (clock w)\<rparr>)
      | fs \<Rightarrow>
          (let w' = w\<lparr>faults := tl fs, clock := Suc (clock w)\<rparr> in
           case effect (clock w) (disk w) of
             Inl e \<Rightarrow> (Returned (Inl e), w')
           | Inr (x, d) \<Rightarrow> (Returned (Inr x), w'\<lparr>disk := d\<rparr>)))"

definition unchanged :: "nat \<Rightarrow> (path \<Rightarrow> bool) \<Rightarrow> disk \<Rightarrow> disk" where
  "unchanged n keep d = d"

subsection \<open>The calls\<close>

definition new_identity :: "nat \<Rightarrow> directory_identity" where
  "new_identity c = \<lparr>volume_serial = 0, file_id = [of_nat c]\<rparr>"

definition new_file :: "nat \<Rightarrow> string \<Rightarrow> node" where
  "new_file c s = File \<lparr>contents = s, file_identity = new_identity c,
     last_write_time = of_nat c, multiple_links = False\<rparr>"

text \<open>\<open>symlink_metadata\<close>: the node itself.\<close>

definition fs_metadata :: "path \<Rightarrow> (io_error + node) io" where
  "fs_metadata p = disk_call
     (\<lambda>c d. case node_at d p of None \<Rightarrow> Inl NotFound | Some n \<Rightarrow> Inr (n, d)) unchanged"

text \<open>
  \<open>canonicalize\<close> of an existing path: a path without reparse points names itself. Resolving
  through a reparse point is not modelled; the call fails.
\<close>

definition crosses_reparse :: "disk \<Rightarrow> path \<Rightarrow> bool" where
  "crosses_reparse d p = list_ex (\<lambda>k. node_at d (take k p) = Some Reparse) [1..<Suc (length p)]"

definition fs_canonicalize :: "external \<Rightarrow> string \<Rightarrow> (io_error + string) io" where
  "fs_canonicalize X s = disk_call
     (\<lambda>c d. if crosses_reparse d (fold_path X s) then Inl Other
        else if node_at d (fold_path X s) = None then Inl NotFound
        else Inr (s, d)) unchanged"

text \<open>\<open>Path::exists\<close> answers false on every error.\<close>

definition fs_exists :: "path \<Rightarrow> bool io" where
  "fs_exists p = io_bind (fs_metadata p) (\<lambda>r. io_return (is_ok r))"

definition fs_create_dir :: "path \<Rightarrow> (io_error + unit) io" where
  "fs_create_dir p = disk_call
     (\<lambda>c d. if node_at d p \<noteq> None then Inl AlreadyExists
        else if \<not> is_directory d (parent p) then Inl NotFound
        else Inr ((), fmupd p (Directory (new_identity c)) d)) unchanged"

text \<open>\<open>create_dir_all\<close>: the missing directories from the top down.\<close>

fun create_dirs :: "nat \<Rightarrow> path \<Rightarrow> path \<Rightarrow> disk \<Rightarrow> io_error + disk" where
  "create_dirs c done [] d = Inr d"
| "create_dirs c done (x # xs) d =
     (case node_at d (done @ [x]) of
        None \<Rightarrow> create_dirs c (done @ [x]) xs
          (fmupd (done @ [x]) (Directory (new_identity c)) d)
      | Some n \<Rightarrow> if is_dir_node n then create_dirs c (done @ [x]) xs d else Inl AlreadyExists)"

definition fs_create_dir_all :: "path \<Rightarrow> (io_error + unit) io" where
  "fs_create_dir_all p = disk_call
     (\<lambda>c d. case create_dirs c [] p d of Inl e \<Rightarrow> Inl e | Inr d' \<Rightarrow> Inr ((), d')) unchanged"

text \<open>\<open>rename\<close> moves a file and replaces a file at the destination; no directory is renamed.\<close>

definition rename_node :: "path \<Rightarrow> path \<Rightarrow> disk \<Rightarrow> io_error + disk" where
  "rename_node a b d =
     (case node_at d a of
        None \<Rightarrow> Inl NotFound
      | Some n \<Rightarrow>
          if is_dir_node n then Inl Other
          else if is_directory d b then Inl Other
          else if \<not> is_directory d (parent b) then Inl NotFound
          else Inr (fmupd b n (fmdrop a d)))"

definition fs_rename :: "path \<Rightarrow> path \<Rightarrow> (io_error + unit) io" where
  "fs_rename a b = disk_call
     (\<lambda>c d. case rename_node a b d of Inl e \<Rightarrow> Inl e | Inr d' \<Rightarrow> Inr ((), d')) unchanged"

definition fs_remove_file :: "path \<Rightarrow> (io_error + unit) io" where
  "fs_remove_file p = disk_call
     (\<lambda>c d. case node_at d p of
        None \<Rightarrow> Inl NotFound
      | Some n \<Rightarrow> if is_dir_node n then Inl Other else Inr ((), fmdrop p d)) unchanged"

text \<open>
  Removing a tree removes children before their directory, so an interrupted removal leaves
  the paths above those it had not reached.
\<close>

definition kept_below :: "(path \<Rightarrow> bool) \<Rightarrow> disk \<Rightarrow> path \<Rightarrow> bool" where
  "kept_below keep d q = fBex (fmdom d) (\<lambda>q'. below q q' \<and> keep q')"

definition fs_remove_dir_all :: "path \<Rightarrow> (io_error + unit) io" where
  "fs_remove_dir_all p = disk_call
     (\<lambda>c d. case node_at d p of
        None \<Rightarrow> Inl NotFound
      | Some n \<Rightarrow>
          if is_dir_node n then Inr ((), fmfilter (\<lambda>q. \<not> below p q) d) else Inl Other)
     (\<lambda>n keep d. fmfilter (\<lambda>q. \<not> below p q \<or> kept_below keep d q) d)"

text \<open>Opening for read and reading at most \<open>maximum\<close> bytes (\<open>take\<close> and \<open>read_to_end\<close>).\<close>

definition fs_read :: "path \<Rightarrow> nat \<Rightarrow> (io_error + string) io" where
  "fs_read p maximum = disk_call
     (\<lambda>c d. case node_at d p of
        Some (File f) \<Rightarrow> Inr (take maximum (contents f), d)
      | Some _ \<Rightarrow> Inl Other
      | None \<Rightarrow> Inl NotFound) unchanged"

text \<open>The three ways the crate opens a file to write.\<close>

definition open_truncate :: "path \<Rightarrow> (io_error + unit) io" where
  "open_truncate p = disk_call
     (\<lambda>c d. case node_at d p of
        None \<Rightarrow> if is_directory d (parent p) then Inr ((), fmupd p (new_file c []) d) else Inl NotFound
      | Some (File f) \<Rightarrow>
          Inr ((), fmupd p (File (f\<lparr>contents := [], last_write_time := of_nat c\<rparr>)) d)
      | Some _ \<Rightarrow> Inl Other) unchanged"

definition open_create_new :: "path \<Rightarrow> (io_error + unit) io" where
  "open_create_new p = disk_call
     (\<lambda>c d. if node_at d p \<noteq> None then Inl AlreadyExists
        else if \<not> is_directory d (parent p) then Inl NotFound
        else Inr ((), fmupd p (new_file c []) d)) unchanged"

definition open_existing :: "path \<Rightarrow> (io_error + unit) io" where
  "open_existing p = disk_call
     (\<lambda>c d. case node_at d p of
        Some (File f) \<Rightarrow> Inr ((), d)
      | Some _ \<Rightarrow> Inl Other
      | None \<Rightarrow> Inl NotFound) unchanged"

text \<open>An open file as a reader: the bytes its reads will deliver.\<close>

definition open_reader :: "path \<Rightarrow> (io_error + string) io" where
  "open_reader p = disk_call
     (\<lambda>c d. case node_at d p of
        Some (File f) \<Rightarrow> Inr (contents f, d)
      | Some _ \<Rightarrow> Inl Other
      | None \<Rightarrow> Inl NotFound) unchanged"

text \<open>Writing at the end of an opened file, and syncing it.\<close>

definition append_bytes :: "path \<Rightarrow> string \<Rightarrow> disk \<Rightarrow> disk" where
  "append_bytes p s d =
     (case node_at d p of
        Some (File f) \<Rightarrow> fmupd p (File (f\<lparr>contents := contents f @ s\<rparr>)) d
      | _ \<Rightarrow> d)"

definition fs_write_all :: "path \<Rightarrow> string \<Rightarrow> (io_error + unit) io" where
  "fs_write_all p s = disk_call
     (\<lambda>c d. Inr ((), append_bytes p s d)) (\<lambda>n keep. append_bytes p (take n s))"

definition fs_sync_all :: "path \<Rightarrow> (io_error + unit) io" where
  "fs_sync_all p = disk_call (\<lambda>c d. Inr ((), d)) unchanged"

text \<open>Listing a directory.\<close>

definition fs_read_dir :: "path \<Rightarrow> (io_error + string list) io" where
  "fs_read_dir p = disk_call
     (\<lambda>c d. if is_directory d p then Inr (children d p, d)
        else Inl (if node_at d p = None then NotFound else Other)) unchanged"


subsection \<open>Reasoning about effects\<close>

text \<open>
  \<open>wp M m Q C d\<close>: started on the disk \<open>d\<close>, whatever the clock and whatever faults of the
  mode \<open>M\<close> the script holds, the operation returns only values and disks in \<open>Q\<close>, and stops
  only with a disk in \<open>C\<close>. In the mode \<open>no_fault\<close> every call works, so the operation
  always returns.
\<close>

datatype mode = Mode (stops: bool) (fails: bool)

abbreviation any_fault :: mode where "any_fault \<equiv> Mode True True"
abbreviation only_crash :: mode where "only_crash \<equiv> Mode True False"
abbreviation no_fault :: mode where "no_fault \<equiv> Mode False False"

fun allows :: "mode \<Rightarrow> fault \<Rightarrow> bool" where
  "allows M Works \<longleftrightarrow> True"
| "allows M (Fails n keep) \<longleftrightarrow> fails M"
| "allows M (Stops n keep) \<longleftrightarrow> stops M"

definition settles ::
  "mode \<Rightarrow> ('a \<Rightarrow> disk \<Rightarrow> bool) \<Rightarrow> (disk \<Rightarrow> bool) \<Rightarrow> 'a outcome \<times> world \<Rightarrow> bool"
where
  "settles M Q C r =
     (list_all (allows M) (faults (snd r))
      \<and> (case fst r of
           Returned x \<Rightarrow> Q x (disk (snd r))
         | Stopped \<Rightarrow> stops M \<and> C (disk (snd r))))"

definition wp :: "mode \<Rightarrow> 'a io \<Rightarrow> ('a \<Rightarrow> disk \<Rightarrow> bool) \<Rightarrow> (disk \<Rightarrow> bool) \<Rightarrow> disk \<Rightarrow> bool" where
  "wp M m Q C d \<longleftrightarrow>
     (\<forall>w. disk w = d \<longrightarrow> list_all (allows M) (faults w) \<longrightarrow> settles M Q C (m w))"

named_theorems wp_intro

lemma settles_simps [simp]:
  "settles M Q C (Returned x, w) \<longleftrightarrow> list_all (allows M) (faults w) \<and> Q x (disk w)"
  "settles M Q C (Stopped, w) \<longleftrightarrow> list_all (allows M) (faults w) \<and> stops M \<and> C (disk w)"
  by (simp_all add: settles_def)

lemma allows_any [simp]: "allows any_fault f"
  by (cases f) simp_all

lemma list_allows_any [simp]: "list_all (allows any_fault) fs"
  by (simp add: list_all_iff)

lemma wpI:
  "(\<And>w. disk w = d \<Longrightarrow> list_all (allows M) (faults w) \<Longrightarrow> settles M Q C (m w)) \<Longrightarrow> wp M m Q C d"
  by (simp add: wp_def)

lemma wpD:
  "wp M m Q C d \<Longrightarrow> disk w = d \<Longrightarrow> list_all (allows M) (faults w) \<Longrightarrow> settles M Q C (m w)"
  unfolding wp_def by blast

lemma wpD_returned:
  "wp M m Q C d \<Longrightarrow> disk w = d \<Longrightarrow> list_all (allows M) (faults w) \<Longrightarrow> m w = (Returned x, w')
   \<Longrightarrow> Q x (disk w')"
  by (drule wpD [of _ _ _ _ _ w]) simp_all

lemma wpD_stopped:
  "wp M m Q C d \<Longrightarrow> disk w = d \<Longrightarrow> list_all (allows M) (faults w) \<Longrightarrow> m w = (Stopped, w')
   \<Longrightarrow> C (disk w')"
  by (drule wpD [of _ _ _ _ _ w]) simp_all

text \<open>Without faults an operation returns, in its postcondition.\<close>

lemma wpD_works:
  assumes "wp no_fault m Q C d" and "disk w = d" and "faults w = []"
  shows "\<exists>x w'. m w = (Returned x, w') \<and> Q x (disk w')"
proof -
  have "settles no_fault Q C (m w)" using assms by (auto intro: wpD)
  then show ?thesis by (cases "m w"; cases "fst (m w)") auto
qed

lemma wp_return [wp_intro]: "Q x d \<Longrightarrow> wp M (io_return x) Q C d"
  by (simp add: wp_def io_return_def)

lemma wp_lift_result [wp_intro]: "Q r d \<Longrightarrow> wp M (lift_result r) Q C d"
  by (simp add: lift_result_def wp_return)

lemma wp_bind [wp_intro]:
  assumes "wp M m (\<lambda>x. wp M (f x) Q C) C d"
  shows "wp M (io_bind m f) Q C d"
proof (rule wpI)
  fix w :: world assume w: "disk w = d" "list_all (allows M) (faults w)"
  obtain r w' where m: "m w = (r, w')" by (cases "m w")
  from wpD [OF assms w] m show "settles M Q C (io_bind m f w)"
    by (cases r) (auto simp: io_bind_def intro: wpD)
qed

lemma wp_conseq:
  assumes "wp M m Q C d" and "\<And>x d. Q x d \<Longrightarrow> Q' x d" and "\<And>d. C d \<Longrightarrow> C' d"
  shows "wp M m Q' C' d"
proof (rule wpI)
  fix w :: world assume w: "disk w = d" "list_all (allows M) (faults w)"
  obtain r w' where m: "m w = (r, w')" by (cases "m w")
  from wpD [OF assms(1) w] m assms(2,3) show "settles M Q' C' (m w)"
    by (cases r) auto
qed

lemma wp_then [wp_intro]:
  assumes "wp M m (\<lambda>r d'. case r of Inl e \<Rightarrow> Q (Inl e) d' | Inr x \<Rightarrow> wp M (f x) Q C d') C d"
  shows "wp M (io_then m f) Q C d"
  unfolding io_then_def
  by (rule wp_bind, rule wp_conseq [OF assms]) (auto split: sum.splits intro: wp_return)

lemma wp_map_err [wp_intro]:
  assumes "wp M m (\<lambda>r. Q (case r of Inl e \<Rightarrow> Inl (g e) | Inr x \<Rightarrow> Inr x)) C d"
  shows "wp M (map_err g m) Q C d"
  unfolding map_err_def by (rule wp_bind, rule wp_conseq [OF assms]) (auto intro: wp_return)

text \<open>The rule for loops: an invariant over the elements done.\<close>

lemma wp_each:
  assumes step: "\<And>ys x zs d. xs = ys @ x # zs \<Longrightarrow> I ys d \<Longrightarrow>
      wp M (f x) (\<lambda>r d'. case r of Inl e \<Rightarrow> Q (Inl e) d' | Inr _ \<Rightarrow> I (ys @ [x]) d') C d"
    and finish: "\<And>d. I xs d \<Longrightarrow> Q (Inr ()) d"
    and start: "I [] d"
  shows "wp M (io_each f xs) Q C d"
proof -
  have "wp M (io_each f zs) Q C d" if "xs = ys @ zs" "I ys d" for ys zs d
    using that
  proof (induction zs arbitrary: ys d)
    case Nil
    then show ?case by (auto intro: wp_return finish)
  next
    case (Cons z zs)
    have *: "wp M (f z) (\<lambda>r d'. case r of Inl e \<Rightarrow> Q (Inl e) d' | Inr _ \<Rightarrow> I (ys @ [z]) d') C d"
      by (rule step) (use Cons.prems in auto)
    have "wp M (io_each f zs) Q C d'" if "I (ys @ [z]) d'" for d'
      by (rule Cons.IH [OF _ that]) (use Cons.prems in simp)
    with * show ?case
      unfolding io_each.simps
      by (intro wp_then) (erule wp_conseq, auto split: sum.splits)
  qed
  from this [of "[]" xs d] start show ?thesis by simp
qed

lemma wp_disk_call:
  assumes "\<And>n keep. stops M \<Longrightarrow> C (part n keep d)"
    and "\<And>n keep. fails M \<Longrightarrow> Q (Inl Other) (part n keep d)"
    and "\<And>c. case effect c d of Inl e \<Rightarrow> Q (Inl e) d | Inr (x, d') \<Rightarrow> Q (Inr x) d'"
  shows "wp M (disk_call effect part) Q C d"
proof (rule wpI)
  fix w :: world assume w: "disk w = d" "list_all (allows M) (faults w)"
  have "settles M Q C
      (case effect (clock w) d of
         Inl e \<Rightarrow> (Returned (Inl e), w\<lparr>faults := fs, clock := Suc (clock w)\<rparr>)
       | Inr (x, d) \<Rightarrow> (Returned (Inr x), w\<lparr>faults := fs, clock := Suc (clock w)\<rparr>\<lparr>disk := d\<rparr>))"
    if "list_all (allows M) fs" for fs
    using assms(3) [of "clock w"] w that by (auto split: sum.splits prod.splits)
  note e = this [of "tl (faults w)"]
  show "settles M Q C (disk_call effect part w)"
  proof (cases "faults w")
    case Nil
    with e w show ?thesis
      by (cases "effect (clock w) d") (auto simp: disk_call_def Let_def split: prod.splits)
  next
    case (Cons x fs)
    with e w assms(1,2) show ?thesis
      by (cases x; cases "effect (clock w) d")
        (auto simp: disk_call_def Let_def split: prod.splits)
  qed
qed

text \<open>A call without partial effects.\<close>

lemma wp_disk_call_unchanged:
  assumes "stops M \<Longrightarrow> C d" and "fails M \<Longrightarrow> Q (Inl Other) d"
    and "\<And>c. case effect c d of Inl e \<Rightarrow> Q (Inl e) d | Inr (x, d') \<Rightarrow> Q (Inr x) d'"
  shows "wp M (disk_call effect unchanged) Q C d"
  using assms by (intro wp_disk_call) (auto simp: unchanged_def)

subsection \<open>A rule for each call\<close>

lemma wp_metadata:
  "(stops M \<Longrightarrow> C d) \<Longrightarrow> (fails M \<Longrightarrow> Q (Inl Other) d)
   \<Longrightarrow> Q (case node_at d p of None \<Rightarrow> Inl NotFound | Some n \<Rightarrow> Inr n) d
   \<Longrightarrow> wp M (fs_metadata p) Q C d"
  unfolding fs_metadata_def by (rule wp_disk_call_unchanged) (auto split: option.splits)

lemma wp_canonicalize:
  "(stops M \<Longrightarrow> C d) \<Longrightarrow> (fails M \<Longrightarrow> Q (Inl Other) d)
   \<Longrightarrow> (if crosses_reparse d (fold_path X s) then Q (Inl Other) d
        else if node_at d (fold_path X s) = None then Q (Inl NotFound) d else Q (Inr s) d)
   \<Longrightarrow> wp M (fs_canonicalize X s) Q C d"
  unfolding fs_canonicalize_def by (rule wp_disk_call_unchanged) auto

lemma wp_exists:
  "(stops M \<Longrightarrow> C d) \<Longrightarrow> (fails M \<Longrightarrow> Q False d) \<Longrightarrow> Q (node_at d p \<noteq> None) d
   \<Longrightarrow> wp M (fs_exists p) Q C d"
  unfolding fs_exists_def
  by (intro wp_bind wp_metadata wp_return) (auto split: option.splits)

lemma wp_create_dir:
  "(stops M \<Longrightarrow> C d) \<Longrightarrow> (fails M \<Longrightarrow> Q (Inl Other) d)
   \<Longrightarrow> (node_at d p \<noteq> None \<Longrightarrow> Q (Inl AlreadyExists) d)
   \<Longrightarrow> (node_at d p = None \<Longrightarrow> \<not> is_directory d (parent p) \<Longrightarrow> Q (Inl NotFound) d)
   \<Longrightarrow> (\<And>i. node_at d p = None \<Longrightarrow> is_directory d (parent p)
        \<Longrightarrow> Q (Inr ()) (fmupd p (Directory i) d))
   \<Longrightarrow> wp M (fs_create_dir p) Q C d"
  unfolding fs_create_dir_def by (rule wp_disk_call_unchanged) auto

lemma wp_rename:
  "(stops M \<Longrightarrow> C d) \<Longrightarrow> (fails M \<Longrightarrow> Q (Inl Other) d)
   \<Longrightarrow> (case rename_node a t d of Inl e \<Rightarrow> Q (Inl e) d | Inr d' \<Rightarrow> Q (Inr ()) d')
   \<Longrightarrow> wp M (fs_rename a t) Q C d"
  unfolding fs_rename_def by (rule wp_disk_call_unchanged) (auto split: sum.splits)

lemma wp_remove_file:
  "(stops M \<Longrightarrow> C d) \<Longrightarrow> (fails M \<Longrightarrow> Q (Inl Other) d)
   \<Longrightarrow> (case node_at d p of None \<Rightarrow> Q (Inl NotFound) d
        | Some n \<Rightarrow> if is_dir_node n then Q (Inl Other) d else Q (Inr ()) (fmdrop p d))
   \<Longrightarrow> wp M (fs_remove_file p) Q C d"
  unfolding fs_remove_file_def by (rule wp_disk_call_unchanged) (auto split: option.splits)

lemma below_refl [simp]: "below p p"
  by (simp add: below_def)

lemma below_append [simp]: "below p (p @ q)"
  by (simp add: below_def)

lemma below_iff: "below p q \<longleftrightarrow> (\<exists>r. q = p @ r)"
  by (metis append_take_drop_id below_append below_def)

lemma below_trans: "below p q \<Longrightarrow> below q r \<Longrightarrow> below p r"
  by (auto simp: below_iff)

lemma kept_below_up: "below q q' \<Longrightarrow> kept_below keep d q' \<Longrightarrow> kept_below keep d q"
  unfolding kept_below_def by (meson below_trans fBexE fBexI)

lemma wp_remove_dir_all:
  "(\<And>K. stops M \<Longrightarrow> (\<And>q q'. below q q' \<Longrightarrow> K q' \<Longrightarrow> K q) \<Longrightarrow>
      C (fmfilter (\<lambda>q. \<not> below p q \<or> K q) d))
   \<Longrightarrow> (\<And>K. fails M \<Longrightarrow> (\<And>q q'. below q q' \<Longrightarrow> K q' \<Longrightarrow> K q) \<Longrightarrow>
      Q (Inl Other) (fmfilter (\<lambda>q. \<not> below p q \<or> K q) d))
   \<Longrightarrow> (case node_at d p of None \<Rightarrow> Q (Inl NotFound) d
        | Some n \<Rightarrow> if is_dir_node n then Q (Inr ()) (fmfilter (\<lambda>q. \<not> below p q) d)
            else Q (Inl Other) d)
   \<Longrightarrow> wp M (fs_remove_dir_all p) Q C d"
  unfolding fs_remove_dir_all_def
  by (rule wp_disk_call) (auto split: option.splits dest: kept_below_up)

lemma wp_read:
  "(stops M \<Longrightarrow> C d) \<Longrightarrow> (fails M \<Longrightarrow> Q (Inl Other) d)
   \<Longrightarrow> (case node_at d p of None \<Rightarrow> Q (Inl NotFound) d
        | Some (File f) \<Rightarrow> Q (Inr (take n (contents f))) d
        | Some _ \<Rightarrow> Q (Inl Other) d)
   \<Longrightarrow> wp M (fs_read p n) Q C d"
  unfolding fs_read_def
  by (rule wp_disk_call_unchanged) (auto split: option.splits node.splits)

lemma wp_open_truncate:
  "(stops M \<Longrightarrow> C d) \<Longrightarrow> (fails M \<Longrightarrow> Q (Inl Other) d)
   \<Longrightarrow> (\<And>c. case node_at d p of
          None \<Rightarrow> if is_directory d (parent p) then Q (Inr ()) (fmupd p (new_file c []) d)
            else Q (Inl NotFound) d
        | Some (File f) \<Rightarrow>
            Q (Inr ()) (fmupd p (File (f\<lparr>contents := [], last_write_time := of_nat c\<rparr>)) d)
        | Some _ \<Rightarrow> Q (Inl Other) d)
   \<Longrightarrow> wp M (open_truncate p) Q C d"
  unfolding open_truncate_def
  by (rule wp_disk_call_unchanged) (force split: option.splits node.splits if_splits)+

lemma wp_open_create_new:
  "(stops M \<Longrightarrow> C d) \<Longrightarrow> (fails M \<Longrightarrow> Q (Inl Other) d)
   \<Longrightarrow> (node_at d p \<noteq> None \<Longrightarrow> Q (Inl AlreadyExists) d)
   \<Longrightarrow> (node_at d p = None \<Longrightarrow> \<not> is_directory d (parent p) \<Longrightarrow> Q (Inl NotFound) d)
   \<Longrightarrow> (\<And>c. node_at d p = None \<Longrightarrow> is_directory d (parent p)
        \<Longrightarrow> Q (Inr ()) (fmupd p (new_file c []) d))
   \<Longrightarrow> wp M (open_create_new p) Q C d"
  unfolding open_create_new_def by (rule wp_disk_call_unchanged) auto

lemma wp_open_existing:
  "(stops M \<Longrightarrow> C d) \<Longrightarrow> (fails M \<Longrightarrow> Q (Inl Other) d)
   \<Longrightarrow> (case node_at d p of None \<Rightarrow> Q (Inl NotFound) d | Some (File f) \<Rightarrow> Q (Inr ()) d
        | Some _ \<Rightarrow> Q (Inl Other) d)
   \<Longrightarrow> wp M (open_existing p) Q C d"
  unfolding open_existing_def
  by (rule wp_disk_call_unchanged) (auto split: option.splits node.splits)

lemma wp_open_reader:
  "(stops M \<Longrightarrow> C d) \<Longrightarrow> (fails M \<Longrightarrow> Q (Inl Other) d)
   \<Longrightarrow> (case node_at d p of None \<Rightarrow> Q (Inl NotFound) d | Some (File f) \<Rightarrow> Q (Inr (contents f)) d
        | Some _ \<Rightarrow> Q (Inl Other) d)
   \<Longrightarrow> wp M (open_reader p) Q C d"
  unfolding open_reader_def
  by (rule wp_disk_call_unchanged) (auto split: option.splits node.splits)

lemma wp_write_all:
  "(\<And>n. stops M \<Longrightarrow> C (append_bytes p (take n s) d))
   \<Longrightarrow> (\<And>n. fails M \<Longrightarrow> Q (Inl Other) (append_bytes p (take n s) d))
   \<Longrightarrow> Q (Inr ()) (append_bytes p s d)
   \<Longrightarrow> wp M (fs_write_all p s) Q C d"
  unfolding fs_write_all_def by (rule wp_disk_call) auto

lemma wp_sync_all:
  "(stops M \<Longrightarrow> C d) \<Longrightarrow> (fails M \<Longrightarrow> Q (Inl Other) d) \<Longrightarrow> Q (Inr ()) d
   \<Longrightarrow> wp M (fs_sync_all p) Q C d"
  unfolding fs_sync_all_def by (rule wp_disk_call_unchanged) auto

lemma wp_read_dir:
  "(stops M \<Longrightarrow> C d) \<Longrightarrow> (fails M \<Longrightarrow> Q (Inl Other) d)
   \<Longrightarrow> (if is_directory d p then Q (Inr (children d p)) d
        else Q (Inl (if node_at d p = None then NotFound else Other)) d)
   \<Longrightarrow> wp M (fs_read_dir p) Q C d"
  unfolding fs_read_dir_def by (rule wp_disk_call_unchanged) auto

lemmas wp_calls = wp_metadata wp_canonicalize wp_exists wp_create_dir wp_rename wp_remove_file
  wp_remove_dir_all wp_read wp_open_truncate wp_open_create_new wp_open_existing
  wp_open_reader wp_write_all wp_sync_all wp_read_dir

subsection \<open>Facts about the pure parts\<close>

text \<open>The contents of the file at a path.\<close>

definition file_at :: "disk \<Rightarrow> path \<Rightarrow> string option" where
  "file_at d p = (case node_at d p of Some (File f) \<Rightarrow> Some (contents f) | _ \<Rightarrow> None)"

lemma file_at_upd [simp]:
  "file_at (fmupd p n d) q =
     (if q = p then (case n of File f \<Rightarrow> Some (contents f) | _ \<Rightarrow> None) else file_at d q)"
  by (simp add: file_at_def)

lemma file_at_drop [simp]: "file_at (fmdrop p d) q = (if q = p then None else file_at d q)"
  by (simp add: file_at_def)

lemma file_at_Some: "file_at d p = Some s \<longleftrightarrow> (\<exists>f. node_at d p = Some (File f) \<and> contents f = s)"
  by (auto simp: file_at_def split: option.splits node.splits)

lemma is_directory_upd [simp]:
  "is_directory (fmupd p n d) q = (if q = p then is_dir_node n else is_directory d q)"
  by (simp add: is_directory_def)

lemma is_directory_drop [simp]:
  "is_directory (fmdrop p d) q = (q \<noteq> p \<and> is_directory d q)"
  by (simp add: is_directory_def)

lemma is_directory_iff: "is_directory d p \<longleftrightarrow> (\<exists>i. node_at d p = Some (Directory i))"
proof (cases "node_at d p")
  case (Some n)
  then show ?thesis by (cases n) (simp_all add: is_directory_def)
qed (simp add: is_directory_def)

lemma is_directory_node: "node_at d p = Some n \<Longrightarrow> is_directory d p = is_dir_node n"
  by (simp add: is_directory_def)

lemma is_dir_new_file [simp]: "is_dir_node (new_file c s) = False" "new_file c s \<noteq> Directory i"
  by (simp_all add: new_file_def)

lemma node_at_append_bytes:
  "node_at (append_bytes p s d) q =
     (if q = p then map_option (\<lambda>n. case n of File f \<Rightarrow> File (f\<lparr>contents := contents f @ s\<rparr>) | _ \<Rightarrow> n)
        (node_at d p)
      else node_at d q)"
  by (auto simp: append_bytes_def split: option.splits node.splits)

lemma file_at_append_bytes [simp]:
  "file_at (append_bytes p s d) q =
     (if q = p then map_option (\<lambda>t. t @ s) (file_at d p) else file_at d q)"
  by (auto simp: file_at_def node_at_append_bytes split: option.splits node.splits)

lemma is_directory_append_bytes [simp]: "is_directory (append_bytes p s d) q = is_directory d q"
  by (auto simp: is_directory_def node_at_append_bytes split: option.splits node.splits)

end
