(* ===== verification/Document_Store.thy ===== *)
theory Document_Store
  imports File_System
begin

text \<open>
  The two ways the service keeps a document on disk, each a write to a temporary file, a
  rename of the current file to a backup and a rename of the temporary file into place:

  \<^item> \<open>commit_document\<close>, which \<open>RootRegistry::save\<close> and \<open>RegistryScopeRegistry::save\<close>
    (\<open>src/roots.rs\<close>, \<open>src/registry_scopes.rs\<close>) spell out line for line alike, with the
    reader that falls back to the backup;
  \<^item> \<open>replace_service_file\<close> and \<open>recover_service_file_replacement\<close> (\<open>src/windows.rs\<close>),
    which refuse leftovers and rely on an explicit recovery.

  For both, every crash and failure point is covered: the lemmas say which disks an
  interrupted run leaves and what the reader or the recovery makes of them.
\<close>

subsection \<open>Names\<close>

definition file_stem :: "string \<Rightarrow> string" where
  "file_stem n = (case rsplit_once CHR ''.'' n of
      None \<Rightarrow> n | Some (a, b) \<Rightarrow> if a = [] then n else a)"

definition with_extension :: "path \<Rightarrow> string \<Rightarrow> path" where
  "with_extension p ext = butlast p @ [file_stem (last p) @ ''.'' @ ext]"

definition temporary_path :: "path \<Rightarrow> path" where
  "temporary_path p = with_extension p ''new''"

definition backup_path :: "path \<Rightarrow> path" where
  "backup_path p = with_extension p ''bak''"

definition read_bounded :: "path \<Rightarrow> nat \<Rightarrow> (io_error + string) io" where
  "read_bounded p maximum =
     io_then (fs_read p (maximum + 1)) (\<lambda>b.
       lift_result (if length b > maximum then Inl Other else Inr b))"

definition io_err :: "maintenance_error \<Rightarrow> (io_error + 'a) io \<Rightarrow> 'a result io" where
  "io_err e m = map_err (\<lambda>_. e) m"

subsection \<open>Registries: write, back up, activate\<close>

text \<open>
  The file part of the two \<open>save\<close> functions. \<open>err\<close> gives the error of each step: the scope
  registry uses one for all steps.
\<close>

definition commit_document :: "(string \<Rightarrow> maintenance_error) \<Rightarrow> path \<Rightarrow> string \<Rightarrow> unit result io" where
  "commit_document err p bytes =
     io_then (io_err (err ''parent cannot be made'') (fs_create_dir_all (parent p))) (\<lambda>_.
     io_then (io_err (err ''temp cannot open'') (open_truncate (temporary_path p))) (\<lambda>_.
     io_then (io_err (err ''temp write failed'') (fs_write_all (temporary_path p) bytes)) (\<lambda>_.
     io_then (io_err (err ''temp sync failed'') (fs_sync_all (temporary_path p))) (\<lambda>_.
     io_bind (fs_exists p) (\<lambda>present.
     io_then
       (if present
        then
          io_bind (fs_exists (backup_path p)) (\<lambda>stale.
          io_then
            (if stale
             then io_err (err ''stale backup cannot be removed'') (fs_remove_file (backup_path p))
             else io_return (Ok ())) (\<lambda>_.
          io_err (err ''backup rename failed'') (fs_rename p (backup_path p))))
        else io_return (Ok ())) (\<lambda>_.
     io_bind (fs_rename (temporary_path p) p) (\<lambda>activated.
     if \<not> is_ok activated
     then
       io_bind (fs_exists (backup_path p)) (\<lambda>saved.
       io_bind
         (if saved then fs_rename (backup_path p) p else io_return (Inr ())) (\<lambda>_.
       io_return (Inl (err ''commit rename failed''))))
     else
       io_bind (fs_exists (backup_path p)) (\<lambda>saved.
       io_then
         (if saved
          then io_err (err ''backup cleanup failed'') (fs_remove_file (backup_path p))
          else io_return (Ok ())) (\<lambda>_.
       io_err (err ''sync failed'')
         (io_then (open_existing p) (\<lambda>_. fs_sync_all p)))))))))))"

text \<open>The reader of both \<open>load\<close> functions: the file, or its backup when it cannot be read.\<close>

definition read_with_backup :: "path \<Rightarrow> nat \<Rightarrow> maintenance_error \<Rightarrow> string result io" where
  "read_with_backup p maximum e =
     io_bind (read_bounded p maximum) (\<lambda>r.
     case r of
       Inr bytes \<Rightarrow> io_return (Ok bytes)
     | Inl _ \<Rightarrow> io_err e (read_bounded (backup_path p) maximum))"

subsection \<open>Service files: replacement with an explicit recovery\<close>

definition service_io :: "string \<Rightarrow> maintenance_error" where
  "service_io what = maintenance_error_new TransactionIo what"

definition replace_service_file :: "path \<Rightarrow> string \<Rightarrow> unit result io" where
  "replace_service_file p bytes =
     (let temporary = with_extension p ''new''; backup = with_extension p ''bak'' in
     io_bind (fs_exists temporary) (\<lambda>stale.
     io_bind (if stale then io_return True else fs_exists backup) (\<lambda>stale.
     if stale
     then io_return (Err TransactionConflict ''stale protected replacement files require recovery'')
     else
       io_then (io_err (service_io ''protected replacement cannot be created'')
         (open_create_new temporary)) (\<lambda>_.
       io_then (io_err (service_io ''protected replacement cannot be written'')
         (fs_write_all temporary bytes)) (\<lambda>_.
       io_then (io_err (service_io ''protected replacement cannot be flushed'')
         (fs_sync_all temporary)) (\<lambda>_.
       io_bind (fs_exists p) (\<lambda>present.
       io_then
         (if present
          then io_err (service_io ''protected current file cannot be backed up'')
            (fs_rename p backup)
          else io_return (Ok ())) (\<lambda>_.
       io_bind (fs_rename temporary p) (\<lambda>activated.
       if \<not> is_ok activated
       then
         io_bind (fs_exists backup) (\<lambda>saved.
         io_bind (if saved then fs_rename backup p else io_return (Inr ())) (\<lambda>_.
         io_return (Inl (service_io ''protected replacement cannot be activated''))))
       else
         io_bind (fs_exists backup) (\<lambda>saved.
         if saved
         then io_err (service_io ''protected backup cannot be cleaned'') (fs_remove_file backup)
         else io_return (Ok ())))))))))))"

definition recover_service_file_replacement :: "path \<Rightarrow> unit result io" where
  "recover_service_file_replacement p =
     (let temporary = with_extension p ''new''; backup = with_extension p ''bak'' in
     io_bind (fs_exists p) (\<lambda>current.
     io_bind (fs_exists temporary) (\<lambda>fresh.
     io_bind (fs_exists backup) (\<lambda>saved.
     case (current, fresh, saved) of
       (True, True, False) \<Rightarrow>
         io_err (service_io ''stale protected replacement cannot be discarded'')
           (fs_remove_file temporary)
     | (False, True, True) \<Rightarrow>
         io_then
           (io_err (service_io ''protected replacement recovery cannot activate the new file'')
             (fs_rename temporary p)) (\<lambda>_.
         io_err (service_io ''protected replacement recovery cannot remove the backup'')
           (fs_remove_file backup))
     | (True, False, True) \<Rightarrow>
         io_err (service_io ''protected replacement recovery cannot remove the backup'')
           (fs_remove_file backup)
     | (False, False, True) \<Rightarrow>
         io_err (service_io ''protected replacement recovery cannot restore the backup'')
           (fs_rename backup p)
     | (False, True, False) \<Rightarrow>
         io_err (service_io ''protected replacement recovery cannot activate the initial file'')
           (fs_rename temporary p)
     | (True, True, True) \<Rightarrow>
         io_return (Err TransactionState ''protected replacement state is ambiguous'')
     | (_, False, False) \<Rightarrow> io_return (Ok ())))))"

text \<open>\<open>read_bounded_file\<close> has the body of the registries' \<open>read_bounded\<close>.\<close>

definition read_bounded_file :: "path \<Rightarrow> nat \<Rightarrow> (io_error + string) io" where
  "read_bounded_file p maximum = read_bounded p maximum"


subsection \<open>The three names of a document\<close>

text \<open>
  A document lies in a directory, and its name does not end in the extension of its
  temporary or backup file.
\<close>

definition document_path :: "path \<Rightarrow> bool" where
  "document_path p \<longleftrightarrow> 2 \<le> length p \<and> temporary_path p \<noteq> p \<and> backup_path p \<noteq> p"

definition document_names :: "path \<Rightarrow> path set" where
  "document_names p = {p, temporary_path p, backup_path p}"

lemma temporary_backup_neq [simp]: "temporary_path p \<noteq> backup_path p" "backup_path p \<noteq> temporary_path p"
  by (simp_all add: temporary_path_def backup_path_def with_extension_def)

lemma document_pathD:
  assumes "document_path p"
  shows "p \<noteq> []" "parent p \<noteq> []" "temporary_path p \<noteq> p" "backup_path p \<noteq> p"
    "p \<noteq> temporary_path p" "p \<noteq> backup_path p"
proof -
  have "length (butlast p) \<noteq> 0" using assms by (simp add: document_path_def)
  then have "butlast p \<noteq> []" by (metis list.size(3))
  then show "p \<noteq> []" "parent p \<noteq> []" by (auto simp: parent_def)
qed (use assms in \<open>auto simp: document_path_def\<close>)

lemma document_names_in [simp]:
  "p \<in> document_names p" "temporary_path p \<in> document_names p" "backup_path p \<in> document_names p"
  by (simp_all add: document_names_def)

lemma document_names_parent:
  assumes "document_path p" and "q \<in> document_names p"
  shows "parent q = parent p" "length q = length p"
  using assms document_pathD(1) [OF assms(1)]
  by (auto simp: document_names_def temporary_path_def backup_path_def with_extension_def parent_def)

text \<open>A disk on which the three names are free or hold files, below existing directories.\<close>

definition plain :: "disk \<Rightarrow> path \<Rightarrow> bool" where
  "plain d p \<longleftrightarrow> (\<forall>n. node_at d p = Some n \<longrightarrow> (\<exists>f. n = File f))"

lemma plain_simps [simp]:
  "plain (fmupd q (File f) d) p \<longleftrightarrow> q = p \<or> plain d p"
  "plain (fmdrop q d) p \<longleftrightarrow> q = p \<or> plain d p"
  by (auto simp: plain_def)

lemma plain_append_bytes [simp]: "plain (append_bytes q s d) p \<longleftrightarrow> plain d p"
  by (cases "node_at d q") (auto simp: plain_def append_bytes_def split: node.splits)

definition slots :: "disk \<Rightarrow> path \<Rightarrow> bool" where
  "slots d p \<longleftrightarrow>
     (\<forall>k. 0 < k \<and> k \<le> length (parent p) \<longrightarrow> is_directory d (take k (parent p)))
     \<and> (\<forall>q \<in> document_names p. plain d q)"

lemma slots_3:
  "slots d [a, b, c] \<longleftrightarrow> is_directory d [a] \<and> is_directory d [a, b]
     \<and> (\<forall>q \<in> document_names [a, b, c]. plain d q)"
proof -
  have "(\<forall>k. 0 < k \<and> k \<le> Suc (Suc 0) \<longrightarrow> P k) \<longleftrightarrow> P (Suc 0) \<and> P (Suc (Suc 0))" for P
    by (auto simp: le_Suc_eq)
  then show ?thesis by (simp add: slots_def parent_def)
qed

lemma slots_parent: "document_path p \<Longrightarrow> slots d p \<Longrightarrow> is_directory d (parent p)"
  using document_pathD(2) [of p] by (fastforce simp: slots_def dest: spec [of _ "length (parent p)"])

lemma slots_node:
  assumes "slots d p" and "q \<in> document_names p"
  shows "node_at d q = None \<and> file_at d q = None
    \<or> (\<exists>f. node_at d q = Some (File f) \<and> file_at d q = Some (contents f))"
proof -
  have "plain d q" using assms by (simp add: slots_def)
  then show ?thesis by (cases "node_at d q") (auto simp: plain_def file_at_def)
qed

lemma ancestor_neq:
  assumes "document_path p" and "q \<in> document_names p" and "k \<le> length (parent p)"
  shows "take k (parent p) \<noteq> q"
proof -
  have "length (parent p) < length q"
    using document_names_parent [OF assms(1,2)] document_pathD(1) [OF assms(1)]
    by (simp add: parent_def)
  then show ?thesis by auto
qed

lemma slots_upd:
  assumes "document_path p" and "slots d p" and "q \<in> document_names p"
  shows "slots (fmupd q (File f) d) p" and "slots (fmdrop q d) p"
    and "slots (append_bytes q s d) p"
  using assms ancestor_neq [OF assms(1,3)]
  by (auto simp: slots_def)

lemma create_dirs_existing:
  "(\<forall>k. 0 < k \<and> k \<le> length xs \<longrightarrow> is_directory d (done @ take k xs)) \<Longrightarrow>
    create_dirs c done xs d = Inr d"
proof (induction xs arbitrary: "done")
  case (Cons x xs)
  have "is_directory d (done @ [x])" using Cons.prems by (auto dest: spec [of _ 1])
  then obtain n where "node_at d (done @ [x]) = Some n" "is_dir_node n"
    by (auto simp: is_directory_def split: option.splits)
  moreover have "create_dirs c (done @ [x]) xs d = Inr d"
  proof (rule Cons.IH, intro allI impI)
    fix k assume "0 < k \<and> k \<le> length xs"
    then show "is_directory d ((done @ [x]) @ take k xs)"
      using Cons.prems by (auto dest: spec [of _ "Suc k"])
  qed
  ultimately show ?case by simp
qed simp

subsection \<open>Reasoning about the three files only\<close>

text \<open>
  \<open>wps p M m Q C F\<close>: as \<open>wp\<close>, on the disks that hold the files \<open>F\<close>, with conditions on
  the files that result.
\<close>

type_synonym files_view = "path \<Rightarrow> string option"

definition wps ::
  "path \<Rightarrow> mode \<Rightarrow> 'a io \<Rightarrow> ('a \<Rightarrow> files_view \<Rightarrow> bool) \<Rightarrow> (files_view \<Rightarrow> bool) \<Rightarrow> files_view \<Rightarrow> bool"
where
  "wps p M m Q C F \<longleftrightarrow> (\<forall>d. slots d p \<longrightarrow> file_at d = F \<longrightarrow>
     wp M m (\<lambda>x d. slots d p \<and> Q x (file_at d)) (\<lambda>d. slots d p \<and> C (file_at d)) d)"

lemma wpsI:
  "(\<And>d. slots d p \<Longrightarrow> file_at d = F \<Longrightarrow>
     wp M m (\<lambda>x d. slots d p \<and> Q x (file_at d)) (\<lambda>d. slots d p \<and> C (file_at d)) d)
   \<Longrightarrow> wps p M m Q C F"
  by (simp add: wps_def)

lemma wpsD:
  "wps p M m Q C F \<Longrightarrow> slots d p \<Longrightarrow> file_at d = F \<Longrightarrow>
     wp M m (\<lambda>x d. slots d p \<and> Q x (file_at d)) (\<lambda>d. slots d p \<and> C (file_at d)) d"
  by (simp add: wps_def)

lemma wps_conseq:
  assumes "wps p M m Q C F" and "\<And>x G. Q x G \<Longrightarrow> Q' x G" and "\<And>G. C G \<Longrightarrow> C' G"
  shows "wps p M m Q' C' F"
  by (rule wpsI, rule wp_conseq [OF wpsD [OF assms(1)]]) (auto intro: assms(2,3))

lemma wps_return: "Q x F \<Longrightarrow> wps p M (io_return x) Q C F"
  by (auto simp: wps_def intro: wp_return)

lemma wps_bind:
  assumes "wps p M m (\<lambda>x. wps p M (f x) Q C) C F"
  shows "wps p M (io_bind m f) Q C F"
  by (intro wpsI wp_bind, rule wp_conseq [OF wpsD [OF assms]]) (auto dest: wpsD)

lemma wps_then:
  assumes "wps p M m (\<lambda>r G. case r of Inl e \<Rightarrow> Q (Inl e) G | Inr x \<Rightarrow> wps p M (f x) Q C G) C F"
  shows "wps p M (io_then m f) Q C F"
  unfolding io_then_def
  by (rule wps_bind, rule wps_conseq [OF assms]) (auto split: sum.splits intro: wps_return)

lemma wps_map_err:
  "wps p M m (\<lambda>r. Q (case r of Inl e \<Rightarrow> Inl (g e) | Inr x \<Rightarrow> Inr x)) C F
   \<Longrightarrow> wps p M (map_err g m) Q C F"
  unfolding wps_def by (auto intro!: wp_map_err)

lemma wps_exists:
  assumes "q \<in> document_names p"
    and "stops M \<Longrightarrow> C F" "fails M \<Longrightarrow> Q False F" "Q (F q \<noteq> None) F"
  shows "wps p M (fs_exists q) Q C F"
proof (intro wpsI wp_exists)
  fix d assume "slots d p" "file_at d = F"
  with slots_node [OF this(1) assms(1)] assms(4)
  show "slots d p \<and> Q (node_at d q \<noteq> None) (file_at d)" by auto
qed (use assms in auto)

lemma wps_rename:
  assumes "document_path p" "q \<in> document_names p" "t \<in> document_names p" "q \<noteq> t"
    and "stops M \<Longrightarrow> C F" "fails M \<Longrightarrow> Q (Inl Other) F"
    and "F q = None \<Longrightarrow> Q (Inl NotFound) F"
    and "F q \<noteq> None \<Longrightarrow> Q (Inr ()) (F(q := None, t := F q))"
  shows "wps p M (fs_rename q t) Q C F"
proof (intro wpsI wp_rename)
  fix d assume d: "slots d p" "file_at d = F"
  show "case rename_node q t d of
      Inl e \<Rightarrow> slots d p \<and> Q (Inl e) (file_at d)
    | Inr d' \<Rightarrow> slots d' p \<and> Q (Inr ()) (file_at d')"
  proof (cases "F q")
    case None
    with d slots_node [OF d(1) assms(2)] assms(7) show ?thesis
      by (auto simp: rename_node_def)
  next
    case (Some s)
    then obtain f where f: "node_at d q = Some (File f)" "contents f = s"
      using d slots_node [OF d(1) assms(2)] by auto
    have t: "\<not> is_directory d t"
      using slots_node [OF d(1) assms(3)] by (auto simp: is_directory_def)
    have par: "is_directory d (parent t)"
      using document_names_parent [OF assms(1,3)] slots_parent [OF assms(1) d(1)] by simp
    have "file_at (fmupd t (File f) (fmdrop q d)) = F(q := None, t := F q)"
      using f d(2) Some by (auto simp: fun_eq_iff)
    moreover have "slots (fmupd t (File f) (fmdrop q d)) p"
      using assms d by (intro slots_upd)
    ultimately show ?thesis
      using f t par assms(8) Some by (simp add: rename_node_def)
  qed
qed (use assms in auto)

lemma wps_remove_file:
  assumes "document_path p" "q \<in> document_names p"
    and "stops M \<Longrightarrow> C F" "fails M \<Longrightarrow> Q (Inl Other) F"
    and "F q = None \<Longrightarrow> Q (Inl NotFound) F"
    and "F q \<noteq> None \<Longrightarrow> Q (Inr ()) (F(q := None))"
  shows "wps p M (fs_remove_file q) Q C F"
proof (intro wpsI wp_remove_file)
  fix d assume d: "slots d p" "file_at d = F"
  have "file_at (fmdrop q d) = F(q := None)" using d by (auto simp: fun_eq_iff)
  then show "case node_at d q of None \<Rightarrow> slots d p \<and> Q (Inl NotFound) (file_at d)
    | Some n \<Rightarrow> if is_dir_node n then slots d p \<and> Q (Inl Other) (file_at d)
        else slots (fmdrop q d) p \<and> Q (Inr ()) (file_at (fmdrop q d))"
    using slots_node [OF d(1) assms(2)] d assms(5,6) slots_upd(2) [OF assms(1) d(1) assms(2)]
    by auto
qed (use assms in auto)

lemma wps_sync_all:
  "(stops M \<Longrightarrow> C F) \<Longrightarrow> (fails M \<Longrightarrow> Q (Inl Other) F) \<Longrightarrow> Q (Inr ()) F
   \<Longrightarrow> wps p M (fs_sync_all q) Q C F"
  unfolding wps_def by (auto intro!: wp_sync_all)

lemma wps_write_all:
  assumes "document_path p" "q \<in> document_names p"
    and "\<And>n. stops M \<Longrightarrow> C (F(q := map_option (\<lambda>t. t @ take n s) (F q)))"
    and "\<And>n. fails M \<Longrightarrow> Q (Inl Other) (F(q := map_option (\<lambda>t. t @ take n s) (F q)))"
    and "Q (Inr ()) (F(q := map_option (\<lambda>t. t @ s) (F q)))"
  shows "wps p M (fs_write_all q s) Q C F"
proof (intro wpsI wp_write_all)
  fix d assume d: "slots d p" "file_at d = F"
  have e: "file_at (append_bytes q u d) = F(q := map_option (\<lambda>t. t @ u) (F q))"
    "slots (append_bytes q u d) p" for u
    using d slots_upd(3) [OF assms(1) d(1) assms(2)] by (auto simp: fun_eq_iff)
  show "slots (append_bytes q s d) p \<and> Q (Inr ()) (file_at (append_bytes q s d))"
    using e assms by simp
  show "stops M \<Longrightarrow> slots (append_bytes q (take n s) d) p \<and> C (file_at (append_bytes q (take n s) d))"
    "fails M \<Longrightarrow> slots (append_bytes q (take n s) d) p
      \<and> Q (Inl Other) (file_at (append_bytes q (take n s) d))" for n
    using e assms by simp_all
qed

lemma wps_open_create_new:
  assumes "document_path p" "q \<in> document_names p"
    and "stops M \<Longrightarrow> C F" "fails M \<Longrightarrow> Q (Inl Other) F"
    and "F q \<noteq> None \<Longrightarrow> Q (Inl AlreadyExists) F"
    and "F q = None \<Longrightarrow> Q (Inr ()) (F(q := Some []))"
  shows "wps p M (open_create_new q) Q C F"
proof (intro wpsI wp_open_create_new)
  fix d c assume d: "slots d p" "file_at d = F" and n: "node_at d q = None"
  have "file_at (fmupd q (new_file c []) d) = F(q := Some [])"
    using d by (auto simp: fun_eq_iff new_file_def)
  moreover have "slots (fmupd q (new_file c []) d) p"
    using slots_upd(1) [OF assms(1) d(1) assms(2)] by (simp add: new_file_def)
  moreover have "F q = None" using slots_node [OF d(1) assms(2)] n d by auto
  ultimately show "slots (fmupd q (new_file c []) d) p
      \<and> Q (Inr ()) (file_at (fmupd q (new_file c []) d))"
    using assms(6) by simp
next
  fix d assume d: "slots d p" "file_at d = F" "node_at d q \<noteq> None"
  then show "slots d p \<and> Q (Inl AlreadyExists) (file_at d)"
    using slots_node [OF d(1) assms(2)] assms(5) by auto
next
  fix d assume d: "slots d p" "file_at d = F" "\<not> is_directory d (parent q)"
  then show "slots d p \<and> Q (Inl NotFound) (file_at d)"
    using document_names_parent [OF assms(1,2)] slots_parent [OF assms(1) d(1)] by simp
qed (use assms in auto)

lemma wps_open_truncate:
  assumes "document_path p" "q \<in> document_names p"
    and "stops M \<Longrightarrow> C F" "fails M \<Longrightarrow> Q (Inl Other) F"
    and "Q (Inr ()) (F(q := Some []))"
  shows "wps p M (open_truncate q) Q C F"
proof (intro wpsI wp_open_truncate)
  fix d c assume d: "slots d p" "file_at d = F"
  have v: "file_at (fmupd q (File f) d) = F(q := Some [])" if "contents f = []" for f
    using d that by (auto simp: fun_eq_iff)
  have v': "file_at (fmupd q (new_file c []) d) = F(q := Some [])"
    using d by (auto simp: fun_eq_iff new_file_def)
  have "slots (fmupd q (new_file c []) d) p"
    using slots_upd(1) [OF assms(1) d(1) assms(2)] by (simp add: new_file_def)
  then show "case node_at d q of
      None \<Rightarrow> if is_directory d (parent q)
        then slots (fmupd q (new_file c []) d) p \<and> Q (Inr ()) (file_at (fmupd q (new_file c []) d))
        else slots d p \<and> Q (Inl NotFound) (file_at d)
    | Some (File f) \<Rightarrow>
        slots (fmupd q (File (f\<lparr>contents := [], last_write_time := of_nat c\<rparr>)) d) p
        \<and> Q (Inr ()) (file_at (fmupd q (File (f\<lparr>contents := [], last_write_time := of_nat c\<rparr>)) d))
    | Some _ \<Rightarrow> slots d p \<and> Q (Inl Other) (file_at d)"
    using slots_node [OF d(1) assms(2)] assms(5) v v' slots_upd(1) [OF assms(1) d(1) assms(2)]
      document_names_parent [OF assms(1,2)] slots_parent [OF assms(1) d(1)] by auto
qed (use assms in auto)

lemma wps_open_existing:
  assumes "q \<in> document_names p"
    and "stops M \<Longrightarrow> C F" "fails M \<Longrightarrow> Q (Inl Other) F"
    and "F q = None \<Longrightarrow> Q (Inl NotFound) F" "F q \<noteq> None \<Longrightarrow> Q (Inr ()) F"
  shows "wps p M (open_existing q) Q C F"
proof (intro wpsI wp_open_existing)
  fix d assume d: "slots d p" "file_at d = F"
  with slots_node [OF d(1) assms(1)] assms(4,5)
  show "case node_at d q of None \<Rightarrow> slots d p \<and> Q (Inl NotFound) (file_at d)
    | Some (File f) \<Rightarrow> slots d p \<and> Q (Inr ()) (file_at d)
    | Some _ \<Rightarrow> slots d p \<and> Q (Inl Other) (file_at d)" by auto
qed (use assms in auto)

lemma wps_create_parent:
  assumes "stops M \<Longrightarrow> C F" "fails M \<Longrightarrow> Q (Inl Other) F" "Q (Inr ()) F"
  shows "wps p M (fs_create_dir_all (parent p)) Q C F"
  unfolding fs_create_dir_all_def
proof (intro wpsI wp_disk_call_unchanged)
  fix d c assume d: "slots d p" "file_at d = F"
  then have "create_dirs c [] (parent p) d = Inr d"
    by (intro create_dirs_existing) (simp add: slots_def)
  with d assms(3) show "case (case create_dirs c [] (parent p) d of Inl e \<Rightarrow> Inl e | Inr d' \<Rightarrow> Inr ((), d')) of
      Inl e \<Rightarrow> slots d p \<and> Q (Inl e) (file_at d)
    | Inr (x, d') \<Rightarrow> slots d' p \<and> Q (Inr x) (file_at d')" by simp
qed (use assms in auto)

lemma wps_read_bounded:
  assumes "q \<in> document_names p"
    and "stops M \<Longrightarrow> C F" "fails M \<Longrightarrow> Q (Inl Other) F"
    and "F q = None \<Longrightarrow> Q (Inl NotFound) F"
    and "\<And>s. F q = Some s \<Longrightarrow> Q (if length s > n then Inl Other else Inr s) F"
  shows "wps p M (read_bounded q n) Q C F"
  unfolding read_bounded_def
proof (intro wpsI wp_then wp_read)
  fix d assume d: "slots d p" "file_at d = F"
  from slots_node [OF d(1) assms(1)] d assms(4,5)
  show "case node_at d q of
      None \<Rightarrow> (case Inl NotFound of Inl e \<Rightarrow> slots d p \<and> Q (Inl e) (file_at d)
        | Inr b \<Rightarrow> wp M (lift_result (if n < length b then Inl Other else Inr b))
            (\<lambda>x d. slots d p \<and> Q x (file_at d)) (\<lambda>d. slots d p \<and> C (file_at d)) d)
    | Some (File f) \<Rightarrow> (case Inr (take (n + 1) (contents f)) of
          Inl e \<Rightarrow> slots d p \<and> Q (Inl e) (file_at d)
        | Inr b \<Rightarrow> wp M (lift_result (if n < length b then Inl Other else Inr b))
            (\<lambda>x d. slots d p \<and> Q x (file_at d)) (\<lambda>d. slots d p \<and> C (file_at d)) d)
    | Some _ \<Rightarrow> (case Inl Other of Inl e \<Rightarrow> slots d p \<and> Q (Inl e) (file_at d)
        | Inr b \<Rightarrow> wp M (lift_result (if n < length b then Inl Other else Inr b))
            (\<lambda>x d. slots d p \<and> Q x (file_at d)) (\<lambda>d. slots d p \<and> C (file_at d)) d)"
    by (auto intro!: wp_lift_result split: if_splits)
qed (use assms in auto)

lemmas wps_rules = wps_return wps_bind wps_then wps_map_err wps_exists wps_rename wps_remove_file
  wps_sync_all wps_write_all wps_open_create_new wps_open_truncate wps_open_existing
  wps_create_parent wps_read_bounded

subsection \<open>Crash safety of service files\<close>

text \<open>
  What a replacement of the contents \<open>old\<close> by \<open>new\<close> can leave in the three files when it
  fails or the machine stops.
\<close>

definition interrupted :: "path \<Rightarrow> string \<Rightarrow> string \<Rightarrow> files_view \<Rightarrow> bool" where
  "interrupted p old new F \<longleftrightarrow>
     (let current = F p; fresh = F (temporary_path p); saved = F (backup_path p) in
        (current = Some old \<and> saved = None)
      \<or> (current = None \<and> (fresh = Some new \<or> fresh = None) \<and> saved = Some old)
      \<or> (current = Some new \<and> fresh = None \<and> (saved = Some old \<or> saved = None)))"

lemma replace_service_file_wps:
  assumes "document_path p"
    and "F p = Some old" "F (temporary_path p) = None" "F (backup_path p) = None"
  shows "wps p any_fault (replace_service_file p bytes)
     (\<lambda>r G. interrupted p old bytes G \<and> (r = Ok () \<longrightarrow> G p = Some bytes))
     (interrupted p old bytes) F"
  unfolding replace_service_file_def io_err_def Let_def temporary_path_def [symmetric]
    backup_path_def [symmetric]
  using document_pathD [OF assms(1)] assms
  by (auto intro!: wps_rules simp: interrupted_def)

text \<open>The recovery settles every such disk, and can itself be stopped and started again.\<close>

lemma recover_service_file_wps:
  assumes "document_path p" and "interrupted p old new F"
  shows "wps p only_crash (recover_service_file_replacement p)
     (\<lambda>r G. r = Ok () \<and> (G p = Some old \<or> G p = Some new)
        \<and> G (temporary_path p) = None \<and> G (backup_path p) = None)
     (interrupted p old new) F"
  unfolding recover_service_file_replacement_def io_err_def Let_def temporary_path_def [symmetric]
    backup_path_def [symmetric]
  using document_pathD [OF assms(1)] assms
  by (cases "F p"; cases "F (temporary_path p)"; cases "F (backup_path p)")
    (auto intro!: wps_rules simp: interrupted_def)

text \<open>
  Replacing nothing (the first write of a document) is weaker: a machine that stops while
  the temporary file is written leaves it torn, and the recovery activates it.
\<close>

lemma recover_activates_torn_file:
  assumes "document_path p"
    and "F p = None" "F (temporary_path p) = Some torn" "F (backup_path p) = None"
  shows "wps p no_fault (recover_service_file_replacement p)
     (\<lambda>r G. r = Ok () \<and> G p = Some torn) (\<lambda>_. False) F"
  unfolding recover_service_file_replacement_def io_err_def Let_def temporary_path_def [symmetric]
    backup_path_def [symmetric]
  using document_pathD [OF assms(1)] assms
  by (auto intro!: wps_rules)

subsection \<open>Crash safety of registries\<close>

text \<open>What the reader sees: the file, or its backup.\<close>

definition registry_view :: "path \<Rightarrow> files_view \<Rightarrow> string option" where
  "registry_view p F = (case F p of Some s \<Rightarrow> Some s | None \<Rightarrow> F (backup_path p))"

text \<open>
  A crash at any point leaves the old or the new contents in view. With failing calls the
  same holds when no stale backup stands beside the file: \<open>Path::exists\<close> answers false on an
  error, and then a failed activation would restore the stale backup over the file.
\<close>

lemma commit_document_wps:
  assumes "document_path p" and "registry_view p F = old"
    and "fails M \<Longrightarrow> F p = None \<or> F (backup_path p) = None"
  shows "wps p M (commit_document err p bytes)
     (\<lambda>r G. (registry_view p G = old \<or> registry_view p G = Some bytes)
        \<and> (r = Ok () \<longrightarrow> G p = Some bytes))
     (\<lambda>G. registry_view p G = old \<or> registry_view p G = Some bytes) F"
  unfolding commit_document_def io_err_def
  using document_pathD [OF assms(1)] assms
  by (cases "F p"; cases "F (backup_path p)") (auto intro!: wps_rules simp: registry_view_def)

lemma commit_document_works:
  assumes "document_path p"
  shows "wps p no_fault (commit_document err p bytes)
     (\<lambda>r G. r = Ok () \<and> G = F(p := Some bytes, temporary_path p := None, backup_path p := None))
     (\<lambda>_. False) F"
  unfolding commit_document_def io_err_def
  using document_pathD [OF assms(1)] assms
  by (cases "F p"; cases "F (backup_path p)") (auto intro!: wps_rules simp: fun_eq_iff)

lemma read_with_backup_works:
  assumes "document_path p"
    and "registry_view p F = Some s" and "length s \<le> maximum"
  shows "wps p no_fault (read_with_backup p maximum e)
     (\<lambda>r G. r = Ok s \<and> G = F) (\<lambda>_. False) F"
  unfolding read_with_backup_def io_err_def
  using document_pathD [OF assms(1)] assms
  by (cases "F p") (auto intro!: wps_rules simp: registry_view_def)

end
