(* ===== verification/Keyed_Registry.thy ===== *)
theory Keyed_Registry
  imports Prelude "HOL-Library.Finite_Map"
begin

text \<open>
  The contract the root registry and the registry-scope registry share: items under their
  own key, registered once and bounded in number, removed only by a caller who may use them.
  The locale states the contract of the operations; its lemmas are about any sequence of
  calls, and both registries interpret it.
\<close>

text \<open>\<open>BTreeMap::values\<close>: the values in key order.\<close>

definition btree_values :: "(string, 'v) fmap \<Rightarrow> 'v list" where
  "btree_values m = map (\<lambda>k. the (fmlookup m k)) (sorted_list_of_fset (fmdom m))"

definition btree_len :: "(string, 'v) fmap \<Rightarrow> nat" where
  "btree_len m = fcard (fmdom m)"

text \<open>The loading loop: register every item of a document, stopping at the first error.\<close>

fun register_all :: "('i \<Rightarrow> 'r \<Rightarrow> 'r result) \<Rightarrow> 'i list \<Rightarrow> 'r \<Rightarrow> 'r result" where
  "register_all register [] r = Ok r"
| "register_all register (i # is) r =
     and_then (register i r) (\<lambda>r'. register_all register is r')"

text \<open>Calls a service makes on a registry; a call that fails leaves it as it was.\<close>

datatype 'i registry_call = Register 'i | Unregister string string

fun apply_call ::
  "('i \<Rightarrow> 'r \<Rightarrow> 'r result) \<Rightarrow> (string \<Rightarrow> string \<Rightarrow> 'r \<Rightarrow> ('i \<times> 'r) result)
   \<Rightarrow> 'i registry_call \<Rightarrow> 'r \<Rightarrow> 'r"
where
  "apply_call register unregister (Register i) r =
     (case register i r of Inl _ \<Rightarrow> r | Inr r' \<Rightarrow> r')"
| "apply_call register unregister (Unregister k sid) r =
     (case unregister k sid r of Inl _ \<Rightarrow> r | Inr (_, r') \<Rightarrow> r')"

definition run_calls ::
  "('i \<Rightarrow> 'r \<Rightarrow> 'r result) \<Rightarrow> (string \<Rightarrow> string \<Rightarrow> 'r \<Rightarrow> ('i \<times> 'r) result)
   \<Rightarrow> 'i registry_call list \<Rightarrow> 'r \<Rightarrow> 'r"
where
  "run_calls register unregister calls r =
     fold (apply_call register unregister) calls r"

locale owned_registry =
  fixes lookup :: "'r \<Rightarrow> string \<Rightarrow> 'i option"
    and count :: "'r \<Rightarrow> nat"
    and start :: "'r"
    and register :: "'i \<Rightarrow> 'r \<Rightarrow> 'r result"
    and unregister :: "string \<Rightarrow> string \<Rightarrow> 'r \<Rightarrow> ('i \<times> 'r) result"
    and key :: "'i \<Rightarrow> string"
    and item_wf :: "'i \<Rightarrow> bool"
    and may_use :: "'i \<Rightarrow> string \<Rightarrow> bool"
    and bound :: nat
  assumes lookup_start: "lookup start k = None"
    and count_start: "count start = 0"
    and register_Ok: "register i r = Ok r' \<Longrightarrow>
      item_wf i \<and> (lookup r (key i) = None \<or> lookup r (key i) = Some i)
      \<and> lookup r' = (lookup r)(key i := Some i)
      \<and> (count r \<le> bound \<longrightarrow> count r' \<le> bound)"
    and unregister_Ok: "unregister k sid r = Ok (i, r') \<Longrightarrow>
      lookup r k = Some i \<and> may_use i sid \<and> lookup r' = (lookup r)(k := None)
      \<and> count r' \<le> count r"
begin

definition sound :: "'r \<Rightarrow> bool" where
  "sound r \<longleftrightarrow> (\<forall>k i. lookup r k = Some i \<longrightarrow> key i = k \<and> item_wf i) \<and> count r \<le> bound"

lemma sound_start: "sound start"
  by (simp add: sound_def lookup_start count_start)

lemma sound_register: "sound r \<Longrightarrow> register i r = Ok r' \<Longrightarrow> sound r'"
  using register_Ok [of i r r'] by (simp add: sound_def)

lemma sound_unregister: "sound r \<Longrightarrow> unregister k sid r = Ok (i, r') \<Longrightarrow> sound r'"
  using unregister_Ok [of k sid r i r'] by (simp add: sound_def)

lemma sound_call: "sound r \<Longrightarrow> sound (apply_call register unregister c r)"
  by (cases c) (auto split: sum.splits intro: sound_register sound_unregister)

lemma sound_run: "sound r \<Longrightarrow> sound (run_calls register unregister cs r)"
  by (induction cs arbitrary: r) (simp_all add: run_calls_def sound_call)

text \<open>Only a caller who may use an item removes it, and no call replaces one.\<close>

lemma kept_call:
  assumes "lookup r k = Some i" and "\<And>sid. c = Unregister k sid \<Longrightarrow> \<not> may_use i sid"
  shows "lookup (apply_call register unregister c r) k = Some i"
proof (cases c)
  case (Register j)
  with assms(1) show ?thesis by (cases "register j r") (auto dest!: register_Ok)
next
  case (Unregister k' sid)
  show ?thesis
  proof (cases "unregister k' sid r")
    case (Inr x)
    obtain j r' where x: "x = (j, r')" by (cases x)
    from unregister_Ok [OF Inr [unfolded x]] assms Unregister show ?thesis
      by (auto simp: Inr x)
  qed (simp add: Unregister assms(1))
qed

lemma kept_run:
  "lookup r k = Some i \<Longrightarrow> (\<And>sid. Unregister k sid \<in> set cs \<Longrightarrow> \<not> may_use i sid) \<Longrightarrow>
    lookup (run_calls register unregister cs r) k = Some i"
proof (induction cs arbitrary: r)
  case (Cons c cs)
  have "lookup (apply_call register unregister c r) k = Some i"
    by (rule kept_call) (use Cons.prems in auto)
  from Cons.IH [OF this] Cons.prems(2) show ?case by (simp add: run_calls_def)
qed (simp add: run_calls_def)

text \<open>Every item was registered by one of the calls.\<close>

lemma origin_call:
  assumes "lookup (apply_call register unregister c r) k = Some i"
  shows "lookup r k = Some i \<or> c = Register i"
  using assms
  by (cases c) (auto split: sum.splits if_splits dest!: register_Ok unregister_Ok)

lemma origin_run:
  "lookup (run_calls register unregister cs r) k = Some i \<Longrightarrow>
    lookup r k = Some i \<or> Register i \<in> set cs"
proof (induction cs arbitrary: r)
  case (Cons c cs)
  from Cons.IH [of "apply_call register unregister c r"] Cons.prems origin_call [of c r k i]
  show ?case by (auto simp: run_calls_def)
qed (simp add: run_calls_def)

lemma register_all_Ok:
  "register_all register is r = Ok r' \<Longrightarrow> sound r \<Longrightarrow>
    sound r' \<and> (\<forall>k i. lookup r' k = Some i \<longrightarrow> lookup r k = Some i \<or> i \<in> set is)"
proof (induction "is" arbitrary: r)
  case (Cons j js)
  then obtain r1 where r1: "register j r = Ok r1" "register_all register js r1 = Ok r'"
    by (auto simp: result_simps)
  have "sound r1"
    using sound_call [OF Cons.prems(2), of "Register j"] r1(1) by simp
  from Cons.IH [OF r1(2) this] register_Ok [OF r1(1)] show ?case
    by (auto split: if_splits)
qed auto

end

subsection \<open>Loading what was saved\<close>

text \<open>
  Registering the values of a map one after the other rebuilds the map, for every
  registration that accepts a new well-formed item.
\<close>

lemma sorted_keys: "k \<in> set (sorted_list_of_fset (fmdom m)) \<longleftrightarrow> fmlookup m k \<noteq> None"
  by (simp add: sorted_list_of_fset.rep_eq fmlookup_dom_iff)

lemma btree_len_empty [simp]: "btree_len fmempty = 0"
  by (simp add: btree_len_def)

lemma btree_values_empty [simp]: "btree_values fmempty = []"
  by (simp add: btree_values_def sorted_list_of_fset.rep_eq)

lemma btree_values_single [simp]: "btree_values (fmupd k v fmempty) = [v]"
  by (simp add: btree_values_def sorted_list_of_fset.rep_eq)

lemma btree_len_upd:
  "btree_len (fmupd k i m) = (if fmlookup m k = None then Suc (btree_len m) else btree_len m)"
proof (cases "fmlookup m k")
  case None
  then have "k |\<notin>| fmdom m" by (rule fmdom_notI)
  with None show ?thesis by (simp add: btree_len_def fcard_finsert_disjoint)
next
  case (Some j)
  then have "k |\<in>| fmdom m" by (rule fmdomI)
  then have "finsert k (fmdom m) = fmdom m" by blast
  with Some show ?thesis by (simp add: btree_len_def)
qed

lemma btree_len_drop: "btree_len (fmdrop k m) \<le> btree_len m"
  by (simp add: btree_len_def fcard_fminus1_le)

lemma btree_values_set: "i \<in> set (btree_values m) \<longleftrightarrow> (\<exists>k. fmlookup m k = Some i)"
proof
  assume "i \<in> set (btree_values m)"
  then obtain k where "k \<in> set (sorted_list_of_fset (fmdom m))" "i = the (fmlookup m k)"
    by (auto simp: btree_values_def)
  then show "\<exists>k. fmlookup m k = Some i" by (auto simp: fmlookup_dom_iff)
next
  assume "\<exists>k. fmlookup m k = Some i"
  then obtain k where "fmlookup m k = Some i" by blast
  then have "k \<in> set (sorted_list_of_fset (fmdom m))" "i = the (fmlookup m k)"
    by (auto simp: fmlookup_dom_iff)
  then show "i \<in> set (btree_values m)" unfolding btree_values_def by auto
qed

lemma btree_values_length [simp]: "length (btree_values m) = btree_len m"
  by (simp add: btree_values_def btree_len_def fcard.rep_eq sorted_list_of_fset.rep_eq
      length_sorted_list_of_set)

lemma register_keys:
  assumes step: "\<And>i r. ok i \<Longrightarrow> fmlookup r (key i) = None \<Longrightarrow> btree_len r < bound \<Longrightarrow>
      register i r = Ok (fmupd (key i) i r)"
    and items: "\<forall>k i. fmlookup m k = Some i \<longrightarrow> key i = k \<and> ok i"
  shows "distinct ks \<Longrightarrow> \<forall>k \<in> set ks. fmlookup m k \<noteq> None \<and> fmlookup r k = None \<Longrightarrow>
    length ks + btree_len r \<le> bound \<Longrightarrow>
    \<exists>r'. register_all register (map (\<lambda>k. the (fmlookup m k)) ks) r = Ok r'
      \<and> (\<forall>k. fmlookup r' k = (if k \<in> set ks then fmlookup m k else fmlookup r k))"
proof (induction ks arbitrary: r)
  case (Cons k ks)
  then obtain i where i: "fmlookup m k = Some i" by auto
  with items have ki: "key i = k" "ok i" by auto
  have reg: "register i r = Ok (fmupd k i r)"
    using step [of i r] ki Cons.prems by simp
  have "\<exists>r'. register_all register (map (\<lambda>k. the (fmlookup m k)) ks) (fmupd k i r) = Ok r'
      \<and> (\<forall>q. fmlookup r' q = (if q \<in> set ks then fmlookup m q else fmlookup (fmupd k i r) q))"
    by (rule Cons.IH) (use Cons.prems in \<open>auto simp: btree_len_upd\<close>)
  with reg i Cons.prems show ?case by auto
qed simp

lemma register_values:
  assumes "\<And>i r. ok i \<Longrightarrow> fmlookup r (key i) = None \<Longrightarrow> btree_len r < bound \<Longrightarrow>
      register i r = Ok (fmupd (key i) i r)"
    and "\<forall>k i. fmlookup m k = Some i \<longrightarrow> key i = k \<and> ok i"
    and "btree_len m \<le> bound"
  shows "register_all register (btree_values m) fmempty = Ok m"
proof -
  have "length (sorted_list_of_fset (fmdom m)) = btree_len m"
    using btree_values_length [of m] by (simp add: btree_values_def)
  with assms(3) have "length (sorted_list_of_fset (fmdom m)) + btree_len (fmempty :: (string, 'a) fmap)
      \<le> bound" by simp
  moreover have "distinct (sorted_list_of_fset (fmdom m))"
    by (simp add: sorted_list_of_fset.rep_eq)
  moreover have "\<forall>k \<in> set (sorted_list_of_fset (fmdom m)).
      fmlookup m k \<noteq> None \<and> fmlookup (fmempty :: (string, 'a) fmap) k = None"
    by (simp add: fmlookup_dom_iff)
  ultimately have "\<exists>r'. register_all register
        (map (\<lambda>k. the (fmlookup m k)) (sorted_list_of_fset (fmdom m))) fmempty = Ok r'
      \<and> (\<forall>k. fmlookup r' k = (if k \<in> set (sorted_list_of_fset (fmdom m))
            then fmlookup m k else fmlookup fmempty k))"
    by (intro register_keys [OF assms(1,2)])
  then obtain r' where r': "register_all register (btree_values m) fmempty = Ok r'"
    "\<forall>k. fmlookup r' k = (if k |\<in>| fmdom m then fmlookup m k else None)"
    by (auto simp: btree_values_def)
  moreover from r'(2) have "r' = m" by (intro fmap_ext) (auto simp: fmdom_notD)
  ultimately show ?thesis by simp
qed

end
