(* ===== verification/Canonical.thy ===== *)
theory Canonical
  imports Contract
begin

text \<open>
  The canonical text of \<open>write_canonical\<close> determines the value: two JSON values with the
  same canonical text are equal. Signatures and digests of the crate are over canonical
  text, so this is what makes them speak about the document and not about one spelling
  of it. Strings and numbers are written by serde_json; the laws say that a string's
  text starts with a quote and that no string text is a proper prefix of another, and
  that the text of integers is injective and made of digits and a minus sign.
\<close>

definition number_char :: "char \<Rightarrow> bool" where
  "number_char c = (is_ascii_digit c \<or> c = CHR ''-'')"

text \<open>Integers of a parsed document: an \<open>i64\<close> number of serde_json is negative.\<close>

fun number_wf :: "json_number \<Rightarrow> bool" where
  "number_wf (PosInt n) = True"
| "number_wf (NegInt n) = (sint n < 0)"
| "number_wf (Float b) = True"

definition is_float :: "json_number \<Rightarrow> bool" where
  "is_float n = (case n of Float b \<Rightarrow> True | _ \<Rightarrow> False)"

definition json_text_laws :: "external \<Rightarrow> bool" where
  "json_text_laws X \<longleftrightarrow>
     (\<forall>s t. json_string_text X s = Some t \<longrightarrow> (\<exists>u. t = CHR 0x22 # u))
     \<and> (\<forall>s s' t t' r r'. json_string_text X s = Some t \<longrightarrow> json_string_text X s' = Some t' \<longrightarrow>
           t @ r = t' @ r' \<longrightarrow> s = s' \<and> r = r')
     \<and> (\<forall>n. \<not> is_float n \<longrightarrow>
           json_number_text X n \<noteq> [] \<and> list_all number_char (json_number_text X n))
     \<and> (\<forall>n n'. \<not> is_float n \<longrightarrow> \<not> is_float n' \<longrightarrow> number_wf n \<longrightarrow> number_wf n' \<longrightarrow>
           json_number_text X n = json_number_text X n' \<longrightarrow> n = n')"

text \<open>
  Objects as serde_json holds them: one entry per key, in key order (a \<open>BTreeMap\<close>).
\<close>

fun json_wf :: "json \<Rightarrow> bool" where
  "json_wf (JNumber n) = number_wf n"
| "json_wf (JArray items) = list_all json_wf items"
| "json_wf (JObject entries) =
     (sorted (map fst entries) \<and> distinct (map fst entries)
      \<and> list_all (\<lambda>(k, v). json_wf v) entries)"
| "json_wf _ = True"

lemma json_text_lawsD:
  assumes "json_text_laws X"
  shows laws_quote: "json_string_text X s = Some t \<Longrightarrow> \<exists>u. t = CHR 0x22 # u"
    and laws_prefix: "json_string_text X s = Some t \<Longrightarrow> json_string_text X s' = Some t' \<Longrightarrow>
      t @ r = t' @ r' \<Longrightarrow> s = s' \<and> r = r'"
    and laws_number: "\<not> is_float n \<Longrightarrow>
      json_number_text X n \<noteq> [] \<and> list_all number_char (json_number_text X n)"
    and laws_number_inject: "\<not> is_float n \<Longrightarrow> \<not> is_float n' \<Longrightarrow> number_wf n \<Longrightarrow> number_wf n' \<Longrightarrow>
      json_number_text X n = json_number_text X n' \<Longrightarrow> n = n'"
  using assms unfolding json_text_laws_def by blast+

subsection \<open>The two list forms\<close>

fun pairs_texts :: "external \<Rightarrow> (string \<times> json) list \<Rightarrow> string result list" where
  "pairs_texts X [] = []"
| "pairs_texts X ((k, v) # es) =
     and_then (ok_or (json_string_text X k)
         (maintenance_error_new JsonInvalid ''could not encode JSON key''))
       (\<lambda>kt. and_then (write_canonical X v) (\<lambda>vt. Ok (kt @ '':'' @ vt)))
     # pairs_texts X es"

lemma sort_key_sorted: "sorted (map f xs) \<Longrightarrow> sort_key f xs = xs"
  by (induction xs) (auto simp: insort_is_Cons)

lemma write_canonical_object:
  assumes "json_wf (JObject es)"
  shows "write_canonical X (JObject es) =
    and_then (sequence (pairs_texts X es)) (\<lambda>ts. Ok (''{'' @ join_with '','' ts @ ''}''))"
proof -
  have "sort_key fst (map (\<lambda>(k, v). (k, write_canonical X v)) es)
      = map (\<lambda>(k, v). (k, write_canonical X v)) es"
    using assms by (intro sort_key_sorted) (simp add: comp_def case_prod_beta)
  moreover have "map (\<lambda>(key, item).
             and_then
               (ok_or (json_string_text X key)
                 (maintenance_error_new JsonInvalid ''could not encode JSON key''))
               (\<lambda>k. and_then item (\<lambda>v. Ok (k @ '':'' @ v))))
        (map (\<lambda>(k, v). (k, write_canonical X v)) es) = pairs_texts X es"
    by (induction es) auto
  ultimately show ?thesis by simp
qed

subsection \<open>Prefix-free texts\<close>

definition delimited :: "string \<Rightarrow> bool" where
  "delimited r \<longleftrightarrow> (case r of [] \<Rightarrow> True | c # _ \<Rightarrow> \<not> number_char c)"

text \<open>A value is told apart from every other by the start of its text.\<close>

definition tells :: "external \<Rightarrow> json \<Rightarrow> bool" where
  "tells X v \<longleftrightarrow>
     (\<forall>v' t t' r r'. json_wf v' \<longrightarrow> write_canonical X v = Ok t \<longrightarrow> write_canonical X v' = Ok t' \<longrightarrow>
        delimited r \<longrightarrow> delimited r' \<longrightarrow> t @ r = t' @ r' \<longrightarrow> v = v' \<and> r = r')"

lemma tellsD:
  assumes "tells X v" and "json_wf v'" and "write_canonical X v = Ok t"
    and "write_canonical X v' = Ok t'" and "delimited r" and "delimited r'"
    and "t @ r = t' @ r'"
  shows "v = v'" and "r = r'"
  using assms unfolding tells_def by blast+

lemma number_split:
  assumes "list_all number_char t" and "list_all number_char t'"
    and "delimited r" and "delimited r'" and "t @ r = t' @ r'"
  shows "t = t'" and "r = r'"
proof -
  have tw: "takeWhile number_char (w @ q) = w" if "list_all number_char w" "delimited q" for w q
    using that by (induction w) (auto simp: delimited_def split: list.splits)
  from assms show "t = t'" by (metis tw)
  with assms show "r = r'" by simp
qed

lemma first_char:
  assumes "json_text_laws X" and "write_canonical X v = Ok t"
  obtains c u where "t = c # u"
    and "(case v of JNull \<Rightarrow> c = CHR ''n'' | JBool b \<Rightarrow> c = (if b then CHR ''t'' else CHR ''f'')
      | JNumber n \<Rightarrow> number_char c | JString s \<Rightarrow> c = CHR 0x22 | JArray xs \<Rightarrow> c = CHR ''[''
      | JObject es \<Rightarrow> c = CHR ''{'')"
proof (cases v)
  case (JNumber n)
  with assms(2) have "\<not> is_float n" and "t = json_number_text X n"
    by (cases n; simp add: is_float_def)+
  with laws_number [OF assms(1)] have "t \<noteq> []" and "list_all number_char t" by auto
  with JNumber that show ?thesis by (cases t) auto
next
  case (JString s)
  with assms have "json_string_text X s = Some t" by (simp add: result_simps)
  then obtain u where "t = CHR 0x22 # u" using laws_quote [OF assms(1)] by blast
  with JString that show ?thesis by simp
next
  case (JBool b)
  then show ?thesis using assms that by (cases b) auto
qed (use assms that in \<open>auto simp: result_simps\<close>)

lemma first_char_hd:
  assumes "json_text_laws X" and "write_canonical X v = Ok t"
  shows "t \<noteq> [] \<and>
    (case v of JNull \<Rightarrow> hd t = CHR ''n'' | JBool b \<Rightarrow> hd t = (if b then CHR ''t'' else CHR ''f'')
      | JNumber n \<Rightarrow> number_char (hd t) | JString s \<Rightarrow> hd t = CHR 0x22
      | JArray xs \<Rightarrow> hd t = CHR ''['' | JObject es \<Rightarrow> hd t = CHR ''{'')"
  using assms by (rule first_char) (auto split: json.splits)

lemma number_char_simps [simp]:
  "\<not> number_char CHR ''n''" "\<not> number_char CHR ''t''" "\<not> number_char CHR ''f''"
  "\<not> number_char CHR 0x22" "\<not> number_char CHR ''[''" "\<not> number_char CHR ''{''"
  "\<not> number_char CHR '',''" "\<not> number_char CHR '']''" "\<not> number_char CHR ''}''"
  by (simp_all add: number_char_def is_ascii_digit_def)

lemma delimited_simps [simp]:
  "delimited []" "delimited (CHR '','' # s)" "delimited (CHR '']'' # s)" "delimited (CHR ''}'' # s)"
  by (simp_all add: delimited_def)

text \<open>The text of a non-empty item list, closed by a bracket, splits after its first item.\<close>

lemma join_with_Cons:
  "join_with '','' (t # ts) @ q = t @ (if ts = [] then q else CHR '','' # join_with '','' ts @ q)"
  by (cases ts) auto

lemma first_char_not_close:
  assumes "json_text_laws X" and "write_canonical X v = Ok t"
  shows "t @ r \<noteq> CHR '']'' # q"
  using assms by (rule first_char) (auto split: json.splits if_splits)

lemma items_tell:
  assumes laws: "json_text_laws X"
  shows "\<forall>x \<in> set xs. tells X x \<Longrightarrow> list_all json_wf ys \<Longrightarrow>
     sequence (map (write_canonical X) xs) = Ok ts \<Longrightarrow>
     sequence (map (write_canonical X) ys) = Ok ts' \<Longrightarrow>
     join_with '','' ts @ CHR '']'' # r = join_with '','' ts' @ CHR '']'' # r' \<Longrightarrow>
     xs = ys \<and> r = r'"
proof (induction xs arbitrary: ys ts ts')
  case Nil
  then show ?case
  proof (cases ys)
    case (Cons y ys')
    with Nil obtain t u where "write_canonical X y = Ok t" "ts' = t # u" "ts = []"
      by (auto simp: result_simps)
    with Nil.prems(5) first_char_not_close [OF laws, of y t] show ?thesis
      by (auto simp: join_with_Cons split: if_splits) metis+
  qed simp
next
  case (Cons x xs)
  then obtain t us where x: "write_canonical X x = Ok t" and ts: "ts = t # us"
    and us: "sequence (map (write_canonical X) xs) = Ok us"
    by (auto simp: result_simps)
  show ?case
  proof (cases ys)
    case Nil
    with Cons.prems x ts first_char_not_close [OF laws, of x t] show ?thesis
      by (auto simp: join_with_Cons split: if_splits)
  next
    case (Cons y ys')
    with Cons.prems(3,4) obtain t' us' where y: "write_canonical X y = Ok t'"
      and ts': "ts' = t' # us'" and us': "sequence (map (write_canonical X) ys') = Ok us'"
      by (auto simp: result_simps)
    let ?q = "\<lambda>us r. if us = [] then CHR '']'' # r
      else CHR '','' # join_with '','' us @ CHR '']'' # r"
    have eq: "t @ ?q us r = t' @ ?q us' r'"
      using Cons.prems(5) by (simp only: ts ts' join_with_Cons append_assoc)
    have tx: "tells X x" using Cons.prems(1) by simp
    have wy: "json_wf y" using Cons.prems(2) Cons by simp
    have "x = y" and q: "?q us r = ?q us' r'"
      using tellsD [OF tx wy x y _ _ eq] by auto
    have len: "length us = length xs" "length us' = length ys'"
      using length_sequence [OF us] length_sequence [OF us'] by simp_all
    show ?thesis
    proof (cases "us = [] \<or> us' = []")
      case True
      with q len \<open>x = y\<close> Cons show ?thesis by (auto split: if_splits)
    next
      case False
      with q have "join_with '','' us @ CHR '']'' # r = join_with '','' us' @ CHR '']'' # r'"
        by simp
      with Cons.IH [of ys' us us'] us us' Cons.prems Cons \<open>x = y\<close> show ?thesis by simp
    qed
  qed
qed

text \<open>The same for the entries of an object, whose items are a key, a colon and a value.\<close>

lemma entry_tell:
  assumes laws: "json_text_laws X" and v: "tells X v" and wf: "json_wf v'"
    and k: "json_string_text X k = Some kt" and k': "json_string_text X k' = Some kt'"
    and t: "write_canonical X v = Ok vt" and t': "write_canonical X v' = Ok vt'"
    and d: "delimited q" "delimited q'"
    and eq: "(kt @ '':'' @ vt) @ q = (kt' @ '':'' @ vt') @ q'"
  shows "k = k'" and "v = v'" and "q = q'"
proof -
  from eq have "kt @ ('':'' @ vt @ q) = kt' @ ('':'' @ vt' @ q')" by simp
  from laws_prefix [OF laws k k' this] have "k = k'" and e: "vt @ q = vt' @ q'" by simp_all
  then show "k = k'" by simp
  show "v = v'" and "q = q'" using tellsD [OF v wf t t' d e] by auto
qed

lemma pairs_texts_Cons_Ok:
  assumes "sequence (pairs_texts X (e # es)) = Ok ts"
  obtains k v kt vt us where "e = (k, v)" and "json_string_text X k = Some kt"
    and "write_canonical X v = Ok vt" and "ts = (kt @ '':'' @ vt) # us"
    and "sequence (pairs_texts X es) = Ok us"
  using assms by (cases e) (auto simp: result_simps)

lemma length_pairs_texts [simp]: "length (pairs_texts X es) = length es"
  by (induction es) auto

lemma entry_not_close:
  assumes "json_text_laws X" and "json_string_text X k = Some kt"
  shows "kt @ r \<noteq> CHR ''}'' # q" and "CHR ''}'' # q \<noteq> kt @ r"
  using laws_quote [OF assms] by auto

lemma entries_tell:
  assumes laws: "json_text_laws X"
  shows "\<forall>e \<in> set es. tells X (snd e) \<Longrightarrow> list_all (\<lambda>(k, v). json_wf v) fs \<Longrightarrow>
     sequence (pairs_texts X es) = Ok ts \<Longrightarrow> sequence (pairs_texts X fs) = Ok ts' \<Longrightarrow>
     join_with '','' ts @ CHR ''}'' # r = join_with '','' ts' @ CHR ''}'' # r' \<Longrightarrow>
     es = fs \<and> r = r'"
proof (induction es arbitrary: fs ts ts')
  case Nil
  then show ?case
  proof (cases fs)
    case (Cons f fs')
    from Nil.prems(4) [unfolded Cons] show ?thesis
      by (rule pairs_texts_Cons_Ok)
        (use Nil.prems in \<open>auto simp: join_with_Cons simp: entry_not_close [OF laws]\<close>)
  qed simp
next
  case (Cons e es)
  from Cons.prems(3) obtain k v kt vt us where e: "e = (k, v)" "json_string_text X k = Some kt"
    "write_canonical X v = Ok vt" and ts: "ts = (kt @ '':'' @ vt) # us"
    and us: "sequence (pairs_texts X es) = Ok us"
    by (rule pairs_texts_Cons_Ok)
  show ?case
  proof (cases fs)
    case Nil
    with Cons.prems(4,5) ts show ?thesis
      by (auto simp: join_with_Cons simp: entry_not_close [OF laws e(2)])
  next
    case (Cons f fs')
    from Cons.prems(4) [unfolded Cons] obtain k' v' kt' vt' us' where f: "f = (k', v')"
      "json_string_text X k' = Some kt'" "write_canonical X v' = Ok vt'"
      and ts': "ts' = (kt' @ '':'' @ vt') # us'" and us': "sequence (pairs_texts X fs') = Ok us'"
      by (rule pairs_texts_Cons_Ok)
    let ?q = "\<lambda>us r. if us = [] then CHR ''}'' # r
      else CHR '','' # join_with '','' us @ CHR ''}'' # r"
    have eq: "(kt @ '':'' @ vt) @ ?q us r = (kt' @ '':'' @ vt') @ ?q us' r'"
      using Cons.prems(5) by (simp only: ts ts' join_with_Cons)
    have tx: "tells X v" using Cons.prems(1) e by simp
    have wy: "json_wf v'" using Cons.prems(2) Cons f by simp
    have "k = k'" "v = v'" and q: "?q us r = ?q us' r'"
      using entry_tell [OF laws tx wy e(2) f(2) e(3) f(3) _ _ eq] by auto
    have len: "length us = length es" "length us' = length fs'"
      using length_sequence [OF us] length_sequence [OF us'] by simp_all
    show ?thesis
    proof (cases "us = [] \<or> us' = []")
      case True
      with q len e f \<open>k = k'\<close> \<open>v = v'\<close> Cons show ?thesis by (auto split: if_splits)
    next
      case False
      with q have "join_with '','' us @ CHR ''}'' # r = join_with '','' us' @ CHR ''}'' # r'"
        by simp
      with Cons.IH [of fs' us us'] us us' Cons.prems Cons e f \<open>k = k'\<close> \<open>v = v'\<close>
      show ?thesis by simp
    qed
  qed
qed

subsection \<open>Every well-formed value is told apart\<close>

lemma write_canonical_tells:
  assumes laws: "json_text_laws X"
  shows "json_wf v \<Longrightarrow> tells X v"
proof (induction v)
  case (JArray xs)
  show ?case unfolding tells_def
  proof (intro allI impI)
    fix v' t t' r r'
    assume a: "json_wf v'" "write_canonical X (JArray xs) = Ok t" "write_canonical X v' = Ok t'"
      "t @ r = t' @ r'"
    from a(2) obtain ts where ts: "sequence (map (write_canonical X) xs) = Ok ts"
      and t: "t = ''['' @ join_with '','' ts @ '']''" by (auto simp: result_simps)
    obtain ys where v': "v' = JArray ys"
      using first_char_hd [OF laws a(3)] a(4) t by - (cases v'; cases t'; auto split: if_splits)
    with a(3) obtain ts' where ts': "sequence (map (write_canonical X) ys) = Ok ts'"
      and t': "t' = ''['' @ join_with '','' ts' @ '']''" by (auto simp: result_simps)
    have "\<forall>x \<in> set xs. tells X x" using JArray by (auto simp: list_all_iff)
    moreover have "list_all json_wf ys" using a(1) v' by simp
    moreover have "join_with '','' ts @ CHR '']'' # r = join_with '','' ts' @ CHR '']'' # r'"
      using a(4) t t' by simp
    ultimately show "JArray xs = v' \<and> r = r'" using items_tell [OF laws _ _ ts ts'] v' by blast
  qed
next
  case (JObject es)
  show ?case unfolding tells_def
  proof (intro allI impI)
    fix v' t t' r r'
    assume a: "json_wf v'" "write_canonical X (JObject es) = Ok t" "write_canonical X v' = Ok t'"
      "t @ r = t' @ r'"
    from a(2) obtain ts where ts: "sequence (pairs_texts X es) = Ok ts"
      and t: "t = ''{'' @ join_with '','' ts @ ''}''"
      unfolding write_canonical_object [OF JObject.prems] by (auto simp: result_simps)
    obtain fs where v': "v' = JObject fs"
      using first_char_hd [OF laws a(3)] a(4) t by - (cases v'; cases t'; auto split: if_splits)
    from a(3) obtain ts' where ts': "sequence (pairs_texts X fs) = Ok ts'"
      and t': "t' = ''{'' @ join_with '','' ts' @ ''}''"
      unfolding v' write_canonical_object [OF a(1) [unfolded v']] by (auto simp: result_simps)
    have "\<forall>e \<in> set es. tells X (snd e)"
    proof
      fix e assume e: "e \<in> set es"
      then have "json_wf (snd e)" using JObject.prems by (auto simp: list_all_iff)
      then show "tells X (snd e)" using JObject.IH [OF e snds.intros] by blast
    qed
    moreover have "list_all (\<lambda>(k, v). json_wf v) fs" using a(1) v' by simp
    moreover have "join_with '','' ts @ CHR ''}'' # r = join_with '','' ts' @ CHR ''}'' # r'"
      using a(4) t t' by simp
    ultimately show "JObject es = v' \<and> r = r'" using entries_tell [OF laws _ _ ts ts'] v' by blast
  qed
next
  case (JNumber n)
  show ?case unfolding tells_def
  proof (intro allI impI)
    fix v' t t' r r'
    assume a: "json_wf v'" "write_canonical X (JNumber n) = Ok t" "write_canonical X v' = Ok t'"
      "delimited r" "delimited r'" "t @ r = t' @ r'"
    from a(2) have n: "\<not> is_float n" "t = json_number_text X n"
      by (cases n; simp add: is_float_def)+
    from first_char [OF laws a(2)] obtain c u where c: "t = c # u" "number_char c" by auto
    obtain m where v': "v' = JNumber m"
      using first_char_hd [OF laws a(3)] a(6) c by - (cases v'; cases t'; auto split: if_splits)
    from a(3) v' have m: "\<not> is_float m" "t' = json_number_text X m"
      by (cases m; simp add: is_float_def)+
    have "t = t'" "r = r'"
      using number_split [OF _ _ a(4,5,6)] laws_number [OF laws n(1)] laws_number [OF laws m(1)]
        n m by auto
    then show "JNumber n = v' \<and> r = r'"
      using laws_number_inject [OF laws n(1) m(1)] n m v' a(1) JNumber by simp
  qed
next
  case (JString s)
  show ?case unfolding tells_def
  proof (intro allI impI)
    fix v' t t' r r'
    assume a: "write_canonical X (JString s) = Ok t" "write_canonical X v' = Ok t'"
      "t @ r = t' @ r'"
    from first_char [OF laws a(1)] obtain u where c: "t = CHR 0x22 # u" by auto
    obtain s' where v': "v' = JString s'"
      using first_char_hd [OF laws a(2)] a(3) c by - (cases v'; cases t'; auto split: if_splits)
    show "JString s = v' \<and> r = r'"
      using laws_prefix [OF laws _ _ a(3)] a v' by (simp add: result_simps)
  qed
next
  case JNull
  show ?case unfolding tells_def
  proof (intro allI impI)
    fix v' t t' r r'
    assume a: "write_canonical X JNull = Ok t" "write_canonical X v' = Ok t'" "t @ r = t' @ r'"
    then have "v' = JNull"
      using first_char_hd [OF laws a(2)] by - (cases v'; cases t'; auto split: if_splits)
    with a show "JNull = v' \<and> r = r'" by simp
  qed
next
  case (JBool b)
  show ?case unfolding tells_def
  proof (intro allI impI)
    fix v' t t' r r'
    assume a: "write_canonical X (JBool b) = Ok t" "write_canonical X v' = Ok t'" "t @ r = t' @ r'"
    then have "v' = JBool b"
      using first_char_hd [OF laws a(2)]
      by - (cases v'; cases t'; cases b; auto split: if_splits)
    with a show "JBool b = v' \<and> r = r'" by (cases b) auto
  qed
qed

lemma canonical_json_inject:
  assumes "json_text_laws X" and "json_wf v" and "json_wf v'"
    and "canonical_json X v = Ok t" and "canonical_json X v' = Ok t"
  shows "v = v'"
proof -
  have "tells X v" using assms(1,2) by (rule write_canonical_tells)
  from tellsD(1) [OF this assms(3), of t t "[]" "[]"] assms(4,5) show ?thesis
    by (simp add: canonical_json_def)
qed

subsection \<open>A concrete instance of the external functions\<close>

text \<open>
  \<open>sample_external\<close> instantiates every external function by a small concrete one; the
  witnesses evaluate the model on it. Strings are quoted with a backslash before a quote
  or a backslash, integers are decimal, the digest is the first 32 bytes, and a signature
  is valid when it is the key written twice.
\<close>

fun escape :: "string \<Rightarrow> string" where
  "escape [] = []"
| "escape (c # s) =
     (if c = CHR 0x22 \<or> c = CHR 0x5C then CHR 0x5C # c # escape s else c # escape s)"

definition sample_number_text :: "json_number \<Rightarrow> string" where
  "sample_number_text n = (case n of
      PosInt w \<Rightarrow> word_to_string w
    | NegInt w \<Rightarrow> CHR ''-'' # nat_to_string (nat (- sint w))
    | Float b \<Rightarrow> ''0.0'')"

definition sample_external :: external where
  "sample_external =
     \<lparr>json_string_text = (\<lambda>s. Some (CHR 0x22 # escape s @ [CHR 0x22])),
      json_number_text = sample_number_text,
      sha256 = (\<lambda>s. take 32 (map byte_of s @ replicate 32 0)),
      key_from_bytes = (\<lambda>k. if length k = 32 then Some k else None),
      verify_strict = (\<lambda>k m s. s = k @ k),
      to_lowercase = to_ascii_lowercase,
      base64_decode = (\<lambda>s. if even (length s) \<and> list_all is_lower_hex s
        then (case decode_pairs s JsonInvalid of Inl _ \<Rightarrow> None | Inr b \<Rightarrow> Some b) else None),
      base64_encode = encode_lower_hex\<rparr>"

lemma sample_external_sel [simp]:
  "json_string_text sample_external s = Some (CHR 0x22 # escape s @ [CHR 0x22])"
  "json_number_text sample_external = sample_number_text"
  "sha256 sample_external s = take 32 (map byte_of s @ replicate 32 0)"
  "key_from_bytes sample_external k = (if length k = 32 then Some k else None)"
  "verify_strict sample_external k m sg = (sg = k @ k)"
  "to_lowercase sample_external = to_ascii_lowercase"
  by (simp_all add: sample_external_def)

lemma escape_prefix:
  "escape s @ CHR 0x22 # r = escape s' @ CHR 0x22 # r' \<Longrightarrow> s = s' \<and> r = r'"
proof (induction s arbitrary: s')
  case Nil
  then show ?case by (cases s') (auto split: if_splits)
next
  case (Cons c s)
  then show ?case by (cases s') (auto split: if_splits)
qed

lemma sample_json_text_laws: "json_text_laws sample_external"
proof -
  have digits: "list_all number_char (nat_to_string k)" for k
    using nat_to_string_digits [of k] by (auto simp: list_all_iff number_char_def)
  have minus: "CHR ''-'' \<notin> set (nat_to_string k)" for k
    by (rule digit_not_in_decimal) (simp add: is_ascii_digit_def)
  have no_minus: "nat_to_string k \<noteq> CHR ''-'' # t" for k t
    using minus [of k] by auto
  have "json_number_text sample_external n \<noteq> []
      \<and> list_all number_char (json_number_text sample_external n)" if "\<not> is_float n" for n
    using that by (cases n) (auto simp: sample_number_text_def is_float_def digits
        word_to_string_def number_char_def [of "CHR ''-''"])
  moreover have "n = n'" if "\<not> is_float n" "\<not> is_float n'" "number_wf n" "number_wf n'"
    "json_number_text sample_external n = json_number_text sample_external n'" for n n'
    using that by (cases n; cases n') (auto simp: sample_number_text_def is_float_def
        word_to_string_def no_minus no_minus [symmetric] eq_nat_nat_iff
        intro: signed_word_eqI unsigned_word_eqI)
  ultimately show ?thesis
    unfolding json_text_laws_def by (auto dest: escape_prefix)
qed

text \<open>
  C7: Canonical JSON is injective: of two well-formed JSON values, the one whose canonical
  text is \<open>t\<close> is unique. A signature over canonical bytes therefore covers exactly one value.
\<close>

theorem canonical_json_injective:
  assumes "json_text_laws X" and "json_wf v" and "json_wf v'" and "canonical_json X v = Ok t"
  shows "canonical_json X v' = Ok t \<longleftrightarrow> v' = v"
  using assms canonical_json_inject by blast

theorem canonical_json_injective_witness:
  "canonical_json sample_external (JObject [(''a'', JNumber (PosInt 7))])
     \<noteq> canonical_json sample_external (JObject [(''a'', JString ''7'')])"
proof -
  let ?v = "JObject [(''a'', JNumber (PosInt 7))]"
  have "canonical_json sample_external ?v = Ok (CHR ''{'' # CHR 0x22 # ''a'' @ CHR 0x22 # '':7}'')"
    by (simp add: canonical_json_def sample_number_text_def word_to_string_def
        nat_to_string.simps digit_char_def)
  from canonical_json_injective [OF sample_json_text_laws _ _ this,
      of "JObject [(''a'', JString ''7'')]"] this
  show ?thesis by auto
qed

end
