(* ===== verification/Trust.thy ===== *)
theory Trust
  imports Canonical
begin

text \<open>
  \<open>src/trust.rs\<close>: keyrings signed by the offline root, their shape, and the acceptance
  rule that refuses a rollback or a second document under one version.

  \<open>serde_json::from_slice::<Keyring>\<close> is the argument \<open>from_slice\<close>;
  \<open>keyring_to_value\<close> is what the derived \<open>Serialize\<close> with camel-case names produces.
\<close>

definition KEYRING_KIND :: string where "KEYRING_KIND = ''7launcher-maintenance-keyring-v1''"
definition KEYRING_SCHEMA :: u64 where "KEYRING_SCHEMA = 1"
definition MAX_RELEASE_KEYS :: nat where "MAX_RELEASE_KEYS = 64"
definition MAX_SIGNER_THUMBPRINTS :: nat where "MAX_SIGNER_THUMBPRINTS = 64"

record release_key =
  key_id :: string
  public_key :: string

record keyring =
  authenticode_signer_thumbprints :: "string list"
  keyring_kind :: string
  release_keys :: "release_key list"
  keyring_schema :: u64
  keyring_signature :: string
  keyring_version :: u64

record keyring_acceptance =
  minimum_version :: u64
  current_digest :: "bytes option"

definition keyring_acceptance_default :: keyring_acceptance where
  "keyring_acceptance_default = \<lparr>minimum_version = 0, current_digest = None\<rparr>"

record verified_keyring =
  verified_keyring :: keyring
  keyring_digest :: bytes

definition json_u64 :: "u64 \<Rightarrow> json" where
  "json_u64 n = JNumber (PosInt n)"

definition json_strings :: "string list \<Rightarrow> json" where
  "json_strings xs = JArray (map JString xs)"

definition release_key_to_value :: "release_key \<Rightarrow> json" where
  "release_key_to_value k =
     JObject [(''keyId'', JString (key_id k)), (''publicKey'', JString (public_key k))]"

definition keyring_to_value :: "keyring \<Rightarrow> json" where
  "keyring_to_value k =
     JObject [(''authenticodeSignerThumbprints'', json_strings (authenticode_signer_thumbprints k)),
       (''kind'', JString (keyring_kind k)),
       (''releaseKeys'', JArray (map release_key_to_value (release_keys k))),
       (''schema'', json_u64 (keyring_schema k)),
       (''signature'', JString (keyring_signature k)),
       (''version'', json_u64 (keyring_version k))]"

text \<open>The signed payload: the document without its signature.\<close>

definition keyring_payload :: "keyring \<Rightarrow> json" where
  "keyring_payload k =
     JObject [(''authenticodeSignerThumbprints'', json_strings (authenticode_signer_thumbprints k)),
       (''kind'', JString (keyring_kind k)),
       (''releaseKeys'', JArray (map release_key_to_value (release_keys k))),
       (''schema'', json_u64 (keyring_schema k)),
       (''version'', json_u64 (keyring_version k))]"

definition release_verifying_key :: "external \<Rightarrow> verified_keyring \<Rightarrow> string \<Rightarrow> bytes result" where
  "release_verifying_key X vk wanted =
     and_then (ok_or (find (\<lambda>entry. key_id entry = wanted) (release_keys (verified_keyring vk)))
       (maintenance_error_new TrustUnknownKey ''file set references an unknown release key''))
     (\<lambda>entry. and_then (decode_lower_hex 32 (public_key entry) TrustUnknownKey) (\<lambda>bytes.
        ok_or (key_from_bytes X bytes)
          (maintenance_error_new TrustUnknownKey ''release public key is invalid'')))"

fun check_release_keys :: "external \<Rightarrow> string list \<Rightarrow> release_key list \<Rightarrow> unit result" where
  "check_release_keys X key_ids [] = Ok ()"
| "check_release_keys X key_ids (k # ks) =
     (if \<not> valid_identifier (key_id k) \<or> key_id k \<in> set key_ids
      then Err JsonInvalid ''release key IDs must be valid and unique''
      else
        and_then (decode_lower_hex 32 (public_key k) TrustUnknownKey) (\<lambda>bytes.
        and_then (ok_or (key_from_bytes X bytes)
          (maintenance_error_new TrustUnknownKey ''release public key is invalid'')) (\<lambda>_.
        check_release_keys X (key_id k # key_ids) ks)))"

fun check_thumbprints :: "string list \<Rightarrow> string list \<Rightarrow> unit result" where
  "check_thumbprints seen [] = Ok ()"
| "check_thumbprints seen (t # ts) =
     (if length t \<notin> {40, 64} \<or> \<not> list_all is_lower_hex t \<or> t \<in> set seen
      then Err JsonInvalid ''signer thumbprints must be unique lowercase SHA-1 or SHA-256 hex''
      else check_thumbprints (t # seen) ts)"

definition validate_keyring_shape :: "external \<Rightarrow> keyring \<Rightarrow> unit result" where
  "validate_keyring_shape X k =
     (if keyring_kind k \<noteq> KEYRING_KIND \<or> keyring_schema k \<noteq> KEYRING_SCHEMA \<or> keyring_version k = 0
      then Err JsonInvalid ''keyring kind, schema, or version is unsupported''
      else if release_keys k = [] \<or> length (release_keys k) > MAX_RELEASE_KEYS
      then Err FileSetLimit ''keyring release-key count is outside the allowed range''
      else if length (authenticode_signer_thumbprints k) > MAX_SIGNER_THUMBPRINTS
      then Err FileSetLimit ''keyring signer-thumbprint count exceeds the bound''
      else and_then (check_release_keys X [] (release_keys k)) (\<lambda>_.
        check_thumbprints [] (authenticode_signer_thumbprints k)))"

text \<open>The signature is checked before the version, so only signed documents reach the floor.\<close>

definition verify_keyring_with_root ::
  "external \<Rightarrow> (string \<Rightarrow> keyring option) \<Rightarrow> string \<Rightarrow> keyring_acceptance \<Rightarrow> bytes
   \<Rightarrow> verified_keyring result"
where
  "verify_keyring_with_root X from_slice bytes acceptance root_public_key =
     and_then (parse_canonical X from_slice (\<lambda>k. Some (keyring_to_value k)) bytes
         MAX_MANIFEST_BYTES) (\<lambda>k.
     and_then (validate_keyring_shape X k) (\<lambda>_.
     and_then (canonical_json X (keyring_payload k)) (\<lambda>payload_bytes.
     and_then (decode_lower_hex 64 (keyring_signature k) TrustSignature) (\<lambda>signature.
     and_then (ok_or (key_from_bytes X root_public_key)
       (maintenance_error_new TrustSignature ''root public key is invalid'')) (\<lambda>root_key.
     and_then (ensure (verify_strict X root_key
         (signing_message KEYRING_SIGNING_DOMAIN payload_bytes) signature)
       (maintenance_error_new TrustSignature ''keyring signature is invalid'')) (\<lambda>_.
     let digest = sha256 X bytes in
       if keyring_version k < minimum_version acceptance
       then Err KeyringRollback ''keyring version is older than the accepted version''
       else if keyring_version k = minimum_version acceptance \<and> minimum_version acceptance \<noteq> 0
         \<and> (case current_digest acceptance of None \<Rightarrow> False | Some current \<Rightarrow> current \<noteq> digest)
       then Err KeyringConflict ''accepted keyring version has a different digest''
       else Ok \<lparr>verified_keyring = k, keyring_digest = digest\<rparr>))))))"

definition verify_keyring ::
  "external \<Rightarrow> (string \<Rightarrow> keyring option) \<Rightarrow> string \<Rightarrow> keyring_acceptance
   \<Rightarrow> verified_keyring result"
where
  "verify_keyring X from_slice bytes acceptance =
     verify_keyring_with_root X from_slice bytes acceptance OFFLINE_ROOT_PUBLIC_KEY"

subsection \<open>The shape of an accepted keyring\<close>

definition release_key_wf :: "external \<Rightarrow> release_key \<Rightarrow> bool" where
  "release_key_wf X k \<longleftrightarrow> valid_identifier (key_id k)
     \<and> (\<exists>b. decode_lower_hex 32 (public_key k) TrustUnknownKey = Ok b
           \<and> key_from_bytes X b \<noteq> None)"

definition thumbprint_wf :: "string \<Rightarrow> bool" where
  "thumbprint_wf t \<longleftrightarrow> length t \<in> {40, 64} \<and> list_all is_lower_hex t"

definition keyring_wf :: "external \<Rightarrow> keyring \<Rightarrow> bool" where
  "keyring_wf X k \<longleftrightarrow>
     keyring_kind k = KEYRING_KIND \<and> keyring_schema k = KEYRING_SCHEMA \<and> 0 < keyring_version k
     \<and> 0 < length (release_keys k) \<and> length (release_keys k) \<le> 64
     \<and> length (authenticode_signer_thumbprints k) \<le> 64
     \<and> distinct (map key_id (release_keys k))
     \<and> list_all (release_key_wf X) (release_keys k)
     \<and> distinct (authenticode_signer_thumbprints k)
     \<and> list_all thumbprint_wf (authenticode_signer_thumbprints k)"

lemma check_release_keys_Ok:
  "check_release_keys X seen ks = Ok () \<longleftrightarrow>
     distinct (map key_id ks) \<and> set (map key_id ks) \<inter> set seen = {}
     \<and> list_all (release_key_wf X) ks"
  by (induction X seen ks rule: check_release_keys.induct)
    (auto simp: result_simps release_key_wf_def)

lemma check_thumbprints_Ok:
  "check_thumbprints seen ts = Ok () \<longleftrightarrow>
     distinct ts \<and> set ts \<inter> set seen = {} \<and> list_all thumbprint_wf ts"
  by (induction seen ts rule: check_thumbprints.induct) (auto simp: thumbprint_wf_def)

lemma validate_keyring_shape_Ok: "validate_keyring_shape X k = Ok () \<longleftrightarrow> keyring_wf X k"
  by (auto simp: validate_keyring_shape_def keyring_wf_def result_simps check_release_keys_Ok
      check_thumbprints_Ok MAX_RELEASE_KEYS_def MAX_SIGNER_THUMBPRINTS_def word_gt_0)

lemma verify_keyring_with_root_Ok:
  "verify_keyring_with_root X fs bytes acc root = Ok vk \<longleftrightarrow>
     (\<exists>k pb sig rk. length bytes \<le> MAX_MANIFEST_BYTES \<and> fs bytes = Some k
        \<and> canonical_json X (keyring_to_value k) = Ok bytes
        \<and> keyring_wf X k
        \<and> canonical_json X (keyring_payload k) = Ok pb
        \<and> decode_lower_hex 64 (keyring_signature k) TrustSignature = Ok sig
        \<and> key_from_bytes X root = Some rk
        \<and> verify_strict X rk (signing_message KEYRING_SIGNING_DOMAIN pb) sig
        \<and> minimum_version acc \<le> keyring_version k
        \<and> (keyring_version k = minimum_version acc \<longrightarrow> minimum_version acc \<noteq> 0 \<longrightarrow>
            current_digest acc \<in> {None, Some (sha256 X bytes)})
        \<and> vk = \<lparr>verified_keyring = k, keyring_digest = sha256 X bytes\<rparr>)"
  by (auto simp: verify_keyring_with_root_def result_simps parse_canonical_Ok
      validate_keyring_shape_Ok Let_def not_less split: if_splits option.splits)

lemma release_verifying_key_total:
  assumes "keyring_wf X (verified_keyring vk)"
    and "wanted \<in> key_id ` set (release_keys (verified_keyring vk))"
  shows "\<exists>key. release_verifying_key X vk wanted = Ok key"
proof -
  obtain e where e: "find (\<lambda>entry. key_id entry = wanted) (release_keys (verified_keyring vk)) = Some e"
    using assms(2) by (cases "find (\<lambda>entry. key_id entry = wanted)
        (release_keys (verified_keyring vk))") (auto simp: find_None_iff)
  then have "e \<in> set (release_keys (verified_keyring vk))"
    by (auto simp: find_Some_iff)
  with assms(1) have "release_key_wf X e" by (auto simp: keyring_wf_def list_all_iff)
  with e show ?thesis by (auto simp: release_verifying_key_def release_key_wf_def)
qed

lemma release_verifying_key_Ok:
  "release_verifying_key X vk wanted = Ok key \<Longrightarrow>
     \<exists>e b. e \<in> set (release_keys (verified_keyring vk)) \<and> key_id e = wanted
        \<and> public_key e = encode_lower_hex b \<and> length b = 32 \<and> key_from_bytes X b = Some key"
  by (auto simp: release_verifying_key_def result_simps decode_lower_hex_Ok find_Some_iff) (metis nth_mem)

lemma json_wf_simps [simp]:
  "json_wf (json_u64 n)" "json_wf (json_strings xs)"
  "json_wf (release_key_to_value k)"
  by (simp_all add: json_u64_def json_strings_def release_key_to_value_def list_all_iff)

lemma keyring_payload_wf: "json_wf (keyring_payload k)"
  by (simp add: keyring_payload_def list_all_iff)

lemma json_strings_inject [simp]: "json_strings xs = json_strings ys \<longleftrightarrow> xs = ys"
  by (simp add: json_strings_def inj_map_eq_map inj_def)

lemma json_u64_inject [simp]: "json_u64 m = json_u64 n \<longleftrightarrow> m = n"
  by (simp add: json_u64_def)

lemma release_key_to_value_inject [simp]:
  "release_key_to_value k = release_key_to_value k' \<longleftrightarrow> k = k'"
  by (cases k; cases k') (auto simp: release_key_to_value_def)

lemma keyring_payload_inject:
  "keyring_payload k = keyring_payload k' \<Longrightarrow> keyring_signature k = keyring_signature k' \<Longrightarrow> k = k'"
  by (cases k; cases k') (auto simp: keyring_payload_def inj_map_eq_map inj_def)

subsection \<open>A concrete keyring\<close>

definition sample_key :: bytes where "sample_key = replicate 32 7"

definition sample_release_key :: release_key where
  "sample_release_key = \<lparr>key_id = ''release-1'', public_key = encode_lower_hex sample_key\<rparr>"

definition sample_keyring :: keyring where
  "sample_keyring =
     \<lparr>authenticode_signer_thumbprints = [], keyring_kind = KEYRING_KIND,
      release_keys = [sample_release_key], keyring_schema = 1,
      keyring_signature = encode_lower_hex (sample_key @ sample_key), keyring_version = 3\<rparr>"

definition sample_text :: "json \<Rightarrow> string" where
  "sample_text v = (case canonical_json sample_external v of Inl _ \<Rightarrow> [] | Inr t \<Rightarrow> t)"

definition sample_verified_keyring :: verified_keyring where
  "sample_verified_keyring =
     \<lparr>verified_keyring = sample_keyring,
      keyring_digest = sha256 sample_external (sample_text (keyring_to_value sample_keyring))\<rparr>"

text \<open>Without floats the sample's canonical text always exists.\<close>

fun json_has_float :: "json \<Rightarrow> bool" where
  "json_has_float (JNumber n) = is_float n"
| "json_has_float (JArray xs) = list_ex json_has_float xs"
| "json_has_float (JObject es) = list_ex (\<lambda>(k, v). json_has_float v) es"
| "json_has_float _ = False"

lemma sequence_total: "\<forall>r \<in> set rs. \<exists>x. r = Inr x \<Longrightarrow> \<exists>xs. sequence rs = Inr xs"
  by (induction rs) (auto simp: result_simps)

lemma write_canonical_total:
  assumes "\<And>s. json_string_text X s \<noteq> None"
  shows "\<not> json_has_float v \<Longrightarrow> \<exists>t. write_canonical X v = Ok t"
proof (induction v)
  case (JNumber n)
  then show ?case by (cases n) (auto simp: is_float_def)
next
  case (JString s)
  then show ?case using assms [of s] by auto
next
  case (JArray xs)
  then have "\<forall>r \<in> set (map (write_canonical X) xs). \<exists>t. r = Ok t"
    by (auto simp: list_ex_iff)
  from sequence_total [OF this] show ?case by auto
next
  case (JObject es)
  let ?f = "\<lambda>(key, item). and_then (ok_or (json_string_text X key)
         (maintenance_error_new JsonInvalid ''could not encode JSON key''))
       (\<lambda>k. and_then item (\<lambda>v. Ok (k @ '':'' @ v)))"
  have "\<forall>r \<in> set (map ?f (sort_key fst (map (\<lambda>(k, v). (k, write_canonical X v)) es))). \<exists>t. r = Ok t"
  proof
    fix r
    assume "r \<in> set (map ?f (sort_key fst (map (\<lambda>(k, v). (k, write_canonical X v)) es)))"
    then obtain k v where kv: "(k, v) \<in> set es" and r: "r = ?f (k, write_canonical X v)" by auto
    then have "\<not> json_has_float v" using JObject.prems by (auto simp: list_ex_iff)
    with JObject.IH [OF kv snds.intros] obtain t where "write_canonical X v = Ok t" by auto
    with r assms [of k] show "\<exists>t. r = Ok t" by auto
  qed
  from sequence_total [OF this] show ?case by auto
next
  case (JBool b)
  then show ?case by (cases b) auto
qed auto

lemma sample_text_Ok:
  "\<not> json_has_float v \<Longrightarrow> canonical_json sample_external v = Ok (sample_text v)"
  using write_canonical_total [of sample_external v]
  by (auto simp: sample_text_def canonical_json_def)

lemma no_float_simps [simp]:
  "\<not> json_has_float (json_u64 n)" "\<not> json_has_float (json_strings xs)"
  "\<not> json_has_float (release_key_to_value k)"
  by (simp_all add: json_u64_def json_strings_def release_key_to_value_def is_float_def list_ex_iff)

lemma keyring_no_float [simp]:
  "\<not> json_has_float (keyring_to_value k)" "\<not> json_has_float (keyring_payload k)"
  by (simp_all add: keyring_to_value_def keyring_payload_def list_ex_iff)

lemma sample_keyring_wf: "keyring_wf sample_external sample_keyring"
  by (simp add: keyring_wf_def sample_keyring_def sample_release_key_def release_key_wf_def
      valid_identifier_def identifier_char_def ascii_defs sample_key_def KEYRING_KIND_def
      KEYRING_SCHEMA_def)

lemma escape_hex [simp]: "escape (encode_lower_hex bs) = encode_lower_hex bs"
proof -
  have "escape s = s" if "list_all is_lower_hex s" for s
    using that by (induction s) (auto simp: is_lower_hex_def is_ascii_digit_def)
  then show ?thesis by (simp add: encode_lower_hex_chars)
qed

lemmas sample_text_simps = sample_text_def canonical_json_def json_strings_def json_u64_def
  sample_number_text_def word_to_string_def nat_to_string.simps

lemma sample_keyring_length:
  "length (sample_text (keyring_to_value sample_keyring)) \<le> MAX_MANIFEST_BYTES"
  by (simp add: sample_text_simps keyring_to_value_def release_key_to_value_def
      sample_keyring_def sample_release_key_def KEYRING_KIND_def sample_key_def
      MAX_MANIFEST_BYTES_def del: encode_lower_hex_simps)

lemma sample_keyring_verifies:
  "verify_keyring_with_root sample_external (\<lambda>_. Some sample_keyring)
     (sample_text (keyring_to_value sample_keyring)) keyring_acceptance_default sample_key
   = Ok sample_verified_keyring"
  unfolding verify_keyring_with_root_Ok
  using sample_text_Ok [of "keyring_to_value sample_keyring"]
    sample_text_Ok [of "keyring_payload sample_keyring"] sample_keyring_length sample_keyring_wf
  by (simp add: keyring_acceptance_default_def sample_verified_keyring_def)
    (simp add: sample_keyring_def sample_key_def)

subsection \<open>Properties\<close>

text \<open>
  C8: What an accepted keyring is: the bytes are the bounded canonical text of a keyring of
  the right shape (unique valid key IDs with usable public keys, unique well-formed
  thumbprints, within the count bounds) whose payload the root key signed, its version is
  not below the floor, and its digest is the digest of the bytes.
\<close>

theorem verify_keyring_sound:
  assumes "verify_keyring_with_root X from_slice bytes acc root = Ok vk"
  shows "keyring_wf X (verified_keyring vk)
    \<and> canonical_json X (keyring_to_value (verified_keyring vk)) = Ok bytes
    \<and> length bytes \<le> 32 * 1024 * 1024
    \<and> minimum_version acc \<le> keyring_version (verified_keyring vk)
    \<and> keyring_digest vk = sha256 X bytes
    \<and> (\<exists>rk pb sig. key_from_bytes X root = Some rk
          \<and> canonical_json X (keyring_payload (verified_keyring vk)) = Ok pb
          \<and> keyring_signature (verified_keyring vk) = encode_lower_hex sig \<and> length sig = 64
          \<and> verify_strict X rk (signing_message KEYRING_SIGNING_DOMAIN pb) sig)"
  using assms by (auto simp: verify_keyring_with_root_Ok decode_lower_hex_Ok MAX_MANIFEST_BYTES_def)

theorem verify_keyring_sound_witness:
  "keyring_wf sample_external sample_keyring
   \<and> minimum_version keyring_acceptance_default \<le> keyring_version sample_keyring"
  using verify_keyring_sound [OF sample_keyring_verifies]
  by (simp add: sample_verified_keyring_def)

text \<open>
  C9: The acceptance floor decides every document that is otherwise valid: an older version
  is a rollback, the floor's version with another digest is a conflict (unless the floor is
  zero), and everything else is accepted with the same result.
\<close>

theorem keyring_acceptance_rule:
  assumes "verify_keyring_with_root X from_slice bytes keyring_acceptance_default root = Ok vk"
  shows "verify_keyring_with_root X from_slice bytes acc root =
    (if keyring_version (verified_keyring vk) < minimum_version acc
     then Err KeyringRollback ''keyring version is older than the accepted version''
     else if keyring_version (verified_keyring vk) = minimum_version acc
       \<and> minimum_version acc \<noteq> 0
       \<and> (\<exists>d. current_digest acc = Some d \<and> d \<noteq> keyring_digest vk)
     then Err KeyringConflict ''accepted keyring version has a different digest''
     else Ok vk)"
proof -
  from assms obtain k pb sig rk where
    k: "parse_canonical X from_slice (\<lambda>k. Some (keyring_to_value k)) bytes MAX_MANIFEST_BYTES = Ok k"
      "validate_keyring_shape X k = Ok ()" "canonical_json X (keyring_payload k) = Ok pb"
      "decode_lower_hex 64 (keyring_signature k) TrustSignature = Ok sig"
      "key_from_bytes X root = Some rk"
      "verify_strict X rk (signing_message KEYRING_SIGNING_DOMAIN pb) sig"
      "vk = \<lparr>verified_keyring = k, keyring_digest = sha256 X bytes\<rparr>"
    by (auto simp: verify_keyring_with_root_def result_simps Let_def split: if_splits)
  then show ?thesis
    by (auto simp: verify_keyring_with_root_def Let_def split: option.splits)
qed

theorem keyring_acceptance_rule_witness:
  "verify_keyring_with_root sample_external (\<lambda>_. Some sample_keyring)
     (sample_text (keyring_to_value sample_keyring)) \<lparr>minimum_version = 4, current_digest = None\<rparr>
     sample_key
   = Err KeyringRollback ''keyring version is older than the accepted version''"
  by (subst keyring_acceptance_rule [OF sample_keyring_verifies])
    (simp add: sample_verified_keyring_def sample_keyring_def)

text \<open>
  C10: Every release key of an accepted keyring is usable: looking up its ID decodes and
  returns a key, so a later failure with an unknown key means the ID is not in the keyring.
\<close>

theorem accepted_release_keys_usable:
  assumes "verify_keyring_with_root X from_slice bytes acc root = Ok vk"
  shows "is_ok (release_verifying_key X vk wanted)
    \<longleftrightarrow> wanted \<in> key_id ` set (release_keys (verified_keyring vk))"
proof
  assume "is_ok (release_verifying_key X vk wanted)"
  then show "wanted \<in> key_id ` set (release_keys (verified_keyring vk))"
    by (auto simp: is_ok_iff dest: release_verifying_key_Ok)
next
  assume "wanted \<in> key_id ` set (release_keys (verified_keyring vk))"
  with assms release_verifying_key_total [of X vk wanted]
  show "is_ok (release_verifying_key X vk wanted)"
    by (auto simp: verify_keyring_with_root_Ok is_ok_iff)
qed

theorem accepted_release_keys_usable_witness:
  "is_ok (release_verifying_key sample_external sample_verified_keyring ''release-1'')
   \<and> \<not> is_ok (release_verifying_key sample_external sample_verified_keyring ''release-2'')"
  unfolding accepted_release_keys_usable [OF sample_keyring_verifies]
  by (simp add: sample_verified_keyring_def sample_keyring_def sample_release_key_def)

end
