(* ===== verification/Roots.thy ===== *)
theory Roots
  imports Document_Store Keyed_Registry Trust
begin

text \<open>
  \<open>src/roots.rs\<close>: the registered roots, their stored form, the owner rule, and the
  registry document. The registry interprets the contract of \<open>Keyed_Registry\<close>.
\<close>

definition ROOT_REGISTRY_KIND :: string where
  "ROOT_REGISTRY_KIND = ''7launcher-maintenance-roots-v1''"
definition ROOT_REGISTRY_SCHEMA :: u64 where "ROOT_REGISTRY_SCHEMA = 1"
definition MAX_ROOT_REGISTRY_BYTES :: nat where "MAX_ROOT_REGISTRY_BYTES = 1024 * 1024"
definition MAX_REGISTERED_ROOTS :: nat where "MAX_REGISTERED_ROOTS = 256"

datatype root_kind = Launcher | Game | Library

record registered_root =
  root_id :: string
  root_product_id :: string
  root_kind :: root_kind
  canonical_path :: string
  root_identity :: directory_identity
  root_owner_sid :: string

definition sid_char :: "char \<Rightarrow> bool" where
  "sid_char c = (is_ascii_digit c \<or> c = CHR ''-'' \<or> c = CHR ''S'')"

definition valid_owner_sid :: "string \<Rightarrow> bool" where
  "valid_owner_sid v = (starts_with v ''S-1-'' \<and> length v \<le> 184 \<and> list_all sid_char v)"

definition validate_stored_root :: "registered_root \<Rightarrow> unit result" where
  "validate_stored_root r =
     (if \<not> valid_identifier (root_id r) \<or> \<not> valid_identifier (root_product_id r)
         \<or> \<not> valid_owner_sid (root_owner_sid r) \<or> \<not> is_absolute (canonical_path r)
      then Err RootInvalid ''stored root metadata is invalid''
      else Ok ())"

definition from_canonical_identity ::
  "string \<Rightarrow> string \<Rightarrow> root_kind \<Rightarrow> string \<Rightarrow> directory_identity \<Rightarrow> string \<Rightarrow> registered_root result"
where
  "from_canonical_identity rid product kind path identity sid =
     (let r = \<lparr>root_id = rid, root_product_id = product, root_kind = kind,
         canonical_path = path, root_identity = identity, root_owner_sid = sid\<rparr> in
      and_then (validate_stored_root r) (\<lambda>_. Ok r))"

subsection \<open>The stored form\<close>

fun root_kind_text :: "root_kind \<Rightarrow> string" where
  "root_kind_text Launcher = ''launcher''"
| "root_kind_text Game = ''game''"
| "root_kind_text Library = ''library''"

definition identity_to_value :: "directory_identity \<Rightarrow> json" where
  "identity_to_value i =
     JObject [(''fileId'', JArray (map (\<lambda>b. json_u64 (ucast b)) (file_id i))),
       (''volumeSerial'', json_u64 (volume_serial i))]"

definition root_to_value :: "registered_root \<Rightarrow> json" where
  "root_to_value r =
     JObject [(''canonicalPath'', JString (canonical_path r)),
       (''identity'', identity_to_value (root_identity r)),
       (''ownerSid'', JString (root_owner_sid r)),
       (''productId'', JString (root_product_id r)),
       (''rootId'', JString (root_id r)),
       (''rootKind'', JString (root_kind_text (root_kind r)))]"

record root_registry_document =
  roots_kind :: string
  roots_roots :: "registered_root list"
  roots_schema :: u64

definition roots_document_to_value :: "root_registry_document \<Rightarrow> json" where
  "roots_document_to_value x =
     JObject [(''kind'', JString (roots_kind x)),
       (''roots'', JArray (map root_to_value (roots_roots x))),
       (''schema'', json_u64 (roots_schema x))]"

subsection \<open>The registry\<close>

type_synonym root_registry = "(string, registered_root) fmap"

definition root_registry_register :: "registered_root \<Rightarrow> root_registry \<Rightarrow> root_registry result" where
  "root_registry_register root m =
     and_then (validate_stored_root root) (\<lambda>_.
     if btree_len m \<ge> MAX_REGISTERED_ROOTS
     then Err RootInvalid ''registered-root count exceeds the bound''
     else if fmlookup m (root_id root) \<noteq> None
     then Err TransactionConflict ''root ID is already registered''
     else Ok (fmupd (root_id root) root m))"

definition root_accessible :: "registered_root \<Rightarrow> string \<Rightarrow> bool" where
  "root_accessible root caller_sid = (root_kind root = Library \<or> root_owner_sid root = caller_sid)"

definition resolve_accessible :: "string \<Rightarrow> string \<Rightarrow> root_registry \<Rightarrow> registered_root result" where
  "resolve_accessible rid caller_sid m =
     and_then (ok_or (fmlookup m rid)
       (maintenance_error_new RootNotFound ''root ID is not registered'')) (\<lambda>root.
     if root_kind root \<noteq> Library \<and> root_owner_sid root \<noteq> caller_sid
     then Err RootUnauthorized ''protected root belongs to another user SID''
     else Ok root)"

definition resolve_job ::
  "string \<Rightarrow> string \<Rightarrow> string \<Rightarrow> root_registry \<Rightarrow> registered_root result"
where
  "resolve_job rid caller_sid product m =
     and_then (resolve_accessible rid caller_sid m) (\<lambda>root.
     if root_product_id root \<noteq> product
     then Err ProductMismatch ''registered root belongs to another product''
     else Ok root)"

definition root_registry_unregister ::
  "string \<Rightarrow> string \<Rightarrow> root_registry \<Rightarrow> (registered_root \<times> root_registry) result"
where
  "root_registry_unregister rid caller_sid m =
     and_then (resolve_accessible rid caller_sid m) (\<lambda>root.
     and_then (ok_or (fmlookup m rid)
       (maintenance_error_new RootNotFound ''root ID is not registered'')) (\<lambda>_.
     Ok (root, fmdrop rid m)))"

definition accessible_root_count :: "string \<Rightarrow> root_registry \<Rightarrow> nat" where
  "accessible_root_count caller_sid m =
     length (filter (\<lambda>root. root_kind root = Library \<or> root_owner_sid root = caller_sid)
       (btree_values m))"

text \<open>The parser of the document is an argument (serde's derived \<open>Deserialize\<close>).\<close>

definition root_registry_load ::
  "external \<Rightarrow> (string \<Rightarrow> root_registry_document option) \<Rightarrow> path \<Rightarrow> root_registry result io"
where
  "root_registry_load X from_slice p =
     io_then (read_with_backup p MAX_ROOT_REGISTRY_BYTES
       (maintenance_error_new RootInvalid ''root registry and backup cannot be read'')) (\<lambda>bytes.
     lift_result
       (and_then (parse_canonical X from_slice (\<lambda>x. Some (roots_document_to_value x)) bytes
           MAX_ROOT_REGISTRY_BYTES) (\<lambda>x.
        if roots_kind x \<noteq> ROOT_REGISTRY_KIND \<or> roots_schema x \<noteq> ROOT_REGISTRY_SCHEMA
        then Err RootInvalid ''root registry schema is unsupported''
        else if length (roots_roots x) > MAX_REGISTERED_ROOTS
        then Err RootInvalid ''registered-root count exceeds the bound''
        else register_all root_registry_register (roots_roots x) fmempty)))"

definition root_registry_document :: "root_registry \<Rightarrow> root_registry_document" where
  "root_registry_document m =
     \<lparr>roots_kind = ROOT_REGISTRY_KIND, roots_roots = btree_values m,
      roots_schema = ROOT_REGISTRY_SCHEMA\<rparr>"

definition root_registry_io :: "string \<Rightarrow> maintenance_error" where
  "root_registry_io what =
     maintenance_error_new TransactionIo
       (if what = ''stale backup cannot be removed''
        then ''stale root registry backup cannot be removed''
        else ''root registry '' @ what)"

definition root_registry_save :: "external \<Rightarrow> path \<Rightarrow> root_registry \<Rightarrow> unit result io" where
  "root_registry_save X p m =
     io_then (lift_result (canonical_json X (roots_document_to_value (root_registry_document m))))
       (\<lambda>bytes.
     if length bytes > MAX_ROOT_REGISTRY_BYTES
     then io_return (Err RootInvalid ''root registry exceeds the bound'')
     else if p = []
     then io_return (Err RootInvalid ''root registry has no parent'')
     else commit_document root_registry_io p bytes)"

text \<open>
  The start of the service (\<open>recover_service_state\<close> in \<open>src/windows.rs\<close>) loads the registry
  only when its file exists.
\<close>

definition load_roots_at_start ::
  "external \<Rightarrow> (string \<Rightarrow> root_registry_document option) \<Rightarrow> path \<Rightarrow> root_registry result io"
where
  "load_roots_at_start X from_slice registry_path =
     io_bind (fs_exists registry_path) (\<lambda>present.
     if present then root_registry_load X from_slice registry_path
     else io_return (Ok fmempty))"

subsection \<open>The contract of the registry\<close>

definition root_wf :: "registered_root \<Rightarrow> bool" where
  "root_wf r \<longleftrightarrow> valid_identifier (root_id r) \<and> valid_identifier (root_product_id r)
     \<and> valid_owner_sid (root_owner_sid r) \<and> is_absolute (canonical_path r)"

lemma validate_stored_root_Ok [result_simps]: "validate_stored_root r = Ok () \<longleftrightarrow> root_wf r"
  by (auto simp: validate_stored_root_def root_wf_def)

lemma root_registry_register_Ok:
  "root_registry_register i m = Ok m' \<longleftrightarrow>
     root_wf i \<and> btree_len m < 256 \<and> fmlookup m (root_id i) = None \<and> m' = fmupd (root_id i) i m"
  by (auto simp: root_registry_register_def result_simps MAX_REGISTERED_ROOTS_def)

lemma resolve_accessible_Ok [result_simps]:
  "resolve_accessible rid sid m = Ok root \<longleftrightarrow> fmlookup m rid = Some root \<and> root_accessible root sid"
  by (auto simp: resolve_accessible_def root_accessible_def result_simps)

lemma root_registry_unregister_Ok:
  "root_registry_unregister rid sid m = Ok (root, m') \<longleftrightarrow>
     fmlookup m rid = Some root \<and> root_accessible root sid \<and> m' = fmdrop rid m"
  by (auto simp: root_registry_unregister_def result_simps)

interpretation roots: owned_registry fmlookup btree_len fmempty root_registry_register
  root_registry_unregister root_id root_wf root_accessible 256
  by unfold_locales
    (auto simp: root_registry_register_Ok root_registry_unregister_Ok btree_len_upd btree_len_drop
      fun_eq_iff)

lemma root_registry_rebuild:
  assumes "roots.sound m"
  shows "register_all root_registry_register (btree_values m) fmempty = Ok m"
  by (rule register_values [where key = root_id and ok = root_wf and bound = 256])
    (use assms in \<open>auto simp: roots.sound_def root_registry_register_Ok\<close>)

lemma root_registry_parse:
  assumes "roots.sound m"
    and "canonical_json X (roots_document_to_value (root_registry_document m)) = Ok bytes"
    and "length bytes \<le> MAX_ROOT_REGISTRY_BYTES" and "from_slice bytes = Some (root_registry_document m)"
  shows "and_then (parse_canonical X from_slice (\<lambda>x. Some (roots_document_to_value x)) bytes
           MAX_ROOT_REGISTRY_BYTES) (\<lambda>x.
        if roots_kind x \<noteq> ROOT_REGISTRY_KIND \<or> roots_schema x \<noteq> ROOT_REGISTRY_SCHEMA
        then Err RootInvalid ''root registry schema is unsupported''
        else if length (roots_roots x) > MAX_REGISTERED_ROOTS
        then Err RootInvalid ''registered-root count exceeds the bound''
        else register_all root_registry_register (roots_roots x) fmempty) = Ok m"
proof -
  have "parse_canonical X from_slice (\<lambda>x. Some (roots_document_to_value x)) bytes
      MAX_ROOT_REGISTRY_BYTES = Ok (root_registry_document m)"
    using assms(2-4) by (simp add: parse_canonical_Ok)
  with root_registry_rebuild [OF assms(1)] assms(1) show ?thesis
    by (simp add: root_registry_document_def roots.sound_def MAX_REGISTERED_ROOTS_def)
qed

text \<open>A disk that holds a registry, in the file or in its backup.\<close>

definition stores_roots ::
  "external \<Rightarrow> (string \<Rightarrow> root_registry_document option) \<Rightarrow> string \<Rightarrow> root_registry \<Rightarrow> bool"
where
  "stores_roots X from_slice bytes m \<longleftrightarrow>
     roots.sound m
     \<and> canonical_json X (roots_document_to_value (root_registry_document m)) = Ok bytes
     \<and> length bytes \<le> MAX_ROOT_REGISTRY_BYTES
     \<and> from_slice bytes = Some (root_registry_document m)"

lemma root_registry_load_works:
  assumes "document_path p" and "registry_view p F = Some bytes" and "stores_roots X from_slice bytes m"
  shows "wps p no_fault (root_registry_load X from_slice p) (\<lambda>r G. r = Ok m \<and> G = F) (\<lambda>_. False) F"
proof -
  note s = assms(3) [unfolded stores_roots_def]
  have "wps p no_fault (read_with_backup p MAX_ROOT_REGISTRY_BYTES
      (maintenance_error_new RootInvalid ''root registry and backup cannot be read''))
      (\<lambda>r G. r = Ok bytes \<and> G = F) (\<lambda>_. False) F"
    by (rule read_with_backup_works) (use assms s in auto)
  then show ?thesis
    unfolding root_registry_load_def lift_result_def
    using root_registry_parse [of m X bytes from_slice] s
    by (intro wps_then) (erule wps_conseq, auto intro: wps_return)
qed


subsection \<open>A concrete registry\<close>

definition sample_root :: registered_root where
  "sample_root = \<lparr>root_id = ''library'', root_product_id = ''sample-app'', root_kind = Launcher,
     canonical_path = ''C:'' @ [CHR 0x5C] @ ''Games'',
     root_identity = \<lparr>volume_serial = 1, file_id = [7, 7, 7, 7, 7, 7, 7, 7, 7, 7, 7, 7, 7, 7, 7, 7]\<rparr>,
     root_owner_sid = ''S-1-5-21''\<rparr>"

definition sample_registry_path :: path where
  "sample_registry_path = [''c:'', ''data'', ''roots-v1.json'']"

definition sample_roots :: root_registry where
  "sample_roots = fmupd ''library'' sample_root fmempty"

definition sample_new_roots :: root_registry where
  "sample_new_roots = fmupd ''game'' (sample_root\<lparr>root_id := ''game''\<rparr>) fmempty"

definition roots_bytes :: "root_registry \<Rightarrow> string" where
  "roots_bytes m = sample_text (roots_document_to_value (root_registry_document m))"

definition sample_roots_parser :: "string \<Rightarrow> root_registry_document option" where
  "sample_roots_parser s =
     (if s = roots_bytes sample_new_roots then Some (root_registry_document sample_new_roots)
      else if s = roots_bytes sample_roots then Some (root_registry_document sample_roots)
      else None)"

definition sample_file :: "string \<Rightarrow> node" where
  "sample_file s = File \<lparr>contents = s, file_identity = new_identity 1, last_write_time = 1,
     multiple_links = False\<rparr>"

definition sample_roots_disk :: disk where
  "sample_roots_disk =
     fmupd [''c:''] (Directory (new_identity 1))
      (fmupd [''c:'', ''data''] (Directory (new_identity 2))
        (fmupd sample_registry_path (sample_file (roots_bytes sample_roots)) fmempty))"

lemma sample_registry_names:
  "temporary_path sample_registry_path = [''c:'', ''data'', ''roots-v1.new'']"
  "backup_path sample_registry_path = [''c:'', ''data'', ''roots-v1.bak'']"
  by (simp_all add: sample_registry_path_def temporary_path_def backup_path_def
      with_extension_def file_stem_def rsplit_once_def)

lemma sample_registry_path_ok: "document_path sample_registry_path"
  unfolding document_path_def sample_registry_names by (simp add: sample_registry_path_def)


lemma roots_no_float: "\<not> json_has_float (roots_document_to_value x)"
  by (auto simp: roots_document_to_value_def root_to_value_def identity_to_value_def list_ex_iff)

lemma sample_root_wf: "root_wf sample_root" "root_wf (sample_root\<lparr>root_id := ''game''\<rparr>)"
  by (simp_all add: root_wf_def sample_root_def valid_identifier_def identifier_char_def ascii_defs
      valid_owner_sid_def starts_with_def sid_char_def is_separator_def)

lemma roots_bytes_length:
  "length (roots_bytes sample_roots) \<le> MAX_ROOT_REGISTRY_BYTES"
  "length (roots_bytes sample_new_roots) \<le> MAX_ROOT_REGISTRY_BYTES"
  by (simp_all add: roots_bytes_def sample_text_simps roots_document_to_value_def root_to_value_def
      identity_to_value_def root_registry_document_def ROOT_REGISTRY_KIND_def
      ROOT_REGISTRY_SCHEMA_def sample_roots_def sample_new_roots_def sample_root_def digit_char_def
      MAX_ROOT_REGISTRY_BYTES_def)

lemma roots_bytes_neq: "roots_bytes sample_roots \<noteq> roots_bytes sample_new_roots"
  by (simp add: roots_bytes_def sample_text_simps roots_document_to_value_def root_to_value_def
      identity_to_value_def root_registry_document_def ROOT_REGISTRY_KIND_def
      ROOT_REGISTRY_SCHEMA_def sample_roots_def sample_new_roots_def sample_root_def digit_char_def)

lemma roots_bytes_Ok:
  "canonical_json sample_external (roots_document_to_value (root_registry_document m))
     = Ok (roots_bytes m)"
  unfolding roots_bytes_def by (rule sample_text_Ok [OF roots_no_float])

lemma sample_roots_sound: "roots.sound sample_roots" "roots.sound sample_new_roots"
proof -
  have "root_registry_register sample_root fmempty = Ok sample_roots"
    "root_registry_register (sample_root\<lparr>root_id := ''game''\<rparr>) fmempty = Ok sample_new_roots"
    using sample_root_wf
    by (simp_all add: root_registry_register_Ok sample_roots_def sample_new_roots_def)
      (simp add: sample_root_def)
  with roots.sound_register [OF roots.sound_start]
  show "roots.sound sample_roots" "roots.sound sample_new_roots" by blast+
qed

lemma sample_stores_roots:
  "stores_roots sample_external sample_roots_parser (roots_bytes sample_roots) sample_roots"
  "stores_roots sample_external sample_roots_parser (roots_bytes sample_new_roots) sample_new_roots"
  using roots_bytes_neq sample_roots_sound roots_bytes_length roots_bytes_Ok
  by (simp_all add: stores_roots_def sample_roots_parser_def)

subsection \<open>Properties\<close>

text \<open>
  C18: Whatever calls the service makes on an initially empty root registry, in any order and
  with any outcome, every entry is a well-formed root stored under its own ID that one of the
  calls registered, and there are at most 256 of them.
\<close>

theorem root_registry_invariant:
  "btree_len (run_calls root_registry_register root_registry_unregister calls fmempty) \<le> 256
   \<and> (fmlookup (run_calls root_registry_register root_registry_unregister calls fmempty) k
        = Some root \<longrightarrow>
      root_id root = k \<and> root_wf root \<and> Register root \<in> set calls)"
  using roots.sound_run [OF roots.sound_start, of calls] roots.origin_run [of calls fmempty k root]
  by (auto simp: roots.sound_def)

theorem root_registry_invariant_witness:
  "fmlookup (run_calls root_registry_register root_registry_unregister
       [Register sample_root, Register sample_root, Unregister ''library'' ''S-1-5-32''] fmempty)
     ''library'' = Some sample_root
   \<and> root_id sample_root = ''library'' \<and> root_wf sample_root"
proof -
  have "root_registry_register sample_root fmempty = Ok sample_roots"
    using sample_root_wf by (simp add: root_registry_register_Ok sample_roots_def sample_root_def)
  then have "run_calls root_registry_register root_registry_unregister
      [Register sample_root, Register sample_root, Unregister ''library'' ''S-1-5-32''] fmempty
    = run_calls root_registry_register root_registry_unregister
      [Register sample_root, Unregister ''library'' ''S-1-5-32''] sample_roots"
    by (simp add: run_calls_def)
  moreover have "fmlookup (run_calls root_registry_register root_registry_unregister
      [Register sample_root, Unregister ''library'' ''S-1-5-32''] sample_roots) ''library''
      = Some sample_root"
    by (rule roots.kept_run) (auto simp: sample_roots_def sample_root_def root_accessible_def)
  ultimately have "fmlookup (run_calls root_registry_register root_registry_unregister
      [Register sample_root, Register sample_root, Unregister ''library'' ''S-1-5-32''] fmempty)
      ''library'' = Some sample_root" by simp
  with root_registry_invariant show ?thesis by blast
qed

text \<open>
  C19: A launcher or game root is out of reach of other users: as long as its owner does not
  unregister it, no sequence of calls by anyone removes or replaces it, the owner keeps
  resolving it and every other caller is refused.
\<close>

theorem protected_root_isolated:
  assumes "fmlookup m rid = Some root" and "root_kind root \<noteq> Library"
    and "Unregister rid (root_owner_sid root) \<notin> set calls"
  shows "resolve_accessible rid sid
      (run_calls root_registry_register root_registry_unregister calls m) =
    (if sid = root_owner_sid root then Ok root
     else Err RootUnauthorized ''protected root belongs to another user SID'')"
proof -
  have "fmlookup (run_calls root_registry_register root_registry_unregister calls m) rid = Some root"
    by (rule roots.kept_run [OF assms(1)]) (use assms(2,3) in \<open>auto simp: root_accessible_def\<close>)
  with assms(2) show ?thesis by (simp add: resolve_accessible_def)
qed

theorem protected_root_isolated_witness:
  "resolve_accessible ''library'' ''S-1-5-32''
     (run_calls root_registry_register root_registry_unregister
        [Unregister ''library'' ''S-1-5-32''] sample_roots)
   = Err RootUnauthorized ''protected root belongs to another user SID''"
proof -
  have "fmlookup sample_roots ''library'' = Some sample_root"
    "root_kind sample_root \<noteq> Library" "root_owner_sid sample_root = ''S-1-5-21''"
    by (simp_all add: sample_roots_def sample_root_def)
  from protected_root_isolated [OF this(1,2), of "[Unregister ''library'' ''S-1-5-32'']"] this(3)
  show ?thesis by simp
qed


definition sample_interrupted_world :: world where
  "sample_interrupted_world = \<lparr>disk = sample_roots_disk,
     faults = [Works, Works, Works, Works, Works, Works, Works, Stops 0 (\<lambda>_. False)], clock = 9, hive = fmempty\<rparr>"

lemma sample_interrupted_save:
  "\<exists>w'. root_registry_save sample_external sample_registry_path sample_new_roots
       sample_interrupted_world = (Stopped, w') \<and> faults w' = []
     \<and> slots (disk w') sample_registry_path
     \<and> file_at (disk w') sample_registry_path = None
     \<and> file_at (disk w') (backup_path sample_registry_path) = Some (roots_bytes sample_roots)"
proof -
  define b where "b = roots_bytes sample_new_roots"
  define b0 where "b0 = roots_bytes sample_roots"
  show ?thesis
    using roots_bytes_Ok [of sample_new_roots] roots_bytes_length(2)
    unfolding b_def [symmetric] b0_def [symmetric] sample_registry_names
    by (simp add: root_registry_save_def commit_document_def io_then_def io_bind_def
        lift_result_def io_return_def io_err_def map_err_def Let_def unchanged_def
        fs_create_dir_all_def open_truncate_def fs_write_all_def fs_sync_all_def fs_exists_def
        fs_metadata_def fs_rename_def rename_node_def disk_call_def sample_interrupted_world_def
        sample_registry_names [unfolded sample_registry_path_def] sample_registry_path_def
        sample_roots_disk_def b0_def [symmetric] parent_def new_file_def sample_file_def
        append_bytes_def slots_3 document_names_def is_directory_def plain_def)
qed


text \<open>
  C21: The start of the service can lose sight of the registered roots: on a disk where the
  file is gone but its backup holds the registry, which is what a machine leaves that stops
  in a save between the two renames, \<open>load\<close> returns the registry while the start returns an
  empty one, because it asks whether the file exists before it loads.
\<close>

theorem start_ignores_roots_backup:
  assumes "document_path p" and "slots (disk w) p" and "faults w = []"
    and "file_at (disk w) p = None" and "file_at (disk w) (backup_path p) = Some bytes"
    and "stores_roots X from_slice bytes m"
  shows "(\<exists>w'. root_registry_load X from_slice p w = (Returned (Ok m), w'))
    \<and> (\<exists>w'. load_roots_at_start X from_slice p w = (Returned (Ok fmempty), w'))"
proof
  have "registry_view p (file_at (disk w)) = Some bytes"
    using assms(4,5) by (simp add: registry_view_def)
  from wpD_works [OF wpsD [OF root_registry_load_works [OF assms(1) this assms(6)] assms(2) refl] refl assms(3)]
  show "\<exists>w'. root_registry_load X from_slice p w = (Returned (Ok m), w')" by auto
  have "wps p no_fault (load_roots_at_start X from_slice p) (\<lambda>r G. r = Ok fmempty) (\<lambda>_. False)
      (file_at (disk w))"
    unfolding load_roots_at_start_def using assms(4) by (auto intro!: wps_rules)
  from wpD_works [OF wpsD [OF this assms(2) refl] refl assms(3)]
  show "\<exists>w'. load_roots_at_start X from_slice p w = (Returned (Ok fmempty), w')" by auto
qed

theorem start_ignores_roots_backup_witness:
  "\<exists>w' w''. root_registry_save sample_external sample_registry_path sample_new_roots
        sample_interrupted_world = (Stopped, w')
     \<and> load_roots_at_start sample_external sample_roots_parser sample_registry_path w'
        = (Returned (Ok fmempty), w'')"
proof -
  obtain w' where w': "root_registry_save sample_external sample_registry_path sample_new_roots
       sample_interrupted_world = (Stopped, w')" "faults w' = []"
     "slots (disk w') sample_registry_path" "file_at (disk w') sample_registry_path = None"
     "file_at (disk w') (backup_path sample_registry_path) = Some (roots_bytes sample_roots)"
    using sample_interrupted_save by blast
  from start_ignores_roots_backup [OF sample_registry_path_ok w'(3,2,4,5) sample_stores_roots(1)] w'(1)
  show ?thesis by blast
qed

end
