(* ===== verification/File_Set.thy ===== *)
theory File_Set
  imports Trust
begin

text \<open>
  \<open>src/file_set.rs\<close>: signed file sets, the relative-path policy, the bounds and
  uniqueness checks of a manifest, and the generation rule against rollback.
\<close>

definition FILE_SET_KIND :: string where "FILE_SET_KIND = ''7launcher-file-set-v1''"
definition FILE_SET_SCHEMA :: u64 where "FILE_SET_SCHEMA = 1"

record file_entry =
  entry_path :: string
  entry_sha256 :: string
  entry_size :: u64

record file_set =
  files :: "file_entry list"
  file_set_generation :: u64
  file_set_key_id :: string
  file_set_kind :: string
  file_set_product_id :: string
  remove_files :: "string list"
  file_set_schema :: u64
  file_set_signature :: string

record generation_record =
  record_generation :: u64
  record_digest :: bytes

record file_set_acceptance =
  expected_product_id :: string
  previous_file_set :: "generation_record option"

record verified_file_set =
  verified_file_set :: file_set
  file_set_digest :: bytes

definition file_entry_to_value :: "file_entry \<Rightarrow> json" where
  "file_entry_to_value e =
     JObject [(''path'', JString (entry_path e)), (''sha256'', JString (entry_sha256 e)),
       (''size'', json_u64 (entry_size e))]"

definition file_set_to_value :: "file_set \<Rightarrow> json" where
  "file_set_to_value f =
     JObject [(''files'', JArray (map file_entry_to_value (files f))),
       (''generation'', json_u64 (file_set_generation f)),
       (''keyId'', JString (file_set_key_id f)),
       (''kind'', JString (file_set_kind f)),
       (''productId'', JString (file_set_product_id f)),
       (''removeFiles'', json_strings (remove_files f)),
       (''schema'', json_u64 (file_set_schema f)),
       (''signature'', JString (file_set_signature f))]"

definition file_set_payload :: "file_set \<Rightarrow> json" where
  "file_set_payload f =
     JObject [(''files'', JArray (map file_entry_to_value (files f))),
       (''generation'', json_u64 (file_set_generation f)),
       (''keyId'', JString (file_set_key_id f)),
       (''kind'', JString (file_set_kind f)),
       (''productId'', JString (file_set_product_id f)),
       (''removeFiles'', json_strings (remove_files f)),
       (''schema'', json_u64 (file_set_schema f))]"

subsection \<open>Relative paths\<close>

definition reserved_suffixes :: "string list" where
  "reserved_suffixes = [''1'', ''2'', ''3'', ''4'', ''5'', ''6'', ''7'', ''8'', ''9'']"

definition is_reserved_windows_name :: "string \<Rightarrow> bool" where
  "is_reserved_windows_name component =
     (let stem = to_ascii_uppercase
        (case split_once CHR ''.'' component of None \<Rightarrow> component | Some (candidate, _) \<Rightarrow> candidate)
      in stem \<in> {''CON'', ''PRN'', ''AUX'', ''NUL''}
         \<or> (case strip_prefix stem ''COM'' of None \<Rightarrow> False
             | Some suffix \<Rightarrow> suffix \<in> set reserved_suffixes)
         \<or> (case strip_prefix stem ''LPT'' of None \<Rightarrow> False
             | Some suffix \<Rightarrow> suffix \<in> set reserved_suffixes))"

definition forbidden_path_byte :: "char \<Rightarrow> bool" where
  "forbidden_path_byte byte =
     (byte < CHR 0x20 \<or> byte \<in> {CHR ''<'', CHR ''>'', CHR '':'', CHR 0x22, CHR ''|'', CHR ''?'', CHR ''*''})"

definition reserved_root_directory :: string where
  "reserved_root_directory = ''.7launcher-maintenance''"

definition forbidden_component :: "nat \<Rightarrow> string \<Rightarrow> bool" where
  "forbidden_component index component =
     (component = [] \<or> component \<in> {''.'', ''..''}
      \<or> last component \<in> {CHR '' '', CHR ''.''}
      \<or> is_reserved_windows_name component
      \<or> (index = 0 \<and> eq_ignore_ascii_case component reserved_root_directory))"

fun check_components :: "nat \<Rightarrow> string list \<Rightarrow> unit result" where
  "check_components index [] = Ok ()"
| "check_components index (c # cs) =
     (if forbidden_component index c
      then Err FileSetPath ''file-set path contains a forbidden component''
      else check_components (Suc index) cs)"

definition validate_relative_path :: "string \<Rightarrow> unit result" where
  "validate_relative_path path =
     (if path = [] \<or> length path > MAX_PATH_BYTES
         \<or> starts_with path ''/'' \<or> ends_with path ''/''
         \<or> CHR 0x5C \<in> set path \<or> list_ex forbidden_path_byte path
      then Err FileSetPath ''file-set path is not a bounded canonical relative path''
      else check_components 0 (split_on CHR ''/'' path))"

subsection \<open>The manifest checks\<close>

text \<open>
  The two loops of \<open>validate_file_set\<close>. The first threads the set of lower-cased paths
  and the declared size, the second continues with the same set.
\<close>

fun check_files :: "external \<Rightarrow> string list \<Rightarrow> u64 \<Rightarrow> file_entry list \<Rightarrow> string list result" where
  "check_files X paths declared_size [] = Ok paths"
| "check_files X paths declared_size (e # es) =
     and_then (validate_relative_path (entry_path e)) (\<lambda>_.
       let normalized = to_lowercase X (entry_path e) in
       if normalized \<in> set paths then Err FileSetPath ''file-set paths must be unique''
       else
         and_then (decode_lower_hex 32 (entry_sha256 e) FileSetHash) (\<lambda>_.
         and_then (ok_or (checked_add declared_size (entry_size e))
           (maintenance_error_new FileSetLimit ''declared payload size overflowed'')) (\<lambda>total.
         if total > MAX_DECLARED_PAYLOAD_BYTES
         then Err FileSetLimit ''declared payload exceeds the configured bound''
         else check_files X (normalized # paths) total es)))"

fun check_remove_files :: "external \<Rightarrow> string list \<Rightarrow> string list \<Rightarrow> unit result" where
  "check_remove_files X paths [] = Ok ()"
| "check_remove_files X paths (p # ps) =
     and_then (validate_relative_path p) (\<lambda>_.
       if to_lowercase X p \<in> set paths
       then Err FileSetPath ''create/replace and remove paths must not overlap''
       else check_remove_files X (to_lowercase X p # paths) ps)"

definition validate_file_set :: "external \<Rightarrow> file_set \<Rightarrow> string \<Rightarrow> unit result" where
  "validate_file_set X f expected =
     (if file_set_generation f = 0 \<or> \<not> valid_identifier (file_set_product_id f)
      then Err JsonInvalid ''file-set generation or product ID is invalid''
      else if file_set_product_id f \<noteq> expected
      then Err ProductMismatch ''file set does not belong to the registered product''
      else
        and_then (ok_or (usize_checked_add (length (files f)) (length (remove_files f)))
          (maintenance_error_new FileSetLimit ''file-set entry count overflowed'')) (\<lambda>entry_count.
        if entry_count = 0 \<or> entry_count > MAX_FILE_ENTRIES
        then Err FileSetLimit ''file-set entry count is outside the allowed range''
        else and_then (check_files X [] 0 (files f)) (\<lambda>paths.
          check_remove_files X paths (remove_files f))))"

text \<open>The generation rule that file sets and registry sets share, with its error code.\<close>

definition check_generation ::
  "error_code \<Rightarrow> string \<Rightarrow> string \<Rightarrow> generation_record option \<Rightarrow> u64 \<Rightarrow> bytes \<Rightarrow> unit result"
where
  "check_generation rollback older reused previous generation digest =
     (case previous of
        None \<Rightarrow> Ok ()
      | Some p \<Rightarrow>
          if generation < record_generation p then Err rollback older
          else if generation = record_generation p \<and> digest \<noteq> record_digest p
          then Err GenerationConflict reused
          else Ok ())"

definition verify_file_set ::
  "external \<Rightarrow> (string \<Rightarrow> file_set option) \<Rightarrow> string \<Rightarrow> verified_keyring \<Rightarrow> file_set_acceptance
   \<Rightarrow> verified_file_set result"
where
  "verify_file_set X from_slice bytes keyring acceptance =
     and_then (parse_canonical X from_slice (\<lambda>f. Some (file_set_to_value f)) bytes
         MAX_MANIFEST_BYTES) (\<lambda>f.
     if file_set_kind f \<noteq> FILE_SET_KIND \<or> file_set_schema f \<noteq> FILE_SET_SCHEMA
     then Err JsonInvalid ''file-set kind or schema is unsupported''
     else if \<not> valid_identifier (file_set_key_id f)
     then Err JsonInvalid ''file-set key ID is invalid''
     else
       and_then (canonical_json X (file_set_payload f)) (\<lambda>payload_bytes.
       and_then (decode_lower_hex 64 (file_set_signature f) TrustSignature) (\<lambda>signature.
       and_then (release_verifying_key X keyring (file_set_key_id f)) (\<lambda>key.
       and_then (ensure (verify_strict X key
           (signing_message FILE_SET_SIGNING_DOMAIN payload_bytes) signature)
         (maintenance_error_new TrustSignature ''file-set signature is invalid'')) (\<lambda>_.
       and_then (validate_file_set X f (expected_product_id acceptance)) (\<lambda>_.
       let digest = sha256 X bytes in
       and_then (check_generation FileSetRollback
           ''file-set generation is older than the accepted generation''
           ''file-set generation was reused with another digest''
           (previous_file_set acceptance) (file_set_generation f) digest) (\<lambda>_.
         Ok \<lparr>verified_file_set = f, file_set_digest = digest\<rparr>)))))))"

subsection \<open>What a valid relative path is\<close>

definition relative_path_wf :: "string \<Rightarrow> bool" where
  "relative_path_wf path \<longleftrightarrow>
     path \<noteq> [] \<and> length path \<le> 1024 \<and> CHR 0x5C \<notin> set path
     \<and> (\<forall>c \<in> set path. \<not> forbidden_path_byte c)
     \<and> (\<forall>c \<in> set (split_on CHR ''/'' path). \<not> forbidden_component 1 c)
     \<and> \<not> eq_ignore_ascii_case (hd (split_on CHR ''/'' path)) reserved_root_directory"

lemma forbidden_component_0:
  "forbidden_component 0 c \<longleftrightarrow>
     forbidden_component 1 c \<or> eq_ignore_ascii_case c reserved_root_directory"
  by (auto simp: forbidden_component_def)

lemma check_components_Suc:
  "check_components (Suc i) cs = Ok () \<longleftrightarrow> (\<forall>c \<in> set cs. \<not> forbidden_component 1 c)"
  by (induction cs arbitrary: i) (auto simp: forbidden_component_def)

lemma validate_relative_path_Ok: "validate_relative_path p = Ok () \<longleftrightarrow> relative_path_wf p"
proof (cases "p = []")
  case False
  obtain c cs where cs: "split_on CHR ''/'' p = c # cs" by (cases "split_on CHR ''/'' p") auto
  have "\<not> starts_with p ''/'' \<and> \<not> ends_with p ''/''"
    if "\<forall>w \<in> set (split_on CHR ''/'' p). \<not> forbidden_component 1 w"
    using that split_on_edges [OF False, of "CHR ''/''"]
    by (auto simp: starts_with_char ends_with_char forbidden_component_def)
  moreover have "check_components 0 (c # cs) = Ok () \<longleftrightarrow>
      (\<forall>w \<in> set (c # cs). \<not> forbidden_component 1 w)
      \<and> \<not> eq_ignore_ascii_case c reserved_root_directory"
    using check_components_Suc [of 0 cs] by (auto simp: forbidden_component_0)
  ultimately show ?thesis
    unfolding validate_relative_path_def relative_path_wf_def cs
    by (auto simp: MAX_PATH_BYTES_def list_ex_iff)
qed (simp add: validate_relative_path_def relative_path_wf_def)

lemma check_components_code: "check_components i cs = Inl e \<Longrightarrow> code e = FileSetPath"
  by (induction i cs rule: check_components.induct) (auto split: if_splits)

lemma validate_relative_path_code: "validate_relative_path p = Inl e \<Longrightarrow> code e = FileSetPath"
  by (auto simp: validate_relative_path_def dest: check_components_code split: if_splits)



subsection \<open>What an accepted file set is\<close>

definition file_set_wf :: "external \<Rightarrow> file_set \<Rightarrow> string \<Rightarrow> bool" where
  "file_set_wf X f expected \<longleftrightarrow>
     0 < file_set_generation f \<and> valid_identifier (file_set_product_id f)
     \<and> file_set_product_id f = expected
     \<and> 0 < length (files f) + length (remove_files f)
     \<and> length (files f) + length (remove_files f) \<le> 100000
     \<and> list_all relative_path_wf (map entry_path (files f) @ remove_files f)
     \<and> distinct (map (to_lowercase X) (map entry_path (files f) @ remove_files f))
     \<and> (\<forall>e \<in> set (files f). \<exists>d. decode_lower_hex 32 (entry_sha256 e) FileSetHash = Ok d)
     \<and> (\<Sum>e \<leftarrow> files f. unat (entry_size e)) \<le> 2 * 1024 ^ 4"

lemma unat_max_payload: "unat MAX_DECLARED_PAYLOAD_BYTES = 2 * 1024 ^ 4"
  by (simp add: MAX_DECLARED_PAYLOAD_BYTES_def)

lemma check_files_Ok:
  "unat declared \<le> 2 * 1024 ^ 4 \<Longrightarrow> check_files X paths declared es = Ok paths' \<longleftrightarrow>
     paths' = rev (map (to_lowercase X \<circ> entry_path) es) @ paths
     \<and> (\<forall>e \<in> set es. relative_path_wf (entry_path e)
           \<and> (\<exists>d. decode_lower_hex 32 (entry_sha256 e) FileSetHash = Ok d))
     \<and> distinct (map (to_lowercase X \<circ> entry_path) es)
     \<and> set (map (to_lowercase X \<circ> entry_path) es) \<inter> set paths = {}
     \<and> unat declared + (\<Sum>e \<leftarrow> es. unat (entry_size e)) \<le> 2 * 1024 ^ 4"
proof (induction es arbitrary: paths declared paths')
  case (Cons e es)
  show ?case
  proof (cases "unat declared + unat (entry_size e) \<le> 2 * 1024 ^ 4")
    case True
    then obtain t where t: "checked_add declared (entry_size e) = Some t"
      by (simp add: checked_add_def)
    then have ut: "unat t = unat declared + unat (entry_size e)" by (rule checked_add_Some)
    with True have le: "\<not> MAX_DECLARED_PAYLOAD_BYTES < t" and ut': "unat t \<le> 2 * 1024 ^ 4"
      by (simp_all add: word_less_nat_alt unat_max_payload)
    show ?thesis
      using t le Cons.IH [OF ut'] ut
      by (auto simp: result_simps validate_relative_path_Ok Let_def add.assoc)
  next
    case False
    have "check_files X paths declared (e # es) \<noteq> Ok paths'"
    proof (cases "checked_add declared (entry_size e)")
      case (Some t)
      then have "unat t = unat declared + unat (entry_size e)" by (rule checked_add_Some)
      with False have "MAX_DECLARED_PAYLOAD_BYTES < t"
        by (simp add: word_less_nat_alt unat_max_payload)
      with Some show ?thesis by (auto simp: result_simps Let_def)
    qed (auto simp: result_simps Let_def)
    with False show ?thesis by simp
  qed
qed auto

lemma check_remove_files_Ok:
  "check_remove_files X paths ps = Ok () \<longleftrightarrow>
     list_all relative_path_wf ps \<and> distinct (map (to_lowercase X) ps)
     \<and> set (map (to_lowercase X) ps) \<inter> set paths = {}"
  by (induction X paths ps rule: check_remove_files.induct)
    (auto simp: result_simps validate_relative_path_Ok)

lemma validate_file_set_Ok: "validate_file_set X f expected = Ok () \<longleftrightarrow> file_set_wf X f expected"
proof -
  have entries: "(\<exists>n. usize_checked_add a b = Some n \<and> n \<noteq> 0 \<and> n \<le> MAX_FILE_ENTRIES) \<longleftrightarrow>
      0 < a + b \<and> a + b \<le> 100000" for a b
    by (auto simp: usize_checked_add_def MAX_FILE_ENTRIES_def)
  have files: "check_files X [] 0 (files f) = Ok paths \<longleftrightarrow>
      paths = rev (map (to_lowercase X \<circ> entry_path) (files f))
      \<and> (\<forall>e \<in> set (files f). relative_path_wf (entry_path e)
           \<and> (\<exists>d. decode_lower_hex 32 (entry_sha256 e) FileSetHash = Ok d))
      \<and> distinct (map (to_lowercase X \<circ> entry_path) (files f))
      \<and> (\<Sum>e \<leftarrow> files f. unat (entry_size e)) \<le> 2 * 1024 ^ 4" for paths
    using check_files_Ok [of 0 X "[]" "files f"] by simp
  have "validate_file_set X f expected = Ok () \<longleftrightarrow>
      file_set_generation f \<noteq> 0 \<and> valid_identifier (file_set_product_id f)
      \<and> file_set_product_id f = expected
      \<and> (\<exists>n. usize_checked_add (length (files f)) (length (remove_files f)) = Some n
           \<and> n \<noteq> 0 \<and> n \<le> MAX_FILE_ENTRIES)
      \<and> (\<exists>paths. check_files X [] 0 (files f) = Ok paths
           \<and> check_remove_files X paths (remove_files f) = Ok ())"
    unfolding validate_file_set_def by (auto simp: result_simps not_le split: if_splits)
  also have "\<dots> \<longleftrightarrow> file_set_wf X f expected"
    unfolding files check_remove_files_Ok file_set_wf_def entries
    by (auto simp: word_gt_0 list_all_iff comp_def)
  finally show ?thesis .
qed

lemma check_generation_Ok:
  "check_generation c m1 m2 prev g d = Ok () \<longleftrightarrow>
     (\<forall>p. prev = Some p \<longrightarrow> record_generation p \<le> g
        \<and> (g = record_generation p \<longrightarrow> d = record_digest p))"
  by (auto simp: check_generation_def not_less split: option.splits)

lemma verify_file_set_Ok:
  "verify_file_set X fs bytes kr acc = Ok vf \<longleftrightarrow>
     (\<exists>f pb sig key. length bytes \<le> MAX_MANIFEST_BYTES \<and> fs bytes = Some f
        \<and> canonical_json X (file_set_to_value f) = Ok bytes
        \<and> file_set_kind f = FILE_SET_KIND \<and> file_set_schema f = FILE_SET_SCHEMA
        \<and> valid_identifier (file_set_key_id f)
        \<and> canonical_json X (file_set_payload f) = Ok pb
        \<and> decode_lower_hex 64 (file_set_signature f) TrustSignature = Ok sig
        \<and> release_verifying_key X kr (file_set_key_id f) = Ok key
        \<and> verify_strict X key (signing_message FILE_SET_SIGNING_DOMAIN pb) sig
        \<and> file_set_wf X f (expected_product_id acc)
        \<and> (\<forall>p. previous_file_set acc = Some p \<longrightarrow> record_generation p \<le> file_set_generation f
             \<and> (file_set_generation f = record_generation p \<longrightarrow> sha256 X bytes = record_digest p))
        \<and> vf = \<lparr>verified_file_set = f, file_set_digest = sha256 X bytes\<rparr>)"
  by (auto simp: verify_file_set_def result_simps parse_canonical_Ok Let_def
      validate_file_set_Ok check_generation_Ok split: if_splits)

subsection \<open>A concrete file set\<close>

definition sample_file_set :: file_set where
  "sample_file_set =
     \<lparr>files = [\<lparr>entry_path = ''bin/game.exe'', entry_sha256 = encode_lower_hex sample_key,
        entry_size = 5\<rparr>],
      file_set_generation = 4, file_set_key_id = ''release-1'', file_set_kind = FILE_SET_KIND,
      file_set_product_id = ''sample-app'', remove_files = [''old.dll''], file_set_schema = 1,
      file_set_signature = encode_lower_hex (sample_key @ sample_key)\<rparr>"

definition sample_file_set_bytes :: string where
  "sample_file_set_bytes = sample_text (file_set_to_value sample_file_set)"

definition sample_verified_file_set :: verified_file_set where
  "sample_verified_file_set =
     \<lparr>verified_file_set = sample_file_set,
      file_set_digest = sha256 sample_external sample_file_set_bytes\<rparr>"

lemma file_set_no_float [simp]:
  "\<not> json_has_float (file_set_to_value f)" "\<not> json_has_float (file_set_payload f)"
  by (auto simp: file_set_to_value_def file_set_payload_def file_entry_to_value_def list_ex_iff)

lemma sample_paths_wf: "relative_path_wf ''bin/game.exe''" "relative_path_wf ''old.dll''"
  unfolding validate_relative_path_Ok [symmetric] by code_simp+

lemma sample_file_set_wf: "file_set_wf sample_external sample_file_set ''sample-app''"
  by (simp add: file_set_wf_def sample_file_set_def valid_identifier_def identifier_char_def
      ascii_defs sample_paths_wf to_ascii_lowercase_def lower_char_def sample_key_def
      del: encode_lower_hex_simps replicate.simps)

lemma sample_file_set_length: "length sample_file_set_bytes \<le> MAX_MANIFEST_BYTES"
  by (simp add: sample_file_set_bytes_def sample_text_simps file_set_to_value_def
      file_entry_to_value_def sample_file_set_def FILE_SET_KIND_def sample_key_def
      MAX_MANIFEST_BYTES_def del: encode_lower_hex_simps)

lemma sample_release_key_found:
  "release_verifying_key sample_external sample_verified_keyring ''release-1'' = Ok sample_key"
  by (simp add: release_verifying_key_def sample_verified_keyring_def sample_keyring_def
      sample_release_key_def sample_key_def del: encode_lower_hex_simps)

lemma sample_file_set_verifies:
  "verify_file_set sample_external (\<lambda>_. Some sample_file_set) sample_file_set_bytes
     sample_verified_keyring \<lparr>expected_product_id = ''sample-app'', previous_file_set = None\<rparr>
   = Ok sample_verified_file_set"
  unfolding verify_file_set_Ok
  using sample_text_Ok [of "file_set_to_value sample_file_set"]
    sample_text_Ok [of "file_set_payload sample_file_set"] sample_file_set_length
    sample_file_set_wf sample_release_key_found
  by (simp add: sample_verified_file_set_def sample_file_set_bytes_def)
    (simp add: sample_file_set_def sample_key_def valid_identifier_def identifier_char_def
      ascii_defs FILE_SET_SCHEMA_def del: encode_lower_hex_simps)

subsection \<open>Properties\<close>







text \<open>
  C12: The anti-rollback rule decides every file set that verifies without a previous record:
  an older generation is refused as a rollback, the accepted generation with another digest
  as a conflict, and everything else gives the same verified file set.
\<close>

theorem file_set_generation_rule:
  assumes "verify_file_set X from_slice bytes kr
      \<lparr>expected_product_id = product, previous_file_set = None\<rparr> = Ok vf"
  shows "verify_file_set X from_slice bytes kr
      \<lparr>expected_product_id = product, previous_file_set = Some p\<rparr> =
    (if file_set_generation (verified_file_set vf) < record_generation p
     then Err FileSetRollback ''file-set generation is older than the accepted generation''
     else if file_set_generation (verified_file_set vf) = record_generation p
       \<and> file_set_digest vf \<noteq> record_digest p
     then Err GenerationConflict ''file-set generation was reused with another digest''
     else Ok vf)"
proof -
  from assms obtain f pb sig key where
    "parse_canonical X from_slice (\<lambda>f. Some (file_set_to_value f)) bytes MAX_MANIFEST_BYTES = Ok f"
    "file_set_kind f = FILE_SET_KIND" "file_set_schema f = FILE_SET_SCHEMA"
    "valid_identifier (file_set_key_id f)"
    "canonical_json X (file_set_payload f) = Ok pb"
    "decode_lower_hex 64 (file_set_signature f) TrustSignature = Ok sig"
    "release_verifying_key X kr (file_set_key_id f) = Ok key"
    "verify_strict X key (signing_message FILE_SET_SIGNING_DOMAIN pb) sig"
    "validate_file_set X f product = Ok ()"
    "vf = \<lparr>verified_file_set = f, file_set_digest = sha256 X bytes\<rparr>"
    by (auto simp: verify_file_set_def result_simps Let_def split: if_splits)
  then show ?thesis
    by (simp add: verify_file_set_def Let_def check_generation_def)
qed

theorem file_set_generation_rule_witness:
  "verify_file_set sample_external (\<lambda>_. Some sample_file_set) sample_file_set_bytes
     sample_verified_keyring
     \<lparr>expected_product_id = ''sample-app'',
       previous_file_set = Some \<lparr>record_generation = 5, record_digest = []\<rparr>\<rparr>
   = Err FileSetRollback ''file-set generation is older than the accepted generation''"
  by (subst file_set_generation_rule [OF sample_file_set_verifies])
    (simp add: sample_verified_file_set_def sample_file_set_def)





end
