(* ===== verification/Registry_Set.thy ===== *)
theory Registry_Set
  imports File_Set
begin

text \<open>
  \<open>src/registry_set.rs\<close>: signed registry sets, the names and data a set may carry, and the
  allowlist of values a registered scope may declare. The generation rule is the one of
  file sets with its own error code.
\<close>

definition REGISTRY_SET_KIND :: string where "REGISTRY_SET_KIND = ''7launcher-registry-set-v1''"
definition REGISTRY_SET_SCHEMA :: u64 where "REGISTRY_SET_SCHEMA = 1"

datatype registry_value_kind = KString | KDword | KBinary

record allowed_registry_value =
  allowed_name :: string
  allowed_type :: registry_value_kind

datatype registry_value =
    RegString (value_name: string) string
  | RegDword (value_name: string) u32
  | RegBinary (value_name: string) string

fun value_type :: "registry_value \<Rightarrow> registry_value_kind" where
  "value_type (RegString _ _) = KString"
| "value_type (RegDword _ _) = KDword"
| "value_type (RegBinary _ _) = KBinary"

record registry_set =
  registry_generation :: u64
  registry_key_id :: string
  registry_kind :: string
  registry_product_id :: string
  registry_schema :: u64
  registry_scope_id :: string
  registry_signature :: string
  registry_values :: "registry_value list"

record registry_set_acceptance =
  allowed_values :: "allowed_registry_value list"
  registry_expected_product_id :: string
  registry_expected_scope_id :: string
  previous_registry_set :: "generation_record option"

record verified_registry_set =
  verified_registry_set :: registry_set
  registry_set_digest :: bytes

text \<open>The derived \<open>Serialize\<close>: an internally tagged object, its members in key order.\<close>

fun registry_value_to_value :: "registry_value \<Rightarrow> json" where
  "registry_value_to_value (RegString name data) =
     JObject [(''data'', JString data), (''name'', JString name), (''type'', JString ''string'')]"
| "registry_value_to_value (RegDword name data) =
     JObject [(''data'', json_u64 (ucast data)), (''name'', JString name),
       (''type'', JString ''dword'')]"
| "registry_value_to_value (RegBinary name data) =
     JObject [(''data'', JString data), (''name'', JString name), (''type'', JString ''binary'')]"

definition registry_set_to_value :: "registry_set \<Rightarrow> json" where
  "registry_set_to_value r =
     JObject [(''generation'', json_u64 (registry_generation r)),
       (''keyId'', JString (registry_key_id r)),
       (''kind'', JString (registry_kind r)),
       (''productId'', JString (registry_product_id r)),
       (''schema'', json_u64 (registry_schema r)),
       (''scopeId'', JString (registry_scope_id r)),
       (''signature'', JString (registry_signature r)),
       (''values'', JArray (map registry_value_to_value (registry_values r)))]"

definition registry_set_payload :: "registry_set \<Rightarrow> json" where
  "registry_set_payload r =
     JObject [(''generation'', json_u64 (registry_generation r)),
       (''keyId'', JString (registry_key_id r)),
       (''kind'', JString (registry_kind r)),
       (''productId'', JString (registry_product_id r)),
       (''schema'', json_u64 (registry_schema r)),
       (''scopeId'', JString (registry_scope_id r)),
       (''values'', JArray (map registry_value_to_value (registry_values r)))]"

subsection \<open>Names and data\<close>

definition validate_registry_value_name :: "string \<Rightarrow> unit result" where
  "validate_registry_value_name v =
     (if v = [] \<or> length v > MAX_REGISTRY_VALUE_NAME_BYTES \<or> CHR 0x00 \<in> set v \<or> has_control v
      then Err RegistryValueInvalid ''registry value name is invalid''
      else Ok ())"

text \<open>The encoded bound is \<open>16384.div_ceil(3) * 4\<close>.\<close>

definition MAX_ENCODED_BYTES :: nat where
  "MAX_ENCODED_BYTES = ((MAX_REGISTRY_BINARY_BYTES + 2) div 3) * 4"

definition decode_registry_binary :: "external \<Rightarrow> string \<Rightarrow> bytes result" where
  "decode_registry_binary X data =
     (if length data > MAX_ENCODED_BYTES \<or> \<not> is_ascii data
      then Err RegistrySetLimit ''registry binary data exceeds the encoded bound''
      else
        and_then (ok_or (base64_decode X data)
          (maintenance_error_new JsonInvalid
            ''registry binary data is not valid canonical base64'')) (\<lambda>decoded.
        if length decoded > MAX_REGISTRY_BINARY_BYTES
        then Err RegistrySetLimit ''registry binary data exceeds the decoded bound''
        else if base64_encode X decoded \<noteq> data
        then Err JsonInvalid ''registry binary data is not canonical base64''
        else Ok decoded))"

definition EXECUTING_VALUE_NAMES :: "string list" where
  "EXECUTING_VALUE_NAMES =
     [''AppInit_DLLs'', ''AutoRun'', ''Debugger'', ''GlobalFlag'', ''LoadAppInit_DLLs'',
      ''MonitorProcess'', ''Shell'', ''StubPath'', ''Taskman'', ''Userinit'', ''VerifierDlls'']"

fun check_allowed_values :: "external \<Rightarrow> string list \<Rightarrow> allowed_registry_value list \<Rightarrow> unit result"
where
  "check_allowed_values X names [] = Ok ()"
| "check_allowed_values X names (v # vs) =
     and_then (validate_registry_value_name (allowed_name v)) (\<lambda>_.
       if list_ex (eq_ignore_ascii_case (allowed_name v)) EXECUTING_VALUE_NAMES
       then Err RegistryValueInvalid
         ''registry value name is one that Windows uses to start programs''
       else if to_lowercase X (allowed_name v) \<in> set names
       then Err RegistryValueInvalid ''registry scope value names must be unique''
       else check_allowed_values X (to_lowercase X (allowed_name v) # names) vs)"

definition validate_allowed_registry_values ::
  "external \<Rightarrow> allowed_registry_value list \<Rightarrow> unit result"
where
  "validate_allowed_registry_values X vs =
     (if vs = [] \<or> length vs > MAX_REGISTRY_ENTRIES
      then Err RegistrySetLimit ''registry scope allowlist is outside the allowed range''
      else check_allowed_values X [] vs)"

subsection \<open>The set checks\<close>

text \<open>The data checks of one value: the two \<open>if let\<close> branches of the loop.\<close>

fun check_value_data :: "external \<Rightarrow> registry_value \<Rightarrow> unit result" where
  "check_value_data X (RegString _ data) =
     (if length data > MAX_REGISTRY_STRING_BYTES \<or> CHR 0x00 \<in> set data
      then Err RegistrySetLimit ''registry string data exceeds the bound or contains NUL''
      else Ok ())"
| "check_value_data X (RegDword _ _) = Ok ()"
| "check_value_data X (RegBinary _ data) =
     and_then (decode_registry_binary X data) (\<lambda>_. Ok ())"

definition value_allowed :: "allowed_registry_value list \<Rightarrow> registry_value \<Rightarrow> bool" where
  "value_allowed allowed v =
     list_ex (\<lambda>c. eq_ignore_ascii_case (allowed_name c) (value_name v)
       \<and> allowed_type c = value_type v) allowed"

fun check_values ::
  "external \<Rightarrow> allowed_registry_value list \<Rightarrow> string list \<Rightarrow> registry_value list \<Rightarrow> unit result"
where
  "check_values X allowed names [] = Ok ()"
| "check_values X allowed names (v # vs) =
     and_then (validate_registry_value_name (value_name v)) (\<lambda>_.
       if to_lowercase X (value_name v) \<in> set names
       then Err RegistryValueInvalid ''registry-set value names must be unique''
       else and_then (check_value_data X v) (\<lambda>_.
         if \<not> value_allowed allowed v
         then Err RegistryScopeUnauthorized
           ''registry-set value is outside the registered allowlist''
         else check_values X allowed (to_lowercase X (value_name v) # names) vs))"

definition validate_registry_set ::
  "external \<Rightarrow> registry_set \<Rightarrow> registry_set_acceptance \<Rightarrow> unit result"
where
  "validate_registry_set X r acceptance =
     (if registry_generation r = 0 \<or> \<not> valid_identifier (registry_product_id r)
         \<or> \<not> valid_identifier (registry_scope_id r)
      then Err JsonInvalid ''registry-set generation, product ID, or scope ID is invalid''
      else if registry_product_id r \<noteq> registry_expected_product_id acceptance
      then Err ProductMismatch ''registry set does not belong to the registered product''
      else if registry_scope_id r \<noteq> registry_expected_scope_id acceptance
      then Err RegistryScopeInvalid ''registry set does not belong to the registered scope''
      else if registry_values r = [] \<or> length (registry_values r) > MAX_REGISTRY_ENTRIES
      then Err RegistrySetLimit ''registry-set value count is outside the allowed range''
      else check_values X (allowed_values acceptance) [] (registry_values r))"

definition verify_registry_set ::
  "external \<Rightarrow> (string \<Rightarrow> registry_set option) \<Rightarrow> string \<Rightarrow> verified_keyring
   \<Rightarrow> registry_set_acceptance \<Rightarrow> verified_registry_set result"
where
  "verify_registry_set X from_slice bytes keyring acceptance =
     and_then (parse_canonical X from_slice (\<lambda>r. Some (registry_set_to_value r)) bytes
         MAX_REGISTRY_SET_BYTES) (\<lambda>r.
     if registry_kind r \<noteq> REGISTRY_SET_KIND \<or> registry_schema r \<noteq> REGISTRY_SET_SCHEMA
     then Err JsonInvalid ''registry-set kind or schema is unsupported''
     else if \<not> valid_identifier (registry_key_id r)
     then Err JsonInvalid ''registry-set key ID is invalid''
     else
       and_then (canonical_json X (registry_set_payload r)) (\<lambda>payload_bytes.
       and_then (decode_lower_hex 64 (registry_signature r) TrustSignature) (\<lambda>signature.
       and_then (release_verifying_key X keyring (registry_key_id r)) (\<lambda>key.
       and_then (ensure (verify_strict X key
           (signing_message REGISTRY_SET_SIGNING_DOMAIN payload_bytes) signature)
         (maintenance_error_new TrustSignature ''registry-set signature is invalid'')) (\<lambda>_.
       and_then (validate_registry_set X r acceptance) (\<lambda>_.
       let digest = sha256 X bytes in
       and_then (check_generation RegistrySetRollback
           ''registry-set generation is older than the accepted generation''
           ''registry-set generation was reused with another digest''
           (previous_registry_set acceptance) (registry_generation r) digest) (\<lambda>_.
       Ok \<lparr>verified_registry_set = r, registry_set_digest = digest\<rparr>)))))))"


subsection \<open>What an accepted registry set is\<close>

lemma eq_ignore_ascii_case_sym: "eq_ignore_ascii_case s t \<longleftrightarrow> eq_ignore_ascii_case t s"
  by (auto simp: eq_ignore_ascii_case_def)

lemma eq_ignore_ascii_case_trans:
  "eq_ignore_ascii_case s t \<Longrightarrow> eq_ignore_ascii_case t u \<Longrightarrow> eq_ignore_ascii_case s u"
  by (simp add: eq_ignore_ascii_case_def)

definition registry_value_name_wf :: "string \<Rightarrow> bool" where
  "registry_value_name_wf v \<longleftrightarrow> v \<noteq> [] \<and> length v \<le> 256 \<and> \<not> has_control v"

lemma validate_registry_value_name_Ok [result_simps]:
  "validate_registry_value_name v = Ok () \<longleftrightarrow> registry_value_name_wf v"
  by (auto simp: validate_registry_value_name_def registry_value_name_wf_def
      MAX_REGISTRY_VALUE_NAME_BYTES_def dest: nul_is_control)

lemma decode_registry_binary_Ok:
  "decode_registry_binary X data = Ok b \<longleftrightarrow>
     length data \<le> 21848 \<and> is_ascii data \<and> base64_decode X data = Some b
     \<and> length b \<le> 16384 \<and> base64_encode X b = data"
  by (auto simp: decode_registry_binary_def MAX_ENCODED_BYTES_def MAX_REGISTRY_BINARY_BYTES_def
      result_simps)

text \<open>A declared allowlist: bounded, valid names, none that starts programs, no name twice.\<close>

definition allowlist_wf :: "external \<Rightarrow> allowed_registry_value list \<Rightarrow> bool" where
  "allowlist_wf X vs \<longleftrightarrow>
     vs \<noteq> [] \<and> length vs \<le> 32
     \<and> (\<forall>v \<in> set vs. registry_value_name_wf (allowed_name v)
          \<and> (\<forall>n \<in> set EXECUTING_VALUE_NAMES. \<not> eq_ignore_ascii_case (allowed_name v) n))
     \<and> distinct (map (to_lowercase X \<circ> allowed_name) vs)"

lemma check_allowed_values_Ok:
  "check_allowed_values X names vs = Ok () \<longleftrightarrow>
     (\<forall>v \<in> set vs. registry_value_name_wf (allowed_name v)
        \<and> (\<forall>n \<in> set EXECUTING_VALUE_NAMES. \<not> eq_ignore_ascii_case (allowed_name v) n))
     \<and> distinct (map (to_lowercase X \<circ> allowed_name) vs)
     \<and> set (map (to_lowercase X \<circ> allowed_name) vs) \<inter> set names = {}"
  by (induction X names vs rule: check_allowed_values.induct)
    (auto simp: result_simps list_ex_iff)

lemma validate_allowed_registry_values_Ok [result_simps]:
  "validate_allowed_registry_values X vs = Ok () \<longleftrightarrow> allowlist_wf X vs"
  by (auto simp: validate_allowed_registry_values_def allowlist_wf_def check_allowed_values_Ok
      MAX_REGISTRY_ENTRIES_def)

fun value_data_wf :: "external \<Rightarrow> registry_value \<Rightarrow> bool" where
  "value_data_wf X (RegString _ data) \<longleftrightarrow> length data \<le> 16384 \<and> CHR 0x00 \<notin> set data"
| "value_data_wf X (RegDword _ _) \<longleftrightarrow> True"
| "value_data_wf X (RegBinary _ data) \<longleftrightarrow>
     (\<exists>b. base64_decode X data = Some b \<and> base64_encode X b = data \<and> length b \<le> 16384
        \<and> length data \<le> 21848 \<and> is_ascii data)"

lemma check_value_data_Ok [result_simps]: "check_value_data X v = Ok () \<longleftrightarrow> value_data_wf X v"
  by (cases v) (auto simp: result_simps decode_registry_binary_Ok MAX_REGISTRY_STRING_BYTES_def)

definition registry_set_wf :: "external \<Rightarrow> registry_set \<Rightarrow> registry_set_acceptance \<Rightarrow> bool" where
  "registry_set_wf X r acc \<longleftrightarrow>
     0 < registry_generation r \<and> valid_identifier (registry_product_id r)
     \<and> valid_identifier (registry_scope_id r)
     \<and> registry_product_id r = registry_expected_product_id acc
     \<and> registry_scope_id r = registry_expected_scope_id acc
     \<and> registry_values r \<noteq> [] \<and> length (registry_values r) \<le> 32
     \<and> (\<forall>v \<in> set (registry_values r). registry_value_name_wf (value_name v) \<and> value_data_wf X v
          \<and> (\<exists>c \<in> set (allowed_values acc). eq_ignore_ascii_case (allowed_name c) (value_name v)
                \<and> allowed_type c = value_type v))
     \<and> distinct (map (to_lowercase X \<circ> value_name) (registry_values r))"

lemma check_values_Ok:
  "check_values X allowed names vs = Ok () \<longleftrightarrow>
     (\<forall>v \<in> set vs. registry_value_name_wf (value_name v) \<and> value_data_wf X v
        \<and> (\<exists>c \<in> set allowed. eq_ignore_ascii_case (allowed_name c) (value_name v)
              \<and> allowed_type c = value_type v))
     \<and> distinct (map (to_lowercase X \<circ> value_name) vs)
     \<and> set (map (to_lowercase X \<circ> value_name) vs) \<inter> set names = {}"
  by (induction X allowed names vs rule: check_values.induct)
    (auto simp: result_simps value_allowed_def list_ex_iff)

lemma validate_registry_set_Ok [result_simps]:
  "validate_registry_set X r acc = Ok () \<longleftrightarrow> registry_set_wf X r acc"
  by (auto simp: validate_registry_set_def registry_set_wf_def check_values_Ok
      MAX_REGISTRY_ENTRIES_def word_gt_0)

lemma verify_registry_set_Ok:
  "verify_registry_set X fs bytes kr acc = Ok vr \<longleftrightarrow>
     (\<exists>r pb sig key. length bytes \<le> MAX_REGISTRY_SET_BYTES \<and> fs bytes = Some r
        \<and> canonical_json X (registry_set_to_value r) = Ok bytes
        \<and> registry_kind r = REGISTRY_SET_KIND \<and> registry_schema r = REGISTRY_SET_SCHEMA
        \<and> valid_identifier (registry_key_id r)
        \<and> canonical_json X (registry_set_payload r) = Ok pb
        \<and> decode_lower_hex 64 (registry_signature r) TrustSignature = Ok sig
        \<and> release_verifying_key X kr (registry_key_id r) = Ok key
        \<and> verify_strict X key (signing_message REGISTRY_SET_SIGNING_DOMAIN pb) sig
        \<and> registry_set_wf X r acc
        \<and> (\<forall>p. previous_registry_set acc = Some p \<longrightarrow> record_generation p \<le> registry_generation r
             \<and> (registry_generation r = record_generation p \<longrightarrow> sha256 X bytes = record_digest p))
        \<and> vr = \<lparr>verified_registry_set = r, registry_set_digest = sha256 X bytes\<rparr>)"
  by (auto simp: verify_registry_set_def result_simps parse_canonical_Ok Let_def
      check_generation_Ok split: if_splits)

subsection \<open>A concrete registry set\<close>

definition sample_allowed :: "allowed_registry_value list" where
  "sample_allowed =
     [\<lparr>allowed_name = ''Language'', allowed_type = KString\<rparr>,
      \<lparr>allowed_name = ''Width'', allowed_type = KDword\<rparr>]"

definition sample_registry_set :: registry_set where
  "sample_registry_set =
     \<lparr>registry_generation = 7, registry_key_id = ''release-1'', registry_kind = REGISTRY_SET_KIND,
      registry_product_id = ''sample-app'', registry_schema = 1, registry_scope_id = ''scope-1'',
      registry_signature = encode_lower_hex (sample_key @ sample_key),
      registry_values = [RegString ''language'' ''en'', RegDword ''Width'' 800]\<rparr>"

definition sample_registry_acceptance :: registry_set_acceptance where
  "sample_registry_acceptance =
     \<lparr>allowed_values = sample_allowed, registry_expected_product_id = ''sample-app'',
      registry_expected_scope_id = ''scope-1'', previous_registry_set = None\<rparr>"

definition sample_registry_bytes :: string where
  "sample_registry_bytes = sample_text (registry_set_to_value sample_registry_set)"

definition sample_verified_registry_set :: verified_registry_set where
  "sample_verified_registry_set =
     \<lparr>verified_registry_set = sample_registry_set,
      registry_set_digest = sha256 sample_external sample_registry_bytes\<rparr>"

lemma registry_set_no_float [simp]:
  "\<not> json_has_float (registry_set_to_value r)" "\<not> json_has_float (registry_set_payload r)"
proof -
  have "\<not> json_has_float (registry_value_to_value v)" for v by (cases v) simp_all
  then show "\<not> json_has_float (registry_set_to_value r)" "\<not> json_has_float (registry_set_payload r)"
    by (simp_all add: registry_set_to_value_def registry_set_payload_def list_ex_iff)
qed

lemma sample_allowed_wf: "allowlist_wf sample_external sample_allowed"
  by (simp add: allowlist_wf_def sample_allowed_def registry_value_name_wf_def
      EXECUTING_VALUE_NAMES_def eq_ignore_ascii_case_def to_ascii_lowercase_def lower_char_def
      ascii_defs)

lemma sample_registry_set_wf:
  "registry_set_wf sample_external sample_registry_set sample_registry_acceptance"
  by (simp add: registry_set_wf_def sample_registry_set_def sample_registry_acceptance_def
      sample_allowed_def registry_value_name_wf_def eq_ignore_ascii_case_def
      to_ascii_lowercase_def lower_char_def ascii_defs valid_identifier_def identifier_char_def
      char_of_eq_iff)

lemma sample_registry_set_length: "length sample_registry_bytes \<le> MAX_REGISTRY_SET_BYTES"
  by (simp add: sample_registry_bytes_def sample_text_simps registry_set_to_value_def
      sample_registry_set_def REGISTRY_SET_KIND_def sample_key_def
      MAX_REGISTRY_SET_BYTES_def del: encode_lower_hex_simps)

lemma sample_registry_set_verifies:
  "verify_registry_set sample_external (\<lambda>_. Some sample_registry_set) sample_registry_bytes
     sample_verified_keyring sample_registry_acceptance = Ok sample_verified_registry_set"
  unfolding verify_registry_set_Ok
  using sample_text_Ok [of "registry_set_to_value sample_registry_set"]
    sample_text_Ok [of "registry_set_payload sample_registry_set"] sample_registry_set_length
    sample_registry_set_wf sample_release_key_found
  by (simp add: sample_verified_registry_set_def sample_registry_bytes_def)
    (simp add: sample_registry_set_def sample_key_def valid_identifier_def identifier_char_def
      ascii_defs REGISTRY_SET_SCHEMA_def sample_registry_acceptance_def del: encode_lower_hex_simps)

subsection \<open>Properties\<close>

text \<open>
  C15: A registry set is accepted exactly when it is the canonical text of a set of the
  supported kind, signed in the registry-set domain by a release key of the keyring, for the
  expected product and scope, with 1 to 32 uniquely named values that are well formed, in
  the allowlist with their type, and when its generation does not roll back the record.
\<close>

theorem verify_registry_set_iff:
  "verify_registry_set X from_slice bytes kr acc
     = Ok \<lparr>verified_registry_set = r, registry_set_digest = digest\<rparr> \<longleftrightarrow>
   length bytes \<le> 65536 \<and> from_slice bytes = Some r
   \<and> canonical_json X (registry_set_to_value r) = Ok bytes \<and> digest = sha256 X bytes
   \<and> registry_kind r = ''7launcher-registry-set-v1'' \<and> registry_schema r = 1
   \<and> valid_identifier (registry_key_id r) \<and> registry_set_wf X r acc
   \<and> (\<exists>pb sig key. canonical_json X (registry_set_payload r) = Ok pb
        \<and> registry_signature r = encode_lower_hex sig \<and> length sig = 64
        \<and> release_verifying_key X kr (registry_key_id r) = Ok key
        \<and> verify_strict X key (signing_message ''7launcher-registry-set-v1'' pb) sig)
   \<and> (case previous_registry_set acc of None \<Rightarrow> True
      | Some p \<Rightarrow> record_generation p < registry_generation r
          \<or> (record_generation p = registry_generation r \<and> digest = record_digest p))"
proof -
  have prev: "(\<forall>p. prev = Some p \<longrightarrow> record_generation p \<le> g \<and> (g = record_generation p \<longrightarrow> d = record_digest p))
      \<longleftrightarrow> (case prev of None \<Rightarrow> True | Some p \<Rightarrow> record_generation p < g
            \<or> (record_generation p = g \<and> d = record_digest p))" for prev g d
    by (cases prev) (auto simp: le_less)
  show ?thesis
    unfolding verify_registry_set_Ok decode_lower_hex_Ok prev REGISTRY_SET_KIND_def
      REGISTRY_SET_SCHEMA_def REGISTRY_SET_SIGNING_DOMAIN_def MAX_REGISTRY_SET_BYTES_def
    by auto
qed

text \<open>
  C16: No accepted registry set writes a value that Windows reads to start a program: when
  the scope's allowlist passed its own check at registration, no value of a set that verifies
  against it has, ignoring ASCII case, one of the eleven executing names.
\<close>

theorem accepted_values_never_execute:
  assumes "validate_allowed_registry_values X (allowed_values acc) = Ok ()"
    and "verify_registry_set X from_slice bytes kr acc = Ok vr"
    and "v \<in> set (registry_values (verified_registry_set vr))"
  shows "\<forall>n \<in> set EXECUTING_VALUE_NAMES. \<not> eq_ignore_ascii_case (value_name v) n"
proof -
  from assms(2) have "registry_set_wf X (verified_registry_set vr) acc"
    unfolding verify_registry_set_Ok by auto
  with assms(3) obtain c where c: "c \<in> set (allowed_values acc)"
    "eq_ignore_ascii_case (allowed_name c) (value_name v)"
    unfolding registry_set_wf_def by blast
  moreover have "\<forall>n \<in> set EXECUTING_VALUE_NAMES. \<not> eq_ignore_ascii_case (allowed_name c) n"
    using assms(1) c(1) by (simp add: validate_allowed_registry_values_Ok allowlist_wf_def)
  ultimately show ?thesis by (meson eq_ignore_ascii_case_trans)
qed

theorem accepted_values_never_execute_witness:
  "list_all (\<lambda>n. \<not> eq_ignore_ascii_case ''language'' n) EXECUTING_VALUE_NAMES"
proof -
  have "validate_allowed_registry_values sample_external
      (allowed_values sample_registry_acceptance) = Ok ()"
    using sample_allowed_wf
    by (simp add: validate_allowed_registry_values_Ok sample_registry_acceptance_def)
  from accepted_values_never_execute [OF this sample_registry_set_verifies,
      of "RegString ''language'' ''en''"]
  show ?thesis
    by (simp add: sample_verified_registry_set_def sample_registry_set_def list_all_iff)
qed

text \<open>
  C17: Binary data has one accepted spelling: decoding returns at most 16384 bytes, and two
  texts that decode to the same bytes are the same text, so a signed value determines the
  bytes written and the bytes determine the signed value.
\<close>

theorem decode_registry_binary_canonical:
  assumes "decode_registry_binary X data = Ok b"
  shows "length b \<le> 16384 \<and> data = base64_encode X b
    \<and> {data'. decode_registry_binary X data' = Ok b} = {data}"
  using assms by (auto simp: decode_registry_binary_Ok)

theorem decode_registry_binary_canonical_witness:
  "decode_registry_binary sample_external ''07'' = Ok [7]
   \<and> {data'. decode_registry_binary sample_external data' = Ok [7]} = {''07''}"
proof -
  have "decode_registry_binary sample_external ''07'' = Ok [7]"
    unfolding decode_registry_binary_Ok by code_simp
  from this decode_registry_binary_canonical [OF this] show ?thesis by blast
qed

end
