(* ===== verification/Registry_Scopes.thy ===== *)
theory Registry_Scopes
  imports Roots Registry_Set
begin

text \<open>
  \<open>src/registry_scopes.rs\<close>: the registry scopes a caller may declare (one product key below
  \<open>SOFTWARE\<close>, with an allowlist of values), their stored form and their registry. The registry
  is the second interpretation of the contract of \<open>Keyed_Registry\<close>, and its document has the
  same crash-safe write as the root registry.
\<close>

definition REGISTRY_SCOPE_REGISTRY_KIND :: string where
  "REGISTRY_SCOPE_REGISTRY_KIND = ''7launcher-maintenance-registry-scopes-v1''"
definition REGISTRY_SCOPE_REGISTRY_SCHEMA :: u64 where "REGISTRY_SCOPE_REGISTRY_SCHEMA = 1"
definition MAX_REGISTRY_SCOPE_REGISTRY_BYTES :: nat where
  "MAX_REGISTRY_SCOPE_REGISTRY_BYTES = 1024 * 1024"
definition MAX_REGISTERED_REGISTRY_SCOPES :: nat where "MAX_REGISTERED_REGISTRY_SCOPES = 256"
definition MAX_REGISTRY_SUBKEY_BYTES :: nat where "MAX_REGISTRY_SUBKEY_BYTES = 1024"

datatype registry_view_kind = Registry32 | Registry64

record registry_scope =
  scope_allowed_values :: "allowed_registry_value list"
  scope_owner_sid :: string
  scope_product_id :: string
  scope_id :: string
  scope_subkey :: string
  scope_view :: registry_view_kind

subsection \<open>Product keys\<close>

definition product_key_is_allowed :: "string \<Rightarrow> bool" where
  "product_key_is_allowed folded =
     (let components = split_on CHR 0x5C folded in
      case components of
        root # publisher # product # rest \<Rightarrow>
          if root \<noteq> ''software'' then False
          else if publisher \<in> {''classes'', ''clients'', ''policies'', ''registeredapplications'',
              ''windows'', ''wow6432node''} then False
          else if publisher = ''microsoft''
            then product = ''microsoft games'' \<and> length components \<ge> 4
          else if publisher = ''khronos'' then False
          else if publisher = ''mozilla'' then False
          else if publisher = ''google'' then product \<noteq> ''chrome''
          else True
      | _ \<Rightarrow> False)"

definition validate_registry_subkey :: "string \<Rightarrow> unit result" where
  "validate_registry_subkey v =
     (if length v > MAX_REGISTRY_SUBKEY_BYTES
         \<or> \<not> starts_with v (''SOFTWARE'' @ [CHR 0x5C])
         \<or> ends_with v [CHR 0x5C]
         \<or> CHR ''/'' \<in> set v
         \<or> CHR 0x00 \<in> set v \<or> has_control v
         \<or> list_ex (\<lambda>c. c = [] \<or> c \<in> {''.'', ''..''}) (split_on CHR 0x5C v)
      then Err RegistryScopeInvalid ''registry subkey is not a canonical HKLM SOFTWARE path''
      else if \<not> product_key_is_allowed (to_ascii_lowercase v)
      then Err RegistryScopeUnauthorized
        ''registry scope must be a product key outside Windows and platform namespaces''
      else Ok ())"

definition validate_stored_scope :: "external \<Rightarrow> registry_scope \<Rightarrow> unit result" where
  "validate_stored_scope X s =
     (if \<not> valid_identifier (scope_id s) \<or> \<not> valid_identifier (scope_product_id s)
         \<or> \<not> valid_owner_sid (scope_owner_sid s)
      then Err RegistryScopeInvalid ''registry scope identity is invalid''
      else and_then (validate_registry_subkey (scope_subkey s)) (\<lambda>_.
        validate_allowed_registry_values X (scope_allowed_values s)))"

definition registered_registry_scope_new ::
  "external \<Rightarrow> string \<Rightarrow> string \<Rightarrow> registry_view_kind \<Rightarrow> string \<Rightarrow> allowed_registry_value list
   \<Rightarrow> string \<Rightarrow> registry_scope result"
where
  "registered_registry_scope_new X sid product view subkey allowed owner =
     (let s = \<lparr>scope_allowed_values = allowed, scope_owner_sid = owner,
         scope_product_id = product, scope_id = sid, scope_subkey = subkey,
         scope_view = view\<rparr> in
      and_then (validate_stored_scope X s) (\<lambda>_. Ok s))"

subsection \<open>The stored form\<close>

fun registry_value_kind_text :: "registry_value_kind \<Rightarrow> string" where
  "registry_value_kind_text KString = ''string''"
| "registry_value_kind_text KDword = ''dword''"
| "registry_value_kind_text KBinary = ''binary''"

fun registry_view_text :: "registry_view_kind \<Rightarrow> string" where
  "registry_view_text Registry32 = ''registry32''"
| "registry_view_text Registry64 = ''registry64''"

definition allowed_value_to_value :: "allowed_registry_value \<Rightarrow> json" where
  "allowed_value_to_value a =
     JObject [(''name'', JString (allowed_name a)),
       (''type'', JString (registry_value_kind_text (allowed_type a)))]"

definition scope_to_value :: "registry_scope \<Rightarrow> json" where
  "scope_to_value s =
     JObject [(''allowedValues'', JArray (map allowed_value_to_value (scope_allowed_values s))),
       (''ownerSid'', JString (scope_owner_sid s)),
       (''productId'', JString (scope_product_id s)),
       (''scopeId'', JString (scope_id s)),
       (''subkey'', JString (scope_subkey s)),
       (''view'', JString (registry_view_text (scope_view s)))]"

record scope_registry_document =
  scopes_kind :: string
  scopes_schema :: u64
  scopes_scopes :: "registry_scope list"

definition scopes_document_to_value :: "scope_registry_document \<Rightarrow> json" where
  "scopes_document_to_value x =
     JObject [(''kind'', JString (scopes_kind x)),
       (''schema'', json_u64 (scopes_schema x)),
       (''scopes'', JArray (map scope_to_value (scopes_scopes x)))]"

subsection \<open>The registry\<close>

type_synonym scope_registry = "(string, registry_scope) fmap"

definition scope_registry_register ::
  "external \<Rightarrow> registry_scope \<Rightarrow> scope_registry \<Rightarrow> scope_registry result"
where
  "scope_registry_register X scope m =
     and_then (validate_stored_scope X scope) (\<lambda>_.
     case fmlookup m (scope_id scope) of
       Some existing \<Rightarrow>
         if existing = scope then Ok m
         else Err TransactionConflict
           ''registry scope ID is already registered with another policy''
     | None \<Rightarrow>
         if btree_len m \<ge> MAX_REGISTERED_REGISTRY_SCOPES
         then Err RegistrySetLimit ''registered registry-scope count exceeds the bound''
         else Ok (fmupd (scope_id scope) scope m))"

definition resolve_registered :: "string \<Rightarrow> scope_registry \<Rightarrow> registry_scope result" where
  "resolve_registered sid m =
     ok_or (fmlookup m sid)
       (maintenance_error_new RegistryScopeNotFound ''registry scope is not registered'')"

definition resolve_owned :: "string \<Rightarrow> string \<Rightarrow> scope_registry \<Rightarrow> registry_scope result" where
  "resolve_owned sid owner m =
     and_then (ok_or (fmlookup m sid)
       (maintenance_error_new RegistryScopeNotFound ''registry scope is not registered'')) (\<lambda>scope.
     if scope_owner_sid scope \<noteq> owner
     then Err RegistryScopeUnauthorized ''registry scope belongs to another user SID''
     else Ok scope)"

definition scope_registry_unregister ::
  "string \<Rightarrow> string \<Rightarrow> scope_registry \<Rightarrow> (registry_scope \<times> scope_registry) result"
where
  "scope_registry_unregister sid owner m =
     and_then (resolve_owned sid owner m) (\<lambda>scope.
     and_then (ok_or (fmlookup m sid)
       (maintenance_error_new RegistryScopeNotFound ''registry scope is not registered'')) (\<lambda>_.
     Ok (scope, fmdrop sid m)))"

definition owned_scope_count :: "string \<Rightarrow> scope_registry \<Rightarrow> nat" where
  "owned_scope_count owner m =
     length (filter (\<lambda>scope. scope_owner_sid scope = owner) (btree_values m))"

definition scope_registry_load ::
  "external \<Rightarrow> (string \<Rightarrow> scope_registry_document option) \<Rightarrow> path \<Rightarrow> scope_registry result io"
where
  "scope_registry_load X from_slice p =
     io_then (read_with_backup p MAX_REGISTRY_SCOPE_REGISTRY_BYTES
       (maintenance_error_new RegistryScopeInvalid
         ''registry-scope registry and backup cannot be read'')) (\<lambda>bytes.
     lift_result
       (and_then (parse_canonical X from_slice (\<lambda>x. Some (scopes_document_to_value x)) bytes
           MAX_REGISTRY_SCOPE_REGISTRY_BYTES) (\<lambda>x.
        if scopes_kind x \<noteq> REGISTRY_SCOPE_REGISTRY_KIND
           \<or> scopes_schema x \<noteq> REGISTRY_SCOPE_REGISTRY_SCHEMA
           \<or> length (scopes_scopes x) > MAX_REGISTERED_REGISTRY_SCOPES
        then Err RegistryScopeInvalid ''registry-scope registry schema or count is invalid''
        else register_all (scope_registry_register X) (scopes_scopes x) fmempty)))"

definition scope_registry_document :: "scope_registry \<Rightarrow> scope_registry_document" where
  "scope_registry_document m =
     \<lparr>scopes_kind = REGISTRY_SCOPE_REGISTRY_KIND,
      scopes_schema = REGISTRY_SCOPE_REGISTRY_SCHEMA, scopes_scopes = btree_values m\<rparr>"

definition registry_io :: "string \<Rightarrow> maintenance_error" where
  "registry_io what = maintenance_error_new RegistryIo ''registry-scope state I/O failed''"

definition scope_registry_save :: "external \<Rightarrow> path \<Rightarrow> scope_registry \<Rightarrow> unit result io" where
  "scope_registry_save X p m =
     io_then (lift_result (canonical_json X (scopes_document_to_value (scope_registry_document m))))
       (\<lambda>bytes.
     if length bytes > MAX_REGISTRY_SCOPE_REGISTRY_BYTES
     then io_return (Err RegistrySetLimit ''registry-scope registry exceeds the bound'')
     else if p = []
     then io_return (Err RegistryScopeInvalid ''registry-scope registry has no parent'')
     else commit_document registry_io p bytes)"

definition load_scopes_at_start ::
  "external \<Rightarrow> (string \<Rightarrow> scope_registry_document option) \<Rightarrow> path \<Rightarrow> scope_registry result io"
where
  "load_scopes_at_start X from_slice registry_scope_path =
     io_bind (fs_exists registry_scope_path) (\<lambda>present.
     if present then scope_registry_load X from_slice registry_scope_path
     else io_return (Ok fmempty))"

subsection \<open>The contract of the registry\<close>

text \<open>The declarative form of the subkey policy, over the components of the folded key.\<close>

definition forbidden_publishers :: "string list" where
  "forbidden_publishers =
     [''classes'', ''clients'', ''policies'', ''registeredapplications'', ''windows'',
      ''wow6432node'', ''khronos'', ''mozilla'']"

definition subkey_wf :: "string \<Rightarrow> bool" where
  "subkey_wf v \<longleftrightarrow>
     length v \<le> 1024 \<and> starts_with v (''SOFTWARE'' @ [CHR 0x5C]) \<and> CHR ''/'' \<notin> set v
     \<and> \<not> has_control v \<and> (\<forall>c \<in> set (split_on CHR 0x5C v). c \<noteq> [] \<and> c \<noteq> ''.'' \<and> c \<noteq> ''..'')
     \<and> (\<exists>publisher product rest.
          split_on CHR 0x5C (to_ascii_lowercase v) = ''software'' # publisher # product # rest
        \<and> publisher \<notin> set forbidden_publishers
        \<and> (publisher = ''microsoft'' \<longrightarrow> product = ''microsoft games'' \<and> rest \<noteq> [])
        \<and> (publisher = ''google'' \<longrightarrow> product \<noteq> ''chrome''))"

text \<open>The chain of tests of the publisher, over any names.\<close>

lemma publisher_chain:
  assumes "m \<notin> A \<union> {k, z}" and "g \<notin> A \<union> {k, z}" and "m \<noteq> g"
  shows "(if b \<in> A then False else if b = m then P else if b = k then False
      else if b = z then False else if b = g then Q else True)
    \<longleftrightarrow> b \<notin> A \<union> {k, z} \<and> (b = m \<longrightarrow> P) \<and> (b = g \<longrightarrow> Q)"
  using assms by (auto split: if_splits)

lemma product_key_is_allowed_iff:
  "product_key_is_allowed v \<longleftrightarrow>
     (\<exists>publisher product rest. split_on CHR 0x5C v = ''software'' # publisher # product # rest
        \<and> publisher \<notin> set forbidden_publishers
        \<and> (publisher = ''microsoft'' \<longrightarrow> product = ''microsoft games'' \<and> rest \<noteq> [])
        \<and> (publisher = ''google'' \<longrightarrow> product \<noteq> ''chrome''))"
proof -
  consider "split_on CHR 0x5C v = []" | a where "split_on CHR 0x5C v = [a]"
    | a b where "split_on CHR 0x5C v = [a, b]"
    | a b c rest where "split_on CHR 0x5C v = a # b # c # rest"
    by (metis neq_Nil_conv)
  then show ?thesis
  proof cases
    case (4 a b c rest)
    define A where "A = {''classes'', ''clients'', ''policies'', ''registeredapplications'',
        ''windows'', ''wow6432node''}"
    have A: "set forbidden_publishers = A \<union> {''khronos'', ''mozilla''}"
      unfolding forbidden_publishers_def A_def
      by (simp only: list.set Un_insert_left Un_empty_left)
    have m: "''microsoft'' \<notin> A \<union> {''khronos'', ''mozilla''}"
      and g: "''google'' \<notin> A \<union> {''khronos'', ''mozilla''}" and mg: "''microsoft'' \<noteq> ''google''"
      by (simp_all add: A_def)
    have len: "4 \<le> length (a # b # c # rest) \<longleftrightarrow> rest \<noteq> []" by (cases rest) simp_all
    have "product_key_is_allowed v \<longleftrightarrow> a = ''software'' \<and> b \<notin> set forbidden_publishers
        \<and> (b = ''microsoft'' \<longrightarrow> c = ''microsoft games'' \<and> rest \<noteq> [])
        \<and> (b = ''google'' \<longrightarrow> c \<noteq> ''chrome'')"
      unfolding product_key_is_allowed_def Let_def 4 list.case A A_def [symmetric] len
        publisher_chain [OF m g mg]
      by (cases "a = ''software''") (simp_all only: if_True if_False simp_thms not_True_eq_False
          not_False_eq_True)
    moreover have "a # b # c # rest = ''software'' # p # q # r \<longleftrightarrow>
        a = ''software'' \<and> b = p \<and> c = q \<and> rest = r" for p q r by blast
    ultimately show ?thesis unfolding 4 by blast
  qed (simp_all add: product_key_is_allowed_def)
qed

lemma validate_registry_subkey_Ok [result_simps]:
  "validate_registry_subkey v = Ok () \<longleftrightarrow> subkey_wf v"
proof -
  have edges: "\<not> ends_with v [CHR 0x5C]"
    if "starts_with v (''SOFTWARE'' @ [CHR 0x5C])"
      "\<forall>c \<in> set (split_on CHR 0x5C v). c \<noteq> [] \<and> c \<noteq> ''.'' \<and> c \<noteq> ''..''"
  proof -
    have "v \<noteq> []" using that(1) by (auto simp: starts_with_def)
    then show ?thesis using that(2) split_on_edges [of v "CHR 0x5C"] by (auto simp: ends_with_char)
  qed
  have parts: "list_ex (\<lambda>c. c = [] \<or> c \<in> {''.'', ''..''}) (split_on CHR 0x5C v)
      \<longleftrightarrow> \<not> (\<forall>c \<in> set (split_on CHR 0x5C v). c \<noteq> [] \<and> c \<noteq> ''.'' \<and> c \<noteq> ''..'')"
    by (auto simp: list_ex_iff)
  have tests: "(if l \<or> \<not> s \<or> e \<or> b \<or> n \<or> h \<or> \<not> w then Inl x else if \<not> k then Inl y else Inr ())
        = Inr () \<longleftrightarrow> \<not> l \<and> s \<and> \<not> b \<and> \<not> h \<and> w \<and> k"
    if "s \<Longrightarrow> w \<Longrightarrow> \<not> e" "n \<Longrightarrow> h" for l s e b n h w k and x y :: maintenance_error
    using that by auto
  show ?thesis
    unfolding validate_registry_subkey_def subkey_wf_def product_key_is_allowed_iff [symmetric]
      MAX_REGISTRY_SUBKEY_BYTES_def parts not_less [symmetric]
    by (rule tests) (fact edges, rule nul_is_control)
qed

definition scope_wf :: "external \<Rightarrow> registry_scope \<Rightarrow> bool" where
  "scope_wf X s \<longleftrightarrow> valid_identifier (scope_id s) \<and> valid_identifier (scope_product_id s)
     \<and> valid_owner_sid (scope_owner_sid s) \<and> subkey_wf (scope_subkey s)
     \<and> allowlist_wf X (scope_allowed_values s)"

lemma validate_stored_scope_Ok [result_simps]: "validate_stored_scope X s = Ok () \<longleftrightarrow> scope_wf X s"
  by (auto simp: validate_stored_scope_def scope_wf_def result_simps)

lemma scope_registry_register_Ok:
  "scope_registry_register X i m = Ok m' \<longleftrightarrow>
     scope_wf X i
     \<and> ((fmlookup m (scope_id i) = Some i \<and> m' = m)
        \<or> (fmlookup m (scope_id i) = None \<and> btree_len m < 256 \<and> m' = fmupd (scope_id i) i m))"
  by (auto simp: scope_registry_register_def result_simps MAX_REGISTERED_REGISTRY_SCOPES_def
      split: option.splits)

lemma resolve_owned_Ok [result_simps]:
  "resolve_owned sid owner m = Ok s \<longleftrightarrow> fmlookup m sid = Some s \<and> scope_owner_sid s = owner"
  by (auto simp: resolve_owned_def result_simps)

lemma scope_registry_unregister_Ok:
  "scope_registry_unregister sid owner m = Ok (s, m') \<longleftrightarrow>
     fmlookup m sid = Some s \<and> scope_owner_sid s = owner \<and> m' = fmdrop sid m"
  by (auto simp: scope_registry_unregister_def result_simps)

interpretation scopes: owned_registry fmlookup btree_len fmempty "scope_registry_register X"
  scope_registry_unregister scope_id "scope_wf X" "\<lambda>s owner. scope_owner_sid s = owner" 256
  for X
  by unfold_locales
    (auto simp: scope_registry_register_Ok scope_registry_unregister_Ok btree_len_upd
      btree_len_drop fun_eq_iff)

lemma scope_registry_rebuild:
  assumes "scopes.sound X m"
  shows "register_all (scope_registry_register X) (btree_values m) fmempty = Ok m"
  by (rule register_values [where key = scope_id and ok = "scope_wf X" and bound = 256])
    (use assms in \<open>auto simp: scopes.sound_def scope_registry_register_Ok\<close>)

text \<open>A disk that holds a scope registry, in the file or in its backup.\<close>

definition stores_scopes ::
  "external \<Rightarrow> (string \<Rightarrow> scope_registry_document option) \<Rightarrow> string \<Rightarrow> scope_registry \<Rightarrow> bool"
where
  "stores_scopes X from_slice bytes m \<longleftrightarrow>
     scopes.sound X m
     \<and> canonical_json X (scopes_document_to_value (scope_registry_document m)) = Ok bytes
     \<and> length bytes \<le> MAX_REGISTRY_SCOPE_REGISTRY_BYTES
     \<and> from_slice bytes = Some (scope_registry_document m)"

lemma scope_registry_load_works:
  assumes "document_path p" and "registry_view p F = Some bytes" and "stores_scopes X from_slice bytes m"
  shows "wps p no_fault (scope_registry_load X from_slice p) (\<lambda>r G. r = Ok m \<and> G = F) (\<lambda>_. False) F"
proof -
  note s = assms(3) [unfolded stores_scopes_def]
  have "wps p no_fault (read_with_backup p MAX_REGISTRY_SCOPE_REGISTRY_BYTES
      (maintenance_error_new RegistryScopeInvalid
        ''registry-scope registry and backup cannot be read''))
      (\<lambda>r G. r = Ok bytes \<and> G = F) (\<lambda>_. False) F"
    by (rule read_with_backup_works) (use assms s in auto)
  moreover have "parse_canonical X from_slice (\<lambda>x. Some (scopes_document_to_value x)) bytes
      MAX_REGISTRY_SCOPE_REGISTRY_BYTES = Ok (scope_registry_document m)"
    using s by (simp add: parse_canonical_Ok)
  ultimately show ?thesis
    unfolding scope_registry_load_def lift_result_def
    using scope_registry_rebuild [of X m] s
    by (intro wps_then)
      (erule wps_conseq, auto intro!: wps_return simp: scope_registry_document_def scopes.sound_def
        MAX_REGISTERED_REGISTRY_SCOPES_def)
qed

lemma scope_registry_save_wps:
  assumes "document_path p" and "registry_view p F = old"
    and "fails M \<Longrightarrow> F p = None \<or> F (backup_path p) = None"
    and "canonical_json X (scopes_document_to_value (scope_registry_document m)) = Ok bytes"
  shows "wps p M (scope_registry_save X p m)
     (\<lambda>r G. (registry_view p G = old \<or> registry_view p G = Some bytes)
        \<and> (r = Ok () \<longrightarrow> G p = Some bytes))
     (\<lambda>G. registry_view p G = old \<or> registry_view p G = Some bytes) F"
  unfolding scope_registry_save_def lift_result_def assms(4)
  using commit_document_wps [OF assms(1-3), where err = registry_io and bytes = bytes] assms(2)
  by (auto intro!: wps_then wps_return)

subsection \<open>A concrete scope\<close>

definition sample_subkey :: string where
  "sample_subkey = ''SOFTWARE'' @ [CHR 0x5C] @ ''Vendor'' @ [CHR 0x5C] @ ''Game''"

definition sample_scope :: registry_scope where
  "sample_scope = \<lparr>scope_allowed_values = sample_allowed, scope_owner_sid = ''S-1-5-21'',
     scope_product_id = ''sample-app'', scope_id = ''scope-1'', scope_subkey = sample_subkey,
     scope_view = Registry32\<rparr>"

definition sample_scopes :: scope_registry where
  "sample_scopes = fmupd ''scope-1'' sample_scope fmempty"

lemma sample_subkey_wf: "subkey_wf sample_subkey"
  unfolding validate_registry_subkey_Ok [symmetric]
  by (simp add: validate_registry_subkey_def sample_subkey_def MAX_REGISTRY_SUBKEY_BYTES_def
      starts_with_def ends_with_def product_key_is_allowed_def to_ascii_lowercase_def lower_char_def
      ascii_defs char_of_eq_iff)

lemma sample_scope_registered:
  "scope_registry_register sample_external sample_scope fmempty = Ok sample_scopes"
  using sample_subkey_wf sample_allowed_wf
  by (simp add: scope_registry_register_Ok sample_scope_def sample_scopes_def scope_wf_def
      valid_identifier_def identifier_char_def ascii_defs valid_owner_sid_def starts_with_def
      sid_char_def)

subsection \<open>Properties\<close>

text \<open>
  C22: Whatever calls a service makes on an initially empty scope registry, every scope in it
  is stored under its own ID and names one product's key: folded to lower case it is
  \<open>software\<close>, a publisher outside the namespaces of Windows, browsers and graphics layers, and
  a product (below \<open>microsoft\<close> only a game under \<open>microsoft games\<close>, below \<open>google\<close> not
  \<open>chrome\<close>), and no value it may write has the name of one that starts programs.
\<close>

theorem registered_scopes_are_product_keys:
  assumes "fmlookup (run_calls (scope_registry_register X) scope_registry_unregister calls fmempty)
      k = Some s"
  shows "scope_id s = k
    \<and> (\<exists>publisher product rest.
         split_on CHR 0x5C (to_ascii_lowercase (scope_subkey s))
           = ''software'' # publisher # product # rest
       \<and> publisher \<notin> set forbidden_publishers
       \<and> (publisher = ''microsoft'' \<longrightarrow> product = ''microsoft games'' \<and> rest \<noteq> [])
       \<and> (publisher = ''google'' \<longrightarrow> product \<noteq> ''chrome''))
    \<and> (\<forall>v \<in> set (scope_allowed_values s). \<forall>n \<in> set EXECUTING_VALUE_NAMES.
         \<not> eq_ignore_ascii_case (allowed_name v) n)"
proof -
  have "scope_id s = k" and wf: "scope_wf X s"
    using scopes.sound_run [OF scopes.sound_start, of X calls] assms
    by (auto simp: scopes.sound_def)
  moreover have "subkey_wf (scope_subkey s)" "allowlist_wf X (scope_allowed_values s)"
    using wf by (simp_all add: scope_wf_def)
  ultimately show ?thesis unfolding subkey_wf_def allowlist_wf_def by blast
qed

theorem registered_scopes_are_product_keys_witness:
  "\<exists>publisher product rest.
     split_on CHR 0x5C (to_ascii_lowercase sample_subkey) = ''software'' # publisher # product # rest
     \<and> publisher \<notin> set forbidden_publishers"
proof -
  have "fmlookup (run_calls (scope_registry_register sample_external) scope_registry_unregister
      [Register sample_scope] fmempty) ''scope-1'' = Some sample_scope"
    by (simp add: run_calls_def sample_scope_registered) (simp add: sample_scopes_def)
  from registered_scopes_are_product_keys [OF this]
  have "\<exists>publisher product rest. split_on CHR 0x5C (to_ascii_lowercase (scope_subkey sample_scope))
       = ''software'' # publisher # product # rest \<and> publisher \<notin> set forbidden_publishers"
    by blast
  moreover have "scope_subkey sample_scope = sample_subkey" by (simp add: sample_scope_def)
  ultimately show ?thesis by simp
qed

text \<open>
  C23: A registered scope is fixed until its owner removes it: no sequence of calls without
  the owner's removal changes it, not even a registration of the same ID with another policy,
  the owner keeps resolving it and every other caller is refused.
\<close>

theorem registered_scope_is_fixed:
  assumes "fmlookup m k = Some s" and "Unregister k (scope_owner_sid s) \<notin> set calls"
  shows "resolve_owned k sid
      (run_calls (scope_registry_register X) scope_registry_unregister calls m) =
    (if sid = scope_owner_sid s then Ok s
     else Err RegistryScopeUnauthorized ''registry scope belongs to another user SID'')"
proof -
  have "fmlookup (run_calls (scope_registry_register X) scope_registry_unregister calls m) k = Some s"
    by (rule scopes.kept_run [OF assms(1)]) (use assms(2) in auto)
  then show ?thesis by (simp add: resolve_owned_def)
qed

theorem registered_scope_is_fixed_witness:
  "resolve_owned ''scope-1'' ''S-1-5-21''
     (run_calls (scope_registry_register sample_external) scope_registry_unregister
        [Unregister ''scope-1'' ''S-1-5-32'',
         Register (sample_scope\<lparr>scope_view := Registry64\<rparr>)] sample_scopes)
   = Ok sample_scope"
proof -
  have "fmlookup sample_scopes ''scope-1'' = Some sample_scope" by (simp add: sample_scopes_def)
  moreover have sid: "scope_owner_sid sample_scope = ''S-1-5-21''" by (simp add: sample_scope_def)
  ultimately show ?thesis
    using registered_scope_is_fixed [of sample_scopes "''scope-1''" sample_scope
        "[Unregister ''scope-1'' ''S-1-5-32'', Register (sample_scope\<lparr>scope_view := Registry64\<rparr>)]"
        "''S-1-5-21''" sample_external] by simp
qed

end
