(* ===== verification/Protocol.thy ===== *)
theory Protocol
  imports Registry_Scopes
begin

text \<open>
  \<open>src/protocol.rs\<close>: the requests a client sends over the pipe and the checks a message
  passes before the service acts on it. The strict parser (serde's derived \<open>Deserialize\<close>
  with unknown fields denied) is an argument.
\<close>

definition PROTOCOL_MAJOR :: u16 where "PROTOCOL_MAJOR = 1"

datatype request =
    GetStatus (protocol_major: u16)
  | GetRootStatus (protocol_major: u16) (req_root_id: string)
  | GetRegistryScopeStatus (protocol_major: u16) (req_scope_id: string)
  | RegisterRoot (protocol_major: u16) (req_root_id: string) (req_product_id: string)
      (req_root_kind: root_kind) (req_path: string)
  | UnregisterRoot (protocol_major: u16) (req_root_id: string)
  | RegisterRegistryScope (protocol_major: u16) (req_scope_id: string) (req_product_id: string)
      (req_view: registry_view_kind) (req_subkey: string)
      (req_allowed_values: "allowed_registry_value list")
  | UnregisterRegistryScope (protocol_major: u16) (req_scope_id: string)
  | ApplyRegistrySet (protocol_major: u16) (req_scope_id: string) (req_manifest_path: string)
  | PrepareFileSet (protocol_major: u16) (req_root_id: string) (req_manifest_path: string)
      (req_staging_path: string)
  | CommitJob (protocol_major: u16) (req_job_id: string)
  | GetJobStatus (protocol_major: u16) (req_job_id: string)

definition validate_job_id :: "string \<Rightarrow> unit result" where
  "validate_job_id v =
     (if valid_job_identifier v then Ok ()
      else Err ProtocolInvalid ''IPC job identifier is invalid'')"

definition validate_id :: "string \<Rightarrow> unit result" where
  "validate_id v =
     (if valid_identifier v then Ok () else Err ProtocolInvalid ''IPC identifier is invalid'')"

definition validate_client_path :: "string \<Rightarrow> unit result" where
  "validate_client_path v =
     (if v = [] \<or> length v > MAX_PATH_BYTES \<or> CHR 0x00 \<in> set v
      then Err ProtocolInvalid ''IPC client path is invalid''
      else Ok ())"

fun validate_request :: "external \<Rightarrow> request \<Rightarrow> unit result" where
  "validate_request X (GetStatus _) = Ok ()"
| "validate_request X (GetRootStatus _ rid) = validate_id rid"
| "validate_request X (GetRegistryScopeStatus _ sid) = validate_id sid"
| "validate_request X (RegisterRoot _ rid product _ path) =
     and_then (validate_id rid) (\<lambda>_.
     and_then (validate_id product) (\<lambda>_.
     and_then (validate_client_path path) (\<lambda>_. Ok ())))"
| "validate_request X (UnregisterRoot _ rid) = validate_id rid"
| "validate_request X (RegisterRegistryScope _ sid product _ subkey allowed) =
     and_then (validate_id sid) (\<lambda>_.
     and_then (validate_id product) (\<lambda>_.
     and_then (validate_client_path subkey) (\<lambda>_.
     validate_allowed_registry_values X allowed)))"
| "validate_request X (UnregisterRegistryScope _ sid) = validate_id sid"
| "validate_request X (ApplyRegistrySet _ sid manifest) =
     and_then (validate_id sid) (\<lambda>_. validate_client_path manifest)"
| "validate_request X (PrepareFileSet _ rid manifest staging) =
     and_then (validate_id rid) (\<lambda>_.
     and_then (validate_client_path manifest) (\<lambda>_. validate_client_path staging))"
| "validate_request X (CommitJob _ job) = validate_job_id job"
| "validate_request X (GetJobStatus _ job) = validate_job_id job"

definition decode_request ::
  "external \<Rightarrow> (string \<Rightarrow> request option) \<Rightarrow> string \<Rightarrow> request result"
where
  "decode_request X from_slice bytes =
     (if length bytes > MAX_IPC_MESSAGE_BYTES
      then Err ProtocolTooLarge ''IPC message exceeds 64 KiB''
      else
        and_then (ok_or (from_slice bytes)
          (maintenance_error_new ProtocolInvalid
            ''IPC message is not a supported strict request'')) (\<lambda>request.
        if protocol_major request \<noteq> PROTOCOL_MAJOR
        then Err ProtocolVersion ''IPC protocol major is unsupported''
        else and_then (validate_request X request) (\<lambda>_. Ok request)))"

subsection \<open>What an accepted request holds\<close>

definition client_path_wf :: "string \<Rightarrow> bool" where
  "client_path_wf v \<longleftrightarrow> v \<noteq> [] \<and> length v \<le> 1024 \<and> CHR 0x00 \<notin> set v"

text \<open>The identifiers and the paths of a request, whatever its command.\<close>

fun request_ids :: "request \<Rightarrow> string list" where
  "request_ids (GetStatus _) = []"
| "request_ids (GetRootStatus _ rid) = [rid]"
| "request_ids (GetRegistryScopeStatus _ sid) = [sid]"
| "request_ids (RegisterRoot _ rid product _ _) = [rid, product]"
| "request_ids (UnregisterRoot _ rid) = [rid]"
| "request_ids (RegisterRegistryScope _ sid product _ _ _) = [sid, product]"
| "request_ids (UnregisterRegistryScope _ sid) = [sid]"
| "request_ids (ApplyRegistrySet _ sid _) = [sid]"
| "request_ids (PrepareFileSet _ rid _ _) = [rid]"
| "request_ids (CommitJob _ _) = []"
| "request_ids (GetJobStatus _ _) = []"

fun request_paths :: "request \<Rightarrow> string list" where
  "request_paths (RegisterRoot _ _ _ _ path) = [path]"
| "request_paths (RegisterRegistryScope _ _ _ _ subkey _) = [subkey]"
| "request_paths (ApplyRegistrySet _ _ manifest) = [manifest]"
| "request_paths (PrepareFileSet _ _ manifest staging) = [manifest, staging]"
| "request_paths _ = []"

fun request_jobs :: "request \<Rightarrow> string list" where
  "request_jobs (CommitJob _ job) = [job]"
| "request_jobs (GetJobStatus _ job) = [job]"
| "request_jobs _ = []"

fun request_allowlists :: "request \<Rightarrow> allowed_registry_value list list" where
  "request_allowlists (RegisterRegistryScope _ _ _ _ _ allowed) = [allowed]"
| "request_allowlists _ = []"

lemma validate_id_Ok [result_simps]: "validate_id v = Ok () \<longleftrightarrow> valid_identifier v"
  by (simp add: validate_id_def)

lemma validate_job_id_Ok [result_simps]: "validate_job_id v = Ok () \<longleftrightarrow> valid_job_identifier v"
  by (simp add: validate_job_id_def)

lemma validate_client_path_Ok [result_simps]: "validate_client_path v = Ok () \<longleftrightarrow> client_path_wf v"
  by (auto simp: validate_client_path_def client_path_wf_def MAX_PATH_BYTES_def)

lemma validate_request_Ok:
  "validate_request X r = Ok () \<longleftrightarrow>
     list_all valid_identifier (request_ids r) \<and> list_all client_path_wf (request_paths r)
     \<and> list_all valid_job_identifier (request_jobs r) \<and> list_all (allowlist_wf X) (request_allowlists r)"
  by (cases r) (auto simp: result_simps)

text \<open>
  C24: A message is accepted exactly when it is at most 64 KiB, the strict parser reads a
  request of protocol major 1 from it, every identifier of the request is a valid identifier,
  every path is non-empty, at most 1024 bytes and free of NUL, every job ID has the form the
  transaction layer builds and every allowlist passes the policy; the value is that request.
\<close>

theorem decode_request_iff:
  "decode_request X from_slice bytes = Ok r \<longleftrightarrow>
     length bytes \<le> 65536 \<and> from_slice bytes = Some r \<and> protocol_major r = 1
     \<and> list_all valid_identifier (request_ids r)
     \<and> list_all (\<lambda>p. p \<noteq> [] \<and> length p \<le> 1024 \<and> CHR 0x00 \<notin> set p) (request_paths r)
     \<and> list_all (\<lambda>job. \<exists>rid g d. job = job_identifier rid g d \<and> valid_identifier rid \<and> 0 < g
          \<and> length d = 64 \<and> list_all is_lower_hex d) (request_jobs r)
     \<and> list_all (allowlist_wf X) (request_allowlists r)"
proof -
  have "client_path_wf = (\<lambda>p. p \<noteq> [] \<and> length p \<le> 1024 \<and> CHR 0x00 \<notin> set p)"
    by (simp add: fun_eq_iff client_path_wf_def)
  moreover have "valid_job_identifier = (\<lambda>job. \<exists>rid g d. job = job_identifier rid g d
      \<and> valid_identifier rid \<and> 0 < g \<and> length d = 64 \<and> list_all is_lower_hex d)"
    by (rule ext) (rule valid_job_identifier_iff)
  ultimately show ?thesis
    using validate_request_Ok [of X r]
    by (auto simp: decode_request_def result_simps MAX_IPC_MESSAGE_BYTES_def PROTOCOL_MAJOR_def)
qed

end
