(* ===== verification/Journal.thy ===== *)
theory Journal
  imports Roots File_Set
begin

text \<open>
  The transaction journal of \<open>src/transaction.rs\<close>: its header and state records, their lines
  on disk, the parser that tolerates a torn last line, and the state machine the records
  follow.
\<close>

definition JOURNAL_SCHEMA :: u64 where "JOURNAL_SCHEMA = 1"

datatype journal_state = Prepared | Committing | Committed | RollingBack

datatype journal_action = Replace | Remove

record target_snapshot =
  snapshot_identity :: directory_identity
  snapshot_last_write_time :: u64
  snapshot_size :: u64

record journal_entry =
  action :: journal_action
  original :: "target_snapshot option"
  target_name :: string
  prepared_index :: "u32 option"
  transaction_index :: u32

record journal_header =
  entries :: "journal_entry list"
  header_generation :: u64
  header_job_id :: string
  manifest_digest :: string
  header_root :: registered_root
  header_schema :: u64

definition transaction_io :: maintenance_error where
  "transaction_io = maintenance_error_new TransactionIo ''transaction filesystem operation failed''"

definition valid_internal_job_id :: "string \<Rightarrow> bool" where
  "valid_internal_job_id v = (v \<noteq> [] \<and> length v \<le> 256 \<and> list_all identifier_char v)"

subsection \<open>The lines\<close>

fun journal_state_text :: "journal_state \<Rightarrow> string" where
  "journal_state_text Prepared = ''prepared''"
| "journal_state_text Committing = ''committing''"
| "journal_state_text Committed = ''committed''"
| "journal_state_text RollingBack = ''rolling_back''"

fun journal_action_text :: "journal_action \<Rightarrow> string" where
  "journal_action_text Replace = ''replace''"
| "journal_action_text Remove = ''remove''"

definition json_option :: "('a \<Rightarrow> json) \<Rightarrow> 'a option \<Rightarrow> json" where
  "json_option f m = (case m of None \<Rightarrow> JNull | Some x \<Rightarrow> f x)"

definition snapshot_to_value :: "target_snapshot \<Rightarrow> json" where
  "snapshot_to_value s =
     JObject [(''identity'', identity_to_value (snapshot_identity s)),
       (''lastWriteTime'', json_u64 (snapshot_last_write_time s)),
       (''size'', json_u64 (snapshot_size s))]"

definition journal_entry_to_value :: "journal_entry \<Rightarrow> json" where
  "journal_entry_to_value e =
     JObject [(''action'', JString (journal_action_text (action e))),
       (''original'', json_option snapshot_to_value (original e)),
       (''path'', JString (target_name e)),
       (''preparedIndex'', json_option (\<lambda>i. json_u64 (ucast i)) (prepared_index e)),
       (''transactionIndex'', json_u64 (ucast (transaction_index e)))]"

definition journal_header_to_value :: "journal_header \<Rightarrow> json" where
  "journal_header_to_value h =
     JObject [(''entries'', JArray (map journal_entry_to_value (entries h))),
       (''generation'', json_u64 (header_generation h)),
       (''jobId'', JString (header_job_id h)),
       (''manifestDigest'', JString (manifest_digest h)),
       (''root'', root_to_value (header_root h)),
       (''schema'', json_u64 (header_schema h))]"

definition journal_state_to_value :: "journal_state \<Rightarrow> json" where
  "journal_state_to_value s = JObject [(''state'', JString (journal_state_text s))]"

text \<open>One line: the canonical text and a newline.\<close>

definition newline :: char where "newline = CHR 0x0A"

definition journal_line :: "external \<Rightarrow> json \<Rightarrow> string result" where
  "journal_line X v = and_then (canonical_json X v) (\<lambda>text. Ok (text @ [newline]))"

definition write_new_journal :: "external \<Rightarrow> path \<Rightarrow> journal_header \<Rightarrow> unit result io" where
  "write_new_journal X p header =
     io_then (io_err transaction_io (open_create_new p)) (\<lambda>_.
     io_then (lift_result (journal_line X (journal_header_to_value header))) (\<lambda>first.
     io_then (lift_result (journal_line X (journal_state_to_value Prepared))) (\<lambda>second.
     io_then (io_err transaction_io (fs_write_all p (first @ second))) (\<lambda>_.
     io_err transaction_io (fs_sync_all p)))))"

definition append_state :: "external \<Rightarrow> path \<Rightarrow> journal_state \<Rightarrow> unit result io" where
  "append_state X p state =
     io_then (io_err transaction_io (open_existing p)) (\<lambda>_.
     io_then (lift_result (journal_line X (journal_state_to_value state))) (\<lambda>line.
     io_then (io_err transaction_io (fs_write_all p line)) (\<lambda>_.
     io_err transaction_io (fs_sync_all p))))"

subsection \<open>Reading\<close>

fun valid_transition :: "journal_state option \<Rightarrow> journal_state \<Rightarrow> bool" where
  "valid_transition None Prepared = True"
| "valid_transition (Some Prepared) Committing = True"
| "valid_transition (Some Committing) Committed = True"
| "valid_transition (Some Committing) RollingBack = True"
| "valid_transition _ _ = False"

definition validate_state_transition ::
  "journal_state option \<Rightarrow> journal_state \<Rightarrow> unit result"
where
  "validate_state_transition previous state =
     ensure (valid_transition previous state)
       (maintenance_error_new RecoveryIncomplete
         ''transaction journal state transition is invalid'')"

fun check_journal_entries ::
  "external \<Rightarrow> string list \<Rightarrow> u32 list \<Rightarrow> u32 list \<Rightarrow> journal_entry list \<Rightarrow> unit result"
where
  "check_journal_entries X paths transaction_indexes prepared_indexes [] = Ok ()"
| "check_journal_entries X paths transaction_indexes prepared_indexes (e # es) =
     and_then (validate_relative_path (target_name e)) (\<lambda>_.
     if to_lowercase X (target_name e) \<in> set paths
        \<or> transaction_index e \<in> set transaction_indexes
        \<or> (action e = Replace \<and> prepared_index e = None)
        \<or> (action e = Remove \<and> prepared_index e \<noteq> None)
        \<or> (case prepared_index e of None \<Rightarrow> False | Some i \<Rightarrow> i \<in> set prepared_indexes)
     then Err RecoveryIncomplete ''transaction journal entry is inconsistent''
     else check_journal_entries X (to_lowercase X (target_name e) # paths)
       (transaction_index e # transaction_indexes)
       (case prepared_index e of None \<Rightarrow> prepared_indexes | Some i \<Rightarrow> i # prepared_indexes) es)"

definition validate_journal_header :: "external \<Rightarrow> journal_header \<Rightarrow> unit result" where
  "validate_journal_header X h =
     (if header_schema h \<noteq> JOURNAL_SCHEMA \<or> entries h = []
         \<or> \<not> valid_internal_job_id (header_job_id h)
         \<or> \<not> is_ok (decode_lower_hex 32 (manifest_digest h) RecoveryIncomplete)
      then Err RecoveryIncomplete ''transaction journal header is unsupported''
      else check_journal_entries X [] [] [] (entries h))"

text \<open>
  The record loop. \<open>unterminated\<close> says that the file does not end in a newline, so the last
  line may be torn.
\<close>

fun read_states ::
  "(string \<Rightarrow> journal_state result) \<Rightarrow> bool \<Rightarrow> journal_state option \<Rightarrow> string list
   \<Rightarrow> journal_state option result"
where
  "read_states parse unterminated state [] = Ok state"
| "read_states parse unterminated state (line # rest) =
     (if line = [] then read_states parse unterminated state rest
      else
        (case parse line of
           Inr record_state \<Rightarrow>
             and_then (validate_state_transition state record_state) (\<lambda>_.
               read_states parse unterminated (Some record_state) rest)
         | Inl _ \<Rightarrow>
             if rest = [] \<and> unterminated then Ok state
             else Err RecoveryIncomplete ''transaction journal contains an invalid record''))"

text \<open>The serde parsers of the two kinds of record.\<close>

record journal_parsers =
  parse_header :: "string \<Rightarrow> journal_header option"
  parse_state :: "string \<Rightarrow> journal_state option"

definition parse_state_line :: "external \<Rightarrow> journal_parsers \<Rightarrow> string \<Rightarrow> journal_state result" where
  "parse_state_line X J line =
     parse_canonical X (parse_state J) (\<lambda>s. Some (journal_state_to_value s)) line 128"

definition parse_journal ::
  "external \<Rightarrow> journal_parsers \<Rightarrow> string \<Rightarrow> (journal_header \<times> journal_state) result"
where
  "parse_journal X J bytes =
     (if length bytes > MAX_MANIFEST_BYTES
      then Err RecoveryIncomplete ''transaction journal exceeds the bound''
      else
        (let lines = split_on newline bytes in
         if hd lines = []
         then Err RecoveryIncomplete ''transaction journal has no header''
         else
           and_then (parse_canonical X (parse_header J) (\<lambda>h. Some (journal_header_to_value h))
               (hd lines) MAX_MANIFEST_BYTES) (\<lambda>header.
           and_then (validate_journal_header X header) (\<lambda>_.
           and_then (read_states (parse_state_line X J) (\<not> ends_with bytes [newline]) None
               (tl lines)) (\<lambda>state.
           and_then (ok_or state
             (maintenance_error_new RecoveryIncomplete ''journal has no durable state'')) (\<lambda>s.
           Ok (header, s)))))))"

definition read_journal ::
  "external \<Rightarrow> journal_parsers \<Rightarrow> path \<Rightarrow> (journal_header \<times> journal_state) result io"
where
  "read_journal X J p =
     io_then (io_err transaction_io (fs_read p (MAX_MANIFEST_BYTES + 1))) (\<lambda>bytes.
     lift_result (parse_journal X J bytes))"

end
