(* ===== verification/Transaction.thy ===== *)
theory Transaction
  imports Journal
begin

text \<open>
  The transaction engine of \<open>src/transaction.rs\<close>: prepare, commit, rollback and recovery of
  one file set, over a platform (the trait \<open>TransactionPlatform\<close>, a record of operations) and
  a fault injector. Each function follows the code statement by statement, with the cleanup
  and rollback of every error path.
\<close>

subsection \<open>The platform and the policy\<close>

record platform =
  uses_atomic_replacement :: bool
  atomic_replace_target ::
    "registered_root \<Rightarrow> string \<Rightarrow> u32 \<Rightarrow> string \<Rightarrow> target_snapshot option \<Rightarrow> bool result io"
  atomic_restore_backup :: "registered_root \<Rightarrow> string \<Rightarrow> u32 \<Rightarrow> string \<Rightarrow> bool result io"
  verify_root_identity :: "registered_root \<Rightarrow> unit result io"
  root_is_missing :: "registered_root \<Rightarrow> bool io"
  available_space :: "string \<Rightarrow> u64 result io"
  same_volume :: "string \<Rightarrow> string \<Rightarrow> bool result io"
  open_staging_payload :: "string \<Rightarrow> string \<Rightarrow> string result io"
  inspect_target :: "registered_root \<Rightarrow> string \<Rightarrow> target_snapshot option result io"
  prepare_target_payload ::
    "registered_root \<Rightarrow> string \<Rightarrow> u32 \<Rightarrow> path \<Rightarrow> file_entry \<Rightarrow> unit result io"
  rename_target_to_backup ::
    "registered_root \<Rightarrow> string \<Rightarrow> u32 \<Rightarrow> string \<Rightarrow> target_snapshot \<Rightarrow> unit result io"
  rename_prepared_to_target :: "registered_root \<Rightarrow> string \<Rightarrow> u32 \<Rightarrow> string \<Rightarrow> unit result io"
  target_exists :: "registered_root \<Rightarrow> string \<Rightarrow> bool result io"
  backup_exists :: "registered_root \<Rightarrow> string \<Rightarrow> u32 \<Rightarrow> bool result io"
  delete_target :: "registered_root \<Rightarrow> string \<Rightarrow> unit result io"
  restore_backup :: "registered_root \<Rightarrow> string \<Rightarrow> u32 \<Rightarrow> string \<Rightarrow> unit result io"
  cleanup_job :: "registered_root \<Rightarrow> string \<Rightarrow> path \<Rightarrow> unit result io"

datatype mutation_boundary = Before | After

datatype mutation_kind =
    AtomicReplaceTarget | AtomicRestoreBackup | RenameTargetToBackup | RenamePreparedToTarget
  | DeleteTarget | RestoreBackup | CleanupJob

record mutation_event =
  event_boundary :: mutation_boundary
  event_kind :: mutation_kind
  event_path :: "string option"

record policy =
  data_directory :: string
  policy_platform :: platform
  checkpoint :: "mutation_event \<Rightarrow> unit result io"

definition no_fault_injection :: "mutation_event \<Rightarrow> unit result io" where
  "no_fault_injection event = io_return (Ok ())"

record prepared_job =
  prepared_header :: journal_header
  job_directory :: path
  job_journal_path :: path

record commit_result =
  commit_job_id :: string
  commit_generation :: u64
  cleanup_pending :: bool

record recovery_result =
  discarded_prepared_jobs :: "string list"
  rolled_back_jobs :: "string list"
  committed_jobs :: "string list"

definition recovery_result_default :: recovery_result where
  "recovery_result_default =
     \<lparr>discarded_prepared_jobs = [], rolled_back_jobs = [], committed_jobs = []\<rparr>"

definition policy_new ::
  "external \<Rightarrow> string \<Rightarrow> platform \<Rightarrow> policy result io"
where
  "policy_new X directory plat =
     (if \<not> is_absolute directory
      then io_return (Err TransactionState ''service data directory must be absolute'')
      else
        io_then (io_err (maintenance_error_new TransactionIo
            ''service data directory cannot be created'')
          (fs_create_dir_all (fold_path X directory))) (\<lambda>_.
        io_then (io_err (maintenance_error_new TransactionIo
            ''service data directory cannot be canonicalized'')
          (fs_canonicalize X directory)) (\<lambda>canonical.
        io_return (Ok \<lparr>data_directory = canonical, policy_platform = plat,
          checkpoint = no_fault_injection\<rparr>))))"

definition jobs_path :: "external \<Rightarrow> policy \<Rightarrow> path" where
  "jobs_path X pol = fold_path X (data_directory pol) @ [''jobs'']"

subsection \<open>Mutations and verified copies\<close>

definition run_mutation ::
  "policy \<Rightarrow> mutation_kind \<Rightarrow> string option \<Rightarrow> unit result io \<Rightarrow> unit result io"
where
  "run_mutation pol kind p operation =
     io_then (checkpoint pol \<lparr>event_boundary = Before, event_kind = kind, event_path = p\<rparr>) (\<lambda>_.
     io_then operation (\<lambda>_.
     checkpoint pol \<lparr>event_boundary = After, event_kind = kind, event_path = p\<rparr>))"

text \<open>
  The copy loop: chunks of at most 64 KiB, each read (which may fail) before it is counted
  and written. The source is the text of the open reader.
\<close>

definition read_chunk :: "string \<Rightarrow> (io_error + string) io" where
  "read_chunk source = disk_call (\<lambda>c d. Inr (take 65536 source, d)) unchanged"

function copy_chunks :: "path \<Rightarrow> u64 \<Rightarrow> u64 \<Rightarrow> string \<Rightarrow> u64 result io" where
  "copy_chunks destination limit copied source =
     io_then (io_err (maintenance_error_new StagingInvalid ''staging payload read failed'')
       (read_chunk source)) (\<lambda>buffer.
     if source = [] then io_return (Ok copied)
     else
       io_then (lift_result (ok_or (checked_add copied (of_nat (length (take 65536 source))))
         (maintenance_error_new StagingInvalid ''staging payload size overflowed''))) (\<lambda>copied'.
       if copied' > limit
       then io_return (Err StagingInvalid ''staging payload is larger than the signed size'')
       else
         io_then (io_err transaction_io (fs_write_all destination buffer)) (\<lambda>_.
         copy_chunks destination limit copied' (drop 65536 source))))"
  by pat_completeness auto
termination
  by (relation "measure (\<lambda>(_, _, _, source). length source)") simp_all

definition copy_reader_verified :: "external \<Rightarrow> string \<Rightarrow> path \<Rightarrow> file_entry \<Rightarrow> unit result io" where
  "copy_reader_verified X source destination expected =
     io_then (io_err transaction_io (open_create_new destination)) (\<lambda>_.
     io_then (copy_chunks destination (entry_size expected) 0 source) (\<lambda>total.
     io_then
       (if total \<noteq> entry_size expected then io_return (Ok False)
        else io_then (lift_result (decode_lower_hex 32 (entry_sha256 expected) FileSetHash))
          (\<lambda>digest. io_return (Ok (sha256 X source = digest)))) (\<lambda>matches.
     if \<not> matches
     then io_return (Err StagingInvalid
       ''staging payload size or SHA-256 does not match the file set'')
     else io_err transaction_io (fs_sync_all destination))))"

definition encode_hex :: "bytes \<Rightarrow> string" where
  "encode_hex b = encode_lower_hex b"

subsection \<open>Prepare\<close>

definition ensure_available_space :: "policy \<Rightarrow> registered_root \<Rightarrow> u64 \<Rightarrow> unit result io" where
  "ensure_available_space pol root required =
     (let plat = policy_platform pol in
     io_then (same_volume plat (data_directory pol) (canonical_path root)) (\<lambda>same.
     io_then (lift_result
       (if same
        then ok_or (checked_mul required 2)
          (maintenance_error_new InsufficientSpace ''same-volume staging requirement overflowed'')
        else Ok required)) (\<lambda>private_required.
     io_then (available_space plat (data_directory pol)) (\<lambda>private_space.
     io_then
       (if private_space < private_required then io_return (Ok True)
        else if \<not> same
        then io_then (available_space plat (canonical_path root))
          (\<lambda>root_space. io_return (Ok (root_space < required)))
        else io_return (Ok False)) (\<lambda>short.
     if short
     then io_return (Err InsufficientSpace
       ''private staging or registered root has insufficient free space'')
     else io_return (Ok ()))))))"

text \<open>The three loops over the manifest.\<close>

fun copy_payloads ::
  "external \<Rightarrow> policy \<Rightarrow> string \<Rightarrow> path \<Rightarrow> nat \<Rightarrow> file_entry list \<Rightarrow> unit result io"
where
  "copy_payloads X pol staging payload_directory index [] = io_return (Ok ())"
| "copy_payloads X pol staging payload_directory index (e # es) =
     io_then (open_staging_payload (policy_platform pol) staging (entry_path e)) (\<lambda>source.
     io_then (copy_reader_verified X source (payload_directory @ [nat_to_string index]) e) (\<lambda>_.
     copy_payloads X pol staging payload_directory (Suc index) es))"

fun replace_entries ::
  "policy \<Rightarrow> registered_root \<Rightarrow> nat \<Rightarrow> file_entry list \<Rightarrow> journal_entry list result io"
where
  "replace_entries pol root index [] = io_return (Ok [])"
| "replace_entries pol root index (e # es) =
     io_then (lift_result (ok_or (u32_try_from index)
       (maintenance_error_new TransactionState ''prepared index overflowed''))) (\<lambda>i.
     io_then (inspect_target (policy_platform pol) root (entry_path e)) (\<lambda>snapshot.
     io_then (replace_entries pol root (Suc index) es) (\<lambda>rest.
     io_return (Ok (\<lparr>action = Replace, original = snapshot, target_name = entry_path e,
       prepared_index = Some i, transaction_index = i\<rparr> # rest)))))"

fun remove_entries ::
  "policy \<Rightarrow> registered_root \<Rightarrow> nat \<Rightarrow> nat \<Rightarrow> string list \<Rightarrow> journal_entry list result io"
where
  "remove_entries pol root file_count index [] = io_return (Ok [])"
| "remove_entries pol root file_count index (p # ps) =
     io_then (lift_result (ok_or
       (case usize_checked_add file_count index of None \<Rightarrow> None | Some i \<Rightarrow> u32_try_from i)
       (maintenance_error_new TransactionState ''transaction index overflowed''))) (\<lambda>i.
     io_then (inspect_target (policy_platform pol) root p) (\<lambda>snapshot.
     io_then (remove_entries pol root file_count (Suc index) ps) (\<lambda>rest.
     io_return (Ok (\<lparr>action = Remove, original = snapshot, target_name = p,
       prepared_index = None, transaction_index = i\<rparr> # rest)))))"

fun prepare_payloads ::
  "policy \<Rightarrow> registered_root \<Rightarrow> string \<Rightarrow> path \<Rightarrow> nat \<Rightarrow> file_entry list \<Rightarrow> unit result io"
where
  "prepare_payloads pol root job_id payload_directory index [] = io_return (Ok ())"
| "prepare_payloads pol root job_id payload_directory index (e # es) =
     io_then (lift_result (ok_or (u32_try_from index)
       (maintenance_error_new TransactionState ''prepared index overflowed''))) (\<lambda>i.
     io_then (prepare_target_payload (policy_platform pol) root job_id i
       (payload_directory @ [nat_to_string index]) e) (\<lambda>_.
     prepare_payloads pol root job_id payload_directory (Suc index) es))"

definition prepare_job_contents ::
  "external \<Rightarrow> verified_file_set \<Rightarrow> registered_root \<Rightarrow> string \<Rightarrow> policy \<Rightarrow> string \<Rightarrow> path \<Rightarrow> path
   \<Rightarrow> (journal_header \<times> path) result io"
where
  "prepare_job_contents X manifest root staging pol job_id job_dir payload_directory =
     (let fset = verified_file_set manifest in
     io_then (copy_payloads X pol staging payload_directory 0 (files fset)) (\<lambda>_.
     io_then (replace_entries pol root 0 (files fset)) (\<lambda>replaced.
     io_then (remove_entries pol root (length (files fset)) 0 (remove_files fset)) (\<lambda>removed.
     let header = \<lparr>entries = replaced @ removed, header_generation = file_set_generation fset,
           header_job_id = job_id, manifest_digest = encode_hex (file_set_digest manifest),
           header_root = root, header_schema = JOURNAL_SCHEMA\<rparr>;
         journal = job_dir @ [''journal.jsonl''] in
     io_then (write_new_journal X journal header) (\<lambda>_.
     io_then (prepare_payloads pol root job_id payload_directory 0 (files fset)) (\<lambda>_.
     io_return (Ok (header, journal))))))))"

definition declared_size :: "file_entry list \<Rightarrow> u64 option" where
  "declared_size es =
     fold (\<lambda>e total. case total of None \<Rightarrow> None | Some t \<Rightarrow> checked_add t (entry_size e)) es (Some 0)"

definition prepare_file_set ::
  "external \<Rightarrow> verified_file_set \<Rightarrow> registered_root \<Rightarrow> string \<Rightarrow> policy \<Rightarrow> prepared_job result io"
where
  "prepare_file_set X manifest root staging pol =
     (let plat = policy_platform pol; fset = verified_file_set manifest in
     io_then (verify_root_identity plat root) (\<lambda>_.
     if file_set_product_id fset \<noteq> root_product_id root
     then io_return (Err ProductMismatch ''verified file set belongs to another registered product'')
     else if \<not> is_absolute staging
     then io_return (Err StagingInvalid ''staging directory must be absolute'')
     else
       io_then (lift_result (ok_or (declared_size (files fset))
         (maintenance_error_new InsufficientSpace ''declared payload size overflowed''))) (\<lambda>required.
       io_then (ensure_available_space pol root required) (\<lambda>_.
       let job_id = job_identifier (root_id root) (file_set_generation fset)
             (encode_hex (file_set_digest manifest));
           job_dir = jobs_path X pol @ [job_id];
           payload_directory = job_dir @ [''payload''] in
       io_then (io_err transaction_io (fs_create_dir_all (jobs_path X pol))) (\<lambda>_.
       io_then (io_err (maintenance_error_new TransactionConflict
           ''a transaction with this manifest already exists'') (fs_create_dir job_dir)) (\<lambda>_.
       io_then (io_err transaction_io (fs_create_dir payload_directory)) (\<lambda>_.
       io_bind (prepare_job_contents X manifest root staging pol job_id job_dir payload_directory)
         (\<lambda>r. case r of
            Inr (header, journal) \<Rightarrow>
              io_return (Ok \<lparr>prepared_header = header, job_directory = job_dir,
                job_journal_path = journal\<rparr>)
          | Inl e \<Rightarrow>
              io_bind (cleanup_job plat root job_id job_dir) (\<lambda>_. io_return (Inl e))))))))))"

subsection \<open>Commit and rollback\<close>

fun verify_original_snapshots ::
  "platform \<Rightarrow> registered_root \<Rightarrow> journal_entry list \<Rightarrow> unit result io"
where
  "verify_original_snapshots plat root [] = io_return (Ok ())"
| "verify_original_snapshots plat root (e # es) =
     io_then (inspect_target plat root (target_name e)) (\<lambda>current.
     if current \<noteq> original e
     then io_return (Err RootIdentity ''target identity changed between prepare and commit'')
     else verify_original_snapshots plat root es)"

text \<open>One entry of \<open>apply_entries\<close>: the atomic replacement, or backup and activation.\<close>

definition apply_entry ::
  "policy \<Rightarrow> registered_root \<Rightarrow> string \<Rightarrow> journal_entry \<Rightarrow> unit result io"
where
  "apply_entry pol root job_id e =
     (let plat = policy_platform pol in
      if action e = Replace \<and> uses_atomic_replacement plat
      then
        run_mutation pol AtomicReplaceTarget (Some (target_name e))
          (io_then (atomic_replace_target plat root job_id (transaction_index e) (target_name e)
              (original e)) (\<lambda>done.
           if \<not> done
           then io_return (Err TransactionState
             ''atomic replacement platform refused its operation'')
           else io_return (Ok ())))
      else
        io_then
          (case original e of
             Some snapshot \<Rightarrow>
               run_mutation pol RenameTargetToBackup (Some (target_name e))
                 (rename_target_to_backup plat root job_id (transaction_index e) (target_name e)
                   snapshot)
           | None \<Rightarrow> io_return (Ok ())) (\<lambda>_.
        if action e = Replace
        then
          io_then (lift_result (ok_or (prepared_index e)
            (maintenance_error_new TransactionState
              ''replacement journal entry has no prepared index''))) (\<lambda>index.
          run_mutation pol RenamePreparedToTarget (Some (target_name e))
            (rename_prepared_to_target plat root job_id index (target_name e)))
        else io_return (Ok ())))"

definition apply_entries :: "policy \<Rightarrow> prepared_job \<Rightarrow> unit result io" where
  "apply_entries pol job =
     (let header = prepared_header job in
      io_each (apply_entry pol (header_root header) (header_job_id header)) (entries header))"

text \<open>One entry of \<open>rollback_entries\<close>.\<close>

definition rollback_entry ::
  "policy \<Rightarrow> registered_root \<Rightarrow> string \<Rightarrow> journal_entry \<Rightarrow> unit result io"
where
  "rollback_entry pol root job_id e =
     (let plat = policy_platform pol; index = transaction_index e; name = target_name e in
      io_then
        (if original e = None then io_return (Ok False)
         else backup_exists plat root job_id index) (\<lambda>backup.
      if backup
      then
        if uses_atomic_replacement plat
        then
          run_mutation pol AtomicRestoreBackup (Some name)
            (io_then (atomic_restore_backup plat root job_id index name) (\<lambda>done.
             if \<not> done
             then io_return (Err TransactionState
               ''atomic rollback platform refused its operation'')
             else io_return (Ok ())))
        else
          io_then (target_exists plat root name) (\<lambda>present.
          io_then
            (if present
             then run_mutation pol DeleteTarget (Some name) (delete_target plat root name)
             else io_return (Ok ())) (\<lambda>_.
          run_mutation pol RestoreBackup (Some name) (restore_backup plat root job_id index name)))
      else
        if original e = None
        then
          io_then (target_exists plat root name) (\<lambda>present.
          if present
          then run_mutation pol DeleteTarget (Some name) (delete_target plat root name)
          else io_return (Ok ()))
        else io_return (Ok ())))"

definition rollback_entries :: "policy \<Rightarrow> prepared_job \<Rightarrow> unit result io" where
  "rollback_entries pol job =
     (let header = prepared_header job in
      io_then (verify_root_identity (policy_platform pol) (header_root header)) (\<lambda>_.
      io_each (rollback_entry pol (header_root header) (header_job_id header))
        (rev (entries header))))"

definition cleanup_prepared_job :: "policy \<Rightarrow> prepared_job \<Rightarrow> unit result io" where
  "cleanup_prepared_job pol job =
     (let header = prepared_header job in
      run_mutation pol CleanupJob None
        (cleanup_job (policy_platform pol) (header_root header) (header_job_id header)
          (job_directory job)))"

text \<open>
  \<open>validate_absolute_directory\<close>. A directory below the canonical data directory is absolute,
  so a path of the model passes the first test; a directory given as text says so itself.
\<close>

definition validate_absolute_directory ::
  "bool \<Rightarrow> path \<Rightarrow> error_code \<Rightarrow> unit result io"
where
  "validate_absolute_directory absolute p c =
     (if \<not> absolute
      then io_return (Err c ''directory path must be absolute'')
      else
        io_then (io_err (maintenance_error_new c ''directory metadata is unavailable'')
          (fs_metadata p)) (\<lambda>n.
        if \<not> is_dir_node n
        then io_return (Err c ''directory is not a safe non-reparse directory'')
        else io_return (Ok ())))"

definition cleanup_private_prepared_job :: "policy \<Rightarrow> prepared_job \<Rightarrow> unit result io" where
  "cleanup_private_prepared_job pol job =
     run_mutation pol CleanupJob None
       (io_bind (fs_exists (job_directory job)) (\<lambda>present.
        if present
        then
          io_then (validate_absolute_directory True (job_directory job) TransactionIo) (\<lambda>_.
          io_err transaction_io (fs_remove_dir_all (job_directory job)))
        else io_return (Ok ())))"

text \<open>The error path that \<open>commit_file_set\<close> takes twice, with its two details.\<close>

definition undo_commit ::
  "external \<Rightarrow> policy \<Rightarrow> prepared_job \<Rightarrow> string \<Rightarrow> maintenance_error \<Rightarrow> commit_result result io"
where
  "undo_commit X pol job incomplete cause =
     io_bind (append_state X (job_journal_path job) RollingBack) (\<lambda>_.
     io_bind (rollback_entries pol job) (\<lambda>rolled.
     io_bind (if is_ok rolled then cleanup_prepared_job pol job else io_return rolled) (\<lambda>cleaned.
     if \<not> is_ok cleaned
     then io_return (Err RecoveryIncomplete incomplete)
     else io_return (Inl cause))))"

definition commit_file_set ::
  "external \<Rightarrow> policy \<Rightarrow> prepared_job \<Rightarrow> commit_result result io"
where
  "commit_file_set X pol job =
     (let plat = policy_platform pol; header = prepared_header job in
      io_then (verify_root_identity plat (header_root header)) (\<lambda>_.
      io_then (verify_original_snapshots plat (header_root header) (entries header)) (\<lambda>_.
      io_then (append_state X (job_journal_path job) Committing) (\<lambda>_.
      io_bind (apply_entries pol job) (\<lambda>applied.
      case applied of
        Inl commit_error \<Rightarrow>
          undo_commit X pol job ''commit failed and rollback must be resumed by recovery''
            commit_error
      | Inr _ \<Rightarrow>
          io_bind (append_state X (job_journal_path job) Committed) (\<lambda>recorded.
          if \<not> is_ok recorded
          then
            undo_commit X pol job
              ''journal commit failed and rollback must be resumed by recovery''
              (maintenance_error_new TransactionIo
                ''committed journal state could not be persisted'')
          else
            io_bind (cleanup_prepared_job pol job) (\<lambda>cleaned.
            io_return (Ok \<lparr>commit_job_id = header_job_id header,
              commit_generation = header_generation header,
              cleanup_pending = \<not> is_ok cleaned\<rparr>))))))))"

subsection \<open>Recovery\<close>

definition discard_job :: "string \<Rightarrow> recovery_result \<Rightarrow> recovery_result" where
  "discard_job j r = r\<lparr>discarded_prepared_jobs := discarded_prepared_jobs r @ [j]\<rparr>"

text \<open>The match on the journal state at the end of the recovery loop.\<close>

definition settle_job ::
  "external \<Rightarrow> policy \<Rightarrow> prepared_job \<Rightarrow> journal_state \<Rightarrow> recovery_result
   \<Rightarrow> recovery_result result io"
where
  "settle_job X pol job state result =
     (let j = header_job_id (prepared_header job) in
      case state of
        Prepared \<Rightarrow>
          io_then (cleanup_prepared_job pol job) (\<lambda>_. io_return (Ok (discard_job j result)))
      | Committed \<Rightarrow>
          io_then (cleanup_prepared_job pol job) (\<lambda>_.
          io_return (Ok (result\<lparr>committed_jobs := committed_jobs result @ [j]\<rparr>)))
      | _ \<Rightarrow>
          io_then
            (if state = Committing then append_state X (job_journal_path job) RollingBack
             else io_return (Ok ())) (\<lambda>_.
          io_then (rollback_entries pol job) (\<lambda>_.
          io_then (cleanup_prepared_job pol job) (\<lambda>_.
          io_return (Ok (result\<lparr>rolled_back_jobs := rolled_back_jobs result @ [j]\<rparr>))))))"

definition recover_job ::
  "external \<Rightarrow> journal_parsers \<Rightarrow> policy \<Rightarrow> string \<Rightarrow> recovery_result \<Rightarrow> recovery_result result io"
where
  "recover_job X J pol name result =
     (let plat = policy_platform pol;
          job_dir = jobs_path X pol @ [name];
          journal = job_dir @ [''journal.jsonl''] in
      io_then (io_err transaction_io (fs_metadata job_dir)) (\<lambda>n.
      if \<not> is_dir_node n
      then io_return (Err RecoveryIncomplete
        ''unexpected entry exists in the private jobs directory'')
      else
        io_bind (fs_exists journal) (\<lambda>present.
        if \<not> present
        then
          io_then (io_err transaction_io (fs_remove_dir_all job_dir)) (\<lambda>_.
          io_return (Ok (discard_job name result)))
        else
          io_then (read_journal X J journal) (\<lambda>(header, state).
          if name \<noteq> header_job_id header
          then io_return (Err RecoveryIncomplete
            ''transaction directory does not match journal job ID'')
          else
            (let job = \<lparr>prepared_header = header, job_directory = job_dir,
               job_journal_path = journal\<rparr> in
             io_bind (verify_root_identity plat (header_root header)) (\<lambda>identity.
             case identity of
               Inl identity_error \<Rightarrow>
                 io_bind (if state = Prepared then root_is_missing plat (header_root header)
                   else io_return False) (\<lambda>missing.
                 if missing
                 then
                   io_then (cleanup_private_prepared_job pol job) (\<lambda>_.
                   io_return (Ok (discard_job (header_job_id header) result)))
                 else io_return (Inl identity_error))
             | Inr _ \<Rightarrow> settle_job X pol job state result))))))"

fun recover_jobs ::
  "external \<Rightarrow> journal_parsers \<Rightarrow> policy \<Rightarrow> string list \<Rightarrow> recovery_result
   \<Rightarrow> recovery_result result io"
where
  "recover_jobs X J pol [] result = io_return (Ok result)"
| "recover_jobs X J pol (name # names) result =
     io_then (recover_job X J pol name result) (\<lambda>result. recover_jobs X J pol names result)"

definition recover_incomplete_with_policy ::
  "external \<Rightarrow> journal_parsers \<Rightarrow> policy \<Rightarrow> recovery_result result io"
where
  "recover_incomplete_with_policy X J pol =
     io_bind (fs_exists (jobs_path X pol)) (\<lambda>present.
     if \<not> present then io_return (Ok recovery_result_default)
     else
       io_then (io_err transaction_io (fs_read_dir (jobs_path X pol))) (\<lambda>names.
       recover_jobs X J pol names recovery_result_default))"

end
