(* ===== verification/Local_Platform.thy ===== *)
theory Local_Platform
  imports Transaction
begin

text \<open>
  The local platform of \<open>src/transaction.rs\<close>: the default methods of the trait
  \<open>TransactionPlatform\<close>, each a function \<open>local_...\<close> over the standard file system, with the
  path walks that refuse reparse points.
\<close>

definition RESERVED_ROOT_DIRECTORY :: string where
  "RESERVED_ROOT_DIRECTORY = ''.7launcher-maintenance''"

subsection \<open>Paths of a root\<close>

definition root_path :: "external \<Rightarrow> registered_root \<Rightarrow> path" where
  "root_path X root = fold_path X (canonical_path root)"

text \<open>\<open>root.join(relative_path.replace('/', "\"))\<close>.\<close>

definition target_path :: "external \<Rightarrow> registered_root \<Rightarrow> string \<Rightarrow> path" where
  "target_path X root name = root_path X root @ map (to_lowercase X) (split_on CHR ''/'' name)"

definition reserved_job_directory :: "external \<Rightarrow> registered_root \<Rightarrow> string \<Rightarrow> path" where
  "reserved_job_directory X root job_id =
     root_path X root @ [RESERVED_ROOT_DIRECTORY, ''jobs'', job_id]"

definition prepared_path :: "external \<Rightarrow> registered_root \<Rightarrow> string \<Rightarrow> u32 \<Rightarrow> path" where
  "prepared_path X root job_id index =
     reserved_job_directory X root job_id @ [''prepared'', word_to_string index]"

definition job_backup_path :: "external \<Rightarrow> registered_root \<Rightarrow> string \<Rightarrow> u32 \<Rightarrow> path" where
  "job_backup_path X root job_id index =
     reserved_job_directory X root job_id @ [''backup'', word_to_string index]"

subsection \<open>Checks on metadata and walks\<close>

fun metadata_identity :: "node \<Rightarrow> directory_identity" where
  "metadata_identity (File f) = file_identity f"
| "metadata_identity (Directory i) = i"
| "metadata_identity Reparse = \<lparr>volume_serial = 0, file_id = []\<rparr>"

fun safe_file :: "node \<Rightarrow> bool" where
  "safe_file (File f) = (\<not> multiple_links f)"
| "safe_file _ = False"

definition validate_regular_file_metadata :: "node \<Rightarrow> error_code \<Rightarrow> unit result" where
  "validate_regular_file_metadata n c =
     ensure (safe_file n) (maintenance_error_new c ''file is not a safe single-link regular file'')"

fun node_snapshot :: "node \<Rightarrow> target_snapshot" where
  "node_snapshot (File f) =
     \<lparr>snapshot_identity = file_identity f, snapshot_last_write_time = last_write_time f,
      snapshot_size = of_nat (length (contents f))\<rparr>"
| "node_snapshot n =
     \<lparr>snapshot_identity = metadata_identity n, snapshot_last_write_time = 0, snapshot_size = 0\<rparr>"

text \<open>The loop of \<open>checked_descendant\<close>: no component on the way may be a reparse point.\<close>

fun check_descent :: "path \<Rightarrow> error_code \<Rightarrow> string list \<Rightarrow> unit result io" where
  "check_descent current c [] = io_return (Ok ())"
| "check_descent current c (x # xs) =
     io_bind (fs_metadata (current @ [x])) (\<lambda>r. case r of
       Inr Reparse \<Rightarrow> io_return (Err c ''path traversal encountered a reparse point'')
     | Inr _ \<Rightarrow> check_descent (current @ [x]) c xs
     | Inl NotFound \<Rightarrow> io_return (Ok ())
     | Inl _ \<Rightarrow> io_return (Err c ''path component metadata cannot be inspected''))"

definition checked_descendant :: "external \<Rightarrow> path \<Rightarrow> string \<Rightarrow> error_code \<Rightarrow> path result io" where
  "checked_descendant X dir name c =
     (let components = map (to_lowercase X) (split_on CHR ''/'' name) in
      io_then (lift_result (validate_relative_path name)) (\<lambda>_.
      io_then (check_descent dir c components) (\<lambda>_.
      io_return (Ok (dir @ components)))))"

text \<open>
  The three directory walks: creating the missing directories of the reserved area and of a
  target's parents, and validating the reserved directories that exist.
\<close>

fun ensure_directories :: "bool \<Rightarrow> (string \<Rightarrow> maintenance_error) \<Rightarrow> path \<Rightarrow> string list \<Rightarrow> unit result io"
where
  "ensure_directories recheck err current [] = io_return (Ok ())"
| "ensure_directories recheck err current (x # xs) =
     io_bind (fs_metadata (current @ [x])) (\<lambda>r. case r of
       Inr n \<Rightarrow>
         if \<not> is_dir_node n then io_return (Inl (err ''contains an unsafe component''))
         else ensure_directories recheck err (current @ [x]) xs
     | Inl NotFound \<Rightarrow>
         io_then (io_err transaction_io (fs_create_dir (current @ [x]))) (\<lambda>_.
         if recheck
         then
           io_then (io_err transaction_io (fs_metadata (current @ [x]))) (\<lambda>n.
           if \<not> is_dir_node n
           then io_return (Err RootIdentity ''created transaction directory changed identity'')
           else ensure_directories recheck err (current @ [x]) xs)
         else ensure_directories recheck err (current @ [x]) xs)
     | Inl _ \<Rightarrow> io_return (Inl (err ''cannot be inspected'')))"

definition ensure_reserved_leaf_directory ::
  "external \<Rightarrow> registered_root \<Rightarrow> string \<Rightarrow> string \<Rightarrow> path result io"
where
  "ensure_reserved_leaf_directory X root job_id leaf =
     (if \<not> valid_internal_job_id job_id \<or> leaf \<notin> {''prepared'', ''backup''}
      then io_return (Err TransactionState ''reserved transaction path is invalid'')
      else
        io_then (ensure_directories True
          (\<lambda>what. maintenance_error_new RootIdentity (''reserved transaction path '' @ what))
          (root_path X root) [RESERVED_ROOT_DIRECTORY, ''jobs'', job_id, leaf]) (\<lambda>_.
        io_return (Ok (reserved_job_directory X root job_id @ [leaf]))))"

definition ensure_target_parent ::
  "external \<Rightarrow> registered_root \<Rightarrow> string \<Rightarrow> path result io"
where
  "ensure_target_parent X root name =
     (let components = map (to_lowercase X) (split_on CHR ''/'' name) in
      io_then (lift_result (validate_relative_path name)) (\<lambda>_.
      io_then (ensure_directories False
        (\<lambda>what. maintenance_error_new RootIdentity (''target parent '' @ what))
        (root_path X root) (butlast components)) (\<lambda>_.
      io_return (Ok (root_path X root @ butlast components)))))"

fun validate_directories :: "path \<Rightarrow> string list \<Rightarrow> unit result io" where
  "validate_directories current [] = io_return (Ok ())"
| "validate_directories current (x # xs) =
     io_bind (fs_metadata (current @ [x])) (\<lambda>r. case r of
       Inr n \<Rightarrow>
         if \<not> is_dir_node n
         then io_return (Err RootIdentity ''reserved transaction directory is not safe'')
         else validate_directories (current @ [x]) xs
     | Inl NotFound \<Rightarrow> io_return (Ok ())
     | Inl _ \<Rightarrow> io_return (Err RootIdentity
         ''reserved transaction directory cannot be inspected''))"

definition validate_reserved_job_directory ::
  "external \<Rightarrow> registered_root \<Rightarrow> string \<Rightarrow> unit result io"
where
  "validate_reserved_job_directory X root job_id =
     (if \<not> valid_internal_job_id job_id
      then io_return (Err RecoveryIncomplete ''transaction job ID is invalid'')
      else validate_directories (root_path X root) [RESERVED_ROOT_DIRECTORY, ''jobs'', job_id])"

subsection \<open>The operations\<close>

definition local_verify_root_identity :: "external \<Rightarrow> registered_root \<Rightarrow> unit result io" where
  "local_verify_root_identity X root =
     io_then (io_err (maintenance_error_new RootIdentity ''registered root cannot be reopened'')
       (fs_canonicalize X (canonical_path root))) (\<lambda>canonical.
     if canonical \<noteq> canonical_path root
     then io_return (Err RootIdentity ''registered root canonical path changed'')
     else
       io_then (io_err (maintenance_error_new RootIdentity
           ''registered root metadata is unavailable'')
         (fs_metadata (fold_path X canonical))) (\<lambda>n.
       if n = Reparse \<or> metadata_identity n \<noteq> root_identity root
       then io_return (Err RootIdentity ''registered root identity or reparse status changed'')
       else io_return (Ok ())))"

definition local_root_is_missing :: "external \<Rightarrow> registered_root \<Rightarrow> bool io" where
  "local_root_is_missing X root =
     io_bind (fs_metadata (root_path X root)) (\<lambda>r. io_return (r = Inl NotFound))"

definition local_open_staging_payload :: "external \<Rightarrow> string \<Rightarrow> string \<Rightarrow> string result io" where
  "local_open_staging_payload X staging_root name =
     io_then (lift_result (validate_relative_path name)) (\<lambda>_.
     io_then (io_err (maintenance_error_new StagingInvalid
         ''staging directory cannot be canonicalized'')
       (fs_canonicalize X staging_root)) (\<lambda>canonical.
     io_then (validate_absolute_directory (is_absolute canonical) (fold_path X canonical)
       StagingInvalid) (\<lambda>_.
     io_then (checked_descendant X (fold_path X canonical) name StagingInvalid) (\<lambda>source_path.
     io_then (io_err (maintenance_error_new StagingInvalid ''staging payload does not exist'')
       (fs_metadata source_path)) (\<lambda>path_metadata.
     io_then (lift_result (validate_regular_file_metadata path_metadata StagingInvalid)) (\<lambda>_.
     io_then (io_err (maintenance_error_new StagingInvalid ''staging payload cannot be opened'')
       (open_existing source_path)) (\<lambda>_.
     io_then (io_err (maintenance_error_new StagingInvalid
         ''staging handle metadata is unavailable'') (fs_metadata source_path)) (\<lambda>handle_metadata.
     if metadata_identity path_metadata \<noteq> metadata_identity handle_metadata
     then io_return (Err StagingInvalid ''staging payload changed while opening'')
     else
       io_return (Ok (case handle_metadata of File f \<Rightarrow> contents f | _ \<Rightarrow> []))))))))))"

definition local_inspect_target ::
  "external \<Rightarrow> registered_root \<Rightarrow> string \<Rightarrow> target_snapshot option result io"
where
  "local_inspect_target X root name =
     io_then (lift_result (validate_relative_path name)) (\<lambda>_.
     io_then (checked_descendant X (root_path X root) name RootIdentity) (\<lambda>target.
     io_bind (fs_metadata target) (\<lambda>r. case r of
       Inl NotFound \<Rightarrow> io_return (Ok None)
     | Inl _ \<Rightarrow> io_return (Err RootIdentity ''target metadata cannot be inspected'')
     | Inr n \<Rightarrow>
         io_then (lift_result (validate_regular_file_metadata n RootIdentity)) (\<lambda>_.
         io_return (Ok (Some (node_snapshot n)))))))"

definition local_prepare_target_payload ::
  "external \<Rightarrow> registered_root \<Rightarrow> string \<Rightarrow> u32 \<Rightarrow> path \<Rightarrow> file_entry \<Rightarrow> unit result io"
where
  "local_prepare_target_payload X root job_id index private_payload expected =
     io_then (ensure_reserved_leaf_directory X root job_id ''prepared'') (\<lambda>_.
     io_then (io_err transaction_io (open_reader private_payload)) (\<lambda>source.
     copy_reader_verified X source (prepared_path X root job_id index) expected))"

definition local_rename_target_to_backup ::
  "external \<Rightarrow> registered_root \<Rightarrow> string \<Rightarrow> u32 \<Rightarrow> string \<Rightarrow> target_snapshot \<Rightarrow> unit result io"
where
  "local_rename_target_to_backup X root job_id index name expected =
     io_then (local_inspect_target X root name) (\<lambda>current.
     if current \<noteq> Some expected
     then io_return (Err RootIdentity ''target identity changed before backup rename'')
     else
       io_then (ensure_reserved_leaf_directory X root job_id ''backup'') (\<lambda>_.
       io_bind (fs_exists (job_backup_path X root job_id index)) (\<lambda>present.
       if present
       then io_return (Err TransactionConflict ''transaction backup already exists'')
       else io_err transaction_io
         (fs_rename (target_path X root name) (job_backup_path X root job_id index)))))"

definition local_rename_prepared_to_target ::
  "external \<Rightarrow> registered_root \<Rightarrow> string \<Rightarrow> u32 \<Rightarrow> string \<Rightarrow> unit result io"
where
  "local_rename_prepared_to_target X root job_id index name =
     io_then (local_inspect_target X root name) (\<lambda>current.
     if current \<noteq> None
     then io_return (Err TransactionConflict ''target exists before prepared rename'')
     else
       io_then (io_err transaction_io (fs_metadata (prepared_path X root job_id index))) (\<lambda>n.
       io_then (lift_result (validate_regular_file_metadata n RootIdentity)) (\<lambda>_.
       io_then (ensure_target_parent X root name) (\<lambda>_.
       io_err transaction_io
         (fs_rename (prepared_path X root job_id index) (target_path X root name))))))"

definition local_target_exists :: "external \<Rightarrow> registered_root \<Rightarrow> string \<Rightarrow> bool result io" where
  "local_target_exists X root name =
     io_then (local_inspect_target X root name) (\<lambda>s. io_return (Ok (s \<noteq> None)))"

definition local_backup_exists ::
  "external \<Rightarrow> registered_root \<Rightarrow> string \<Rightarrow> u32 \<Rightarrow> bool result io"
where
  "local_backup_exists X root job_id index =
     io_then (validate_reserved_job_directory X root job_id) (\<lambda>_.
     io_bind (fs_metadata (job_backup_path X root job_id index)) (\<lambda>r. case r of
       Inr n \<Rightarrow>
         io_then (lift_result (validate_regular_file_metadata n RootIdentity)) (\<lambda>_.
         io_return (Ok True))
     | Inl NotFound \<Rightarrow> io_return (Ok False)
     | Inl _ \<Rightarrow> io_return (Err TransactionIo ''transaction backup cannot be inspected'')))"

definition local_delete_target :: "external \<Rightarrow> registered_root \<Rightarrow> string \<Rightarrow> unit result io" where
  "local_delete_target X root name =
     io_then (local_inspect_target X root name) (\<lambda>current.
     if current = None then io_return (Ok ())
     else
       io_bind (fs_remove_file (target_path X root name)) (\<lambda>r. case r of
         Inr _ \<Rightarrow> io_return (Ok ())
       | Inl NotFound \<Rightarrow> io_return (Ok ())
       | Inl _ \<Rightarrow> io_return (Err TransactionIo ''transaction target delete failed'')))"

definition local_restore_backup ::
  "external \<Rightarrow> registered_root \<Rightarrow> string \<Rightarrow> u32 \<Rightarrow> string \<Rightarrow> unit result io"
where
  "local_restore_backup X root job_id index name =
     io_then (local_inspect_target X root name) (\<lambda>current.
     if current \<noteq> None
     then io_return (Err TransactionConflict ''target exists before backup restore'')
     else
       io_then (io_err transaction_io (fs_metadata (job_backup_path X root job_id index))) (\<lambda>n.
       io_then (lift_result (validate_regular_file_metadata n RootIdentity)) (\<lambda>_.
       io_then (ensure_target_parent X root name) (\<lambda>_.
       io_err transaction_io
         (fs_rename (job_backup_path X root job_id index) (target_path X root name))))))"

definition local_cleanup_job ::
  "external \<Rightarrow> registered_root \<Rightarrow> string \<Rightarrow> path \<Rightarrow> unit result io"
where
  "local_cleanup_job X root job_id private_job_directory =
     (let reserved_job = reserved_job_directory X root job_id in
      io_bind (fs_exists reserved_job) (\<lambda>present.
      io_then
        (if present
         then
           io_then (validate_reserved_job_directory X root job_id) (\<lambda>_.
           io_err transaction_io (fs_remove_dir_all reserved_job))
         else io_return (Ok ())) (\<lambda>_.
      io_bind (fs_exists private_job_directory) (\<lambda>present.
      if present
      then
        io_then (validate_absolute_directory True private_job_directory TransactionIo) (\<lambda>_.
        io_err transaction_io (fs_remove_dir_all private_job_directory))
      else io_return (Ok ())))))"

text \<open>The platform of the default methods: unlimited space, one volume, no atomic exchange.\<close>

definition local_platform :: "external \<Rightarrow> platform" where
  "local_platform X =
     \<lparr>uses_atomic_replacement = False,
      atomic_replace_target = (\<lambda>root job index name old. io_return (Ok False)),
      atomic_restore_backup = (\<lambda>root job index name. io_return (Ok False)),
      verify_root_identity = local_verify_root_identity X,
      root_is_missing = local_root_is_missing X,
      available_space = (\<lambda>p. io_return (Ok (- 1))),
      same_volume = (\<lambda>a b. io_return (Ok True)),
      open_staging_payload = local_open_staging_payload X,
      inspect_target = local_inspect_target X,
      prepare_target_payload = local_prepare_target_payload X,
      rename_target_to_backup = local_rename_target_to_backup X,
      rename_prepared_to_target = local_rename_prepared_to_target X,
      target_exists = local_target_exists X,
      backup_exists = local_backup_exists X,
      delete_target = local_delete_target X,
      restore_backup = local_restore_backup X,
      cleanup_job = local_cleanup_job X\<rparr>"

end
