(* ===== verification/Journal_Log.thy ===== *)
theory Journal_Log
  imports Journal
begin

text \<open>
  What the journal of a transaction says. \<open>journal_text\<close> is the file that the writers of
  \<open>Journal\<close> leave when no write is torn; the lemmas say what the reader makes of it, of a
  torn last line, and of a record appended to a torn line. The records follow the state
  machine \<open>journal_step\<close>.
\<close>

subsection \<open>The state machine of the records\<close>

text \<open>The states a job passes through; a job without a durable record has none.\<close>

inductive journal_step :: "journal_state option \<Rightarrow> journal_state option \<Rightarrow> bool" where
  prepare: "journal_step None (Some Prepared)"
| begin_commit: "journal_step (Some Prepared) (Some Committing)"
| finish_commit: "journal_step (Some Committing) (Some Committed)"
| roll_back: "journal_step (Some Committing) (Some RollingBack)"

code_pred journal_step .

inductive_cases step_to_CommittedE: "journal_step a (Some Committed)"
inductive_cases step_from_CommittedE: "journal_step (Some Committed) b"
inductive_simps journal_step_simps [simp]:
  "journal_step None b" "journal_step (Some Prepared) b" "journal_step (Some Committing) b"
  "journal_step (Some Committed) b" "journal_step (Some RollingBack) b"

lemma valid_transition_step: "valid_transition a b \<longleftrightarrow> journal_step a (Some b)"
proof (cases a)
  case None
  then show ?thesis by (cases b) simp_all
next
  case (Some s)
  then show ?thesis by (cases s; cases b) simp_all
qed

text \<open>Any number of steps, with the records they write.\<close>

inductive journal_run :: "journal_state option \<Rightarrow> journal_state list \<Rightarrow> journal_state option \<Rightarrow> bool"
where
  stay: "journal_run a [] a"
| step: "journal_step a (Some s) \<Longrightarrow> journal_run (Some s) ss b \<Longrightarrow> journal_run a (s # ss) b"

inductive_simps journal_run_simps [simp]:
  "journal_run a [] b" "journal_run a (s # ss) b"

lemma journal_run_append:
  "journal_run a (ss @ ts) c \<longleftrightarrow> (\<exists>b. journal_run a ss b \<and> journal_run b ts c)"
  by (induction ss arbitrary: a) auto

lemma journal_run_end:
  "journal_run a ss b \<Longrightarrow> b = (if ss = [] then a else Some (last ss))"
  by (induction a ss b rule: journal_run.induct) auto

text \<open>The records of a whole run are one of the six possible histories.\<close>

lemma journal_histories:
  "journal_run None ss b \<longleftrightarrow>
     (ss, b) \<in> {([], None), ([Prepared], Some Prepared),
       ([Prepared, Committing], Some Committing),
       ([Prepared, Committing, Committed], Some Committed),
       ([Prepared, Committing, RollingBack], Some RollingBack)}"
proof
  assume r: "journal_run None ss b"
  have end_run: "journal_run (Some s) ts c \<longleftrightarrow> ts = [] \<and> c = Some s"
    if "s = Committed \<or> s = RollingBack" for s ts c
    using that by (cases ts) auto
  show "(ss, b) \<in> {([], None), ([Prepared], Some Prepared),
       ([Prepared, Committing], Some Committing),
       ([Prepared, Committing, Committed], Some Committed),
       ([Prepared, Committing, RollingBack], Some RollingBack)}"
  proof (cases ss)
    case (Cons s ts)
    with r have s: "s = Prepared" and ts: "journal_run (Some Prepared) ts b" by auto
    show ?thesis
    proof (cases ts)
      case (Cons t us)
      with ts have t: "t = Committing" and us: "journal_run (Some Committing) us b" by auto
      show ?thesis
      proof (cases us)
        case (Cons u vs)
        with us end_run show ?thesis
          using \<open>ss = s # ts\<close> \<open>ts = t # us\<close> s t by auto
      qed (use us \<open>ss = s # ts\<close> \<open>ts = t # us\<close> s t in simp)
    qed (use ts \<open>ss = s # ts\<close> s in simp)
  qed (use r in simp)
qed auto

subsection \<open>The text of the records\<close>

text \<open>A state record, as the canonical JSON of serde: the names are plain letters.\<close>

definition state_text :: "journal_state \<Rightarrow> string" where
  "state_text s = ''{'' @ [CHR 0x22] @ ''state'' @ [CHR 0x22] @ '':'' @ [CHR 0x22]
     @ journal_state_text s @ [CHR 0x22] @ ''}''"

definition state_line :: "journal_state \<Rightarrow> string" where
  "state_line s = state_text s @ [newline]"

definition state_names :: "string list" where
  "state_names = [''state'', ''prepared'', ''committing'', ''committed'', ''rolling_back'']"

text \<open>
  What the crate relies on of serde for the journal of \<open>h\<close>: strings of plain letters are
  printed between quotes, canonical JSON is one line, and the parsers read back what the
  printers wrote.
\<close>

definition journal_codec :: "external \<Rightarrow> journal_parsers \<Rightarrow> journal_header \<Rightarrow> string \<Rightarrow> bool" where
  "journal_codec X J h text \<longleftrightarrow>
     (\<forall>w \<in> set state_names. json_string_text X w = Some ([CHR 0x22] @ w @ [CHR 0x22]))
     \<and> (\<forall>s. parse_state J (state_text s) = Some s)
     \<and> canonical_json X (journal_header_to_value h) = Ok text
     \<and> text \<noteq> [] \<and> newline \<notin> set text
     \<and> parse_header J text = Some h"

definition journal_text :: "string \<Rightarrow> journal_state list \<Rightarrow> string" where
  "journal_text text ss = text @ [newline] @ concat (map state_line ss)"

lemma state_text_newline [simp]: "newline \<notin> set (state_text s)"
  by (cases s) (simp_all add: state_text_def newline_def)

lemma state_text_not_Nil [simp]: "state_text s \<noteq> []"
  by (simp add: state_text_def)

lemma state_text_length: "length (state_text s) \<le> 24"
  by (cases s) (simp_all add: state_text_def)

lemma state_text_inject [simp]: "state_text s = state_text t \<longleftrightarrow> s = t"
  by (cases s; cases t) (simp_all add: state_text_def)

text \<open>No record is a proper prefix of another.\<close>

lemma state_text_prefix: "take n (state_text s) = state_text t \<Longrightarrow> s = t"
proof -
  assume "take n (state_text s) = state_text t"
  then obtain r where "state_text s = state_text t @ r" by (metis append_take_drop_id)
  then show "s = t" by (cases s; cases t) (simp_all add: state_text_def)
qed

lemma state_to_value_text:
  assumes "journal_codec X J h text"
  shows "canonical_json X (journal_state_to_value s) = Ok (state_text s)"
proof -
  have "json_string_text X ''state'' = Some ([CHR 0x22] @ ''state'' @ [CHR 0x22])"
    "json_string_text X (journal_state_text s) = Some ([CHR 0x22] @ journal_state_text s @ [CHR 0x22])"
    using assms by (cases s; simp add: journal_codec_def state_names_def)+
  then show ?thesis
    by (simp add: journal_state_to_value_def canonical_json_def state_text_def)
qed

lemma journal_line_state:
  "journal_codec X J h text \<Longrightarrow> journal_line X (journal_state_to_value s) = Ok (state_line s)"
  by (simp add: journal_line_def state_to_value_text state_line_def)

lemma journal_line_header:
  "journal_codec X J h text \<Longrightarrow> journal_line X (journal_header_to_value h) = Ok (text @ [newline])"
  by (simp add: journal_line_def journal_codec_def)

lemma parse_state_line_iff:
  assumes "journal_codec X J h text"
  shows "parse_state_line X J line = Ok s \<longleftrightarrow> line = state_text s"
proof
  assume "parse_state_line X J line = Ok s"
  then show "line = state_text s"
    using state_to_value_text [OF assms, of s]
    by (auto simp: parse_state_line_def parse_canonical_Ok)
next
  assume "line = state_text s"
  then show "parse_state_line X J line = Ok s"
    using assms state_to_value_text [OF assms, of s] state_text_length [of s]
    by (auto simp: parse_state_line_def parse_canonical_Ok journal_codec_def)
qed

lemma parse_state_line_text [simp]:
  "journal_codec X J h text \<Longrightarrow> parse_state_line X J (state_text s) = Ok s"
  by (simp add: parse_state_line_iff)

lemma parse_state_line_other:
  assumes "journal_codec X J h text" and "\<And>s. line \<noteq> state_text s"
  obtains e where "parse_state_line X J line = Inl e"
  using parse_state_line_iff [OF assms(1), of line] assms(2)
  by (cases "parse_state_line X J line") auto

subsection \<open>What the reader makes of it\<close>

lemma split_journal:
  assumes "newline \<notin> set text" and "newline \<notin> set tail"
  shows "split_on newline (journal_text text ss @ tail) = text # map state_text ss @ [tail]"
proof -
  have "split_on newline (concat (map state_line ss) @ tail) = map state_text ss @ [tail]"
    by (induction ss) (simp_all add: state_line_def split_on_append split_on_id assms(2))
  with assms(1) show ?thesis by (simp add: journal_text_def split_on_append)
qed

lemma journal_text_ends:
  assumes "newline \<notin> set tail"
  shows "ends_with (journal_text text ss @ tail) [newline] \<longleftrightarrow> tail = []"
proof (cases tail rule: rev_cases)
  case Nil
  have "last (journal_text text ss) = newline"
    by (induction ss rule: rev_induct) (simp_all add: journal_text_def state_line_def)
  moreover have "journal_text text ss \<noteq> []" by (simp add: journal_text_def)
  ultimately show ?thesis using Nil by (simp add: ends_with_char)
qed (use assms in \<open>auto simp: ends_with_char\<close>)

lemma read_states_run:
  assumes "\<And>s. parse (state_text s) = Ok s"
  shows "journal_run a ss b \<Longrightarrow>
    read_states parse u a (map state_text ss @ rest) = read_states parse u b rest"
  by (induction a ss b rule: journal_run.induct)
    (simp_all add: assms validate_state_transition_def valid_transition_step)

text \<open>
  A journal that ends in \<open>tail\<close>, the start of one more record: the tail counts when it is the
  whole record, with or without its newline, and is ignored when it is torn.
\<close>

lemma parse_journal_torn:
  assumes codec: "journal_codec X J h text" and header: "validate_journal_header X h = Ok ()"
    and run: "journal_run None ss (Some a)" and next_state: "journal_step (Some a) (Some s)"
    and size: "length (journal_text text ss) + 25 \<le> MAX_MANIFEST_BYTES"
  shows "parse_journal X J (journal_text text ss @ take n (state_line s))
    = Ok (h, if n < length (state_text s) then a else s)"
proof -
  let ?p = "parse_state_line X J"
  have ct: "canonical_json X (journal_header_to_value h) = Ok text" "text \<noteq> []"
    "newline \<notin> set text" "parse_header J text = Some h"
    using codec by (simp_all add: journal_codec_def)
  have header_line: "parse_canonical X (parse_header J) (\<lambda>h. Some (journal_header_to_value h)) text
      MAX_MANIFEST_BYTES = Ok h"
    using ct size by (simp add: parse_canonical_Ok journal_text_def)
  have bytes: "parse_journal X J (journal_text text ts @ tail)
      = and_then (read_states ?p (tail \<noteq> []) None (map state_text ts @ [tail])) (\<lambda>state.
        and_then (ok_or state
          (maintenance_error_new RecoveryIncomplete ''journal has no durable state'')) (\<lambda>s.
        Ok (h, s)))"
    if "newline \<notin> set tail" "length (journal_text text ts @ tail) \<le> MAX_MANIFEST_BYTES" for ts tail
    using that ct header_line header
    by (simp add: parse_journal_def split_journal journal_text_ends Let_def)
  note read = read_states_run [where parse = ?p, OF parse_state_line_text [OF codec]]
  consider "n \<le> length (state_text s)" | "length (state_text s) < n" by linarith
  then show ?thesis
  proof cases
    case 1
    then have tail: "take n (state_line s) = take n (state_text s)" by (simp add: state_line_def)
    have "newline \<notin> set (take n (state_text s))"
      using state_text_newline [of s] by (meson in_set_takeD)
    moreover have "length (journal_text text ss @ take n (state_text s)) \<le> MAX_MANIFEST_BYTES"
      using size state_text_length [of s] by simp
    ultimately have "parse_journal X J (journal_text text ss @ take n (state_text s))
        = and_then (read_states ?p (take n (state_text s) \<noteq> []) None
            (map state_text ss @ [take n (state_text s)])) (\<lambda>state. and_then (ok_or state
            (maintenance_error_new RecoveryIncomplete ''journal has no durable state''))
            (\<lambda>s. Ok (h, s)))"
      by (rule bytes)
    then have eq: "parse_journal X J (journal_text text ss @ take n (state_line s))
        = and_then (read_states ?p (take n (state_text s) \<noteq> []) (Some a) [take n (state_text s)])
          (\<lambda>state. and_then (ok_or state
            (maintenance_error_new RecoveryIncomplete ''journal has no durable state''))
            (\<lambda>s. Ok (h, s)))"
      by (simp only: tail read [OF run])
    show ?thesis
    proof (cases "n = length (state_text s)")
      case True
      show ?thesis
        using eq next_state codec unfolding True
        by (simp add: validate_state_transition_def valid_transition_step)
    next
      case False
      with 1 have less: "n < length (state_text s)" by simp
      show ?thesis
      proof (cases "n = 0")
        case False
        have "take n (state_text s) \<noteq> state_text t" for t
          using state_text_prefix [of n s t] less
          by (metis length_take min.absorb4 nat_neq_iff)
        from parse_state_line_other [OF codec this] obtain e
          where "?p (take n (state_text s)) = Inl e" by blast
        with False less show ?thesis by (simp add: eq)
      qed (use less eq in simp)
    qed
  next
    case 2
    then have tail: "take n (state_line s) = state_line s" by (simp add: state_line_def)
    have "journal_run None (ss @ [s]) (Some s)"
      using run next_state by (auto simp: journal_run_append)
    note final = read [OF this]
    have "length (journal_text text (ss @ [s]) @ []) \<le> MAX_MANIFEST_BYTES"
      using size state_text_length [of s] by (simp add: journal_text_def state_line_def)
    from bytes [OF _ this] final
    have "parse_journal X J (journal_text text (ss @ [s])) = Ok (h, s)" by simp
    then show ?thesis using 2 tail by (simp add: journal_text_def)
  qed
qed

lemma parse_journal_whole:
  assumes "journal_codec X J h text" and "validate_journal_header X h = Ok ()"
    and "journal_run None ss (Some a)"
    and "length (journal_text text ss) \<le> MAX_MANIFEST_BYTES"
  shows "parse_journal X J (journal_text text ss) = Ok (h, a)"
proof -
  have ct: "canonical_json X (journal_header_to_value h) = Ok text" "text \<noteq> []"
    "newline \<notin> set text" "parse_header J text = Some h"
    using assms(1) by (simp_all add: journal_codec_def)
  have "parse_canonical X (parse_header J) (\<lambda>h. Some (journal_header_to_value h)) text
      MAX_MANIFEST_BYTES = Ok h"
    using ct assms(4) by (simp add: parse_canonical_Ok journal_text_def)
  with ct assms(2,4) show ?thesis
    using split_journal [of "text" "[]" ss] journal_text_ends [of "[]" "text" ss]
      read_states_run [where parse = "parse_state_line X J",
        OF parse_state_line_text [OF assms(1)] assms(3), of False "[[]]"]
    by (simp add: parse_journal_def Let_def)
qed

text \<open>
  A record that is appended to a torn line, or to a complete record that lacks its newline,
  makes the journal unreadable.
\<close>

lemma torn_then_record:
  assumes "0 < n" and "n \<le> length (state_text s)"
  shows "take n (state_text s) @ state_text t \<noteq> state_text u"
proof -
  have "list_all (\<lambda>s. list_all (\<lambda>t. list_all (\<lambda>u. list_all (\<lambda>n.
      take n (state_text s) @ state_text t \<noteq> state_text u) [1..<25])
      [Prepared, Committing, Committed, RollingBack])
      [Prepared, Committing, Committed, RollingBack])
      [Prepared, Committing, Committed, RollingBack]"
    by code_simp
  moreover have "v \<in> set [Prepared, Committing, Committed, RollingBack]" for v :: journal_state
    by (cases v) simp_all
  moreover have "n \<in> set [1..<25]" using assms state_text_length [of s] by simp
  ultimately show ?thesis unfolding list_all_iff by blast
qed

lemma parse_journal_torn_append:
  assumes codec: "journal_codec X J h text" and header: "validate_journal_header X h = Ok ()"
    and run: "journal_run None ss (Some a)"
    and torn: "0 < n" "n \<le> length (state_text s)"
    and size: "length (journal_text text ss) + 50 \<le> MAX_MANIFEST_BYTES"
  shows "\<exists>e. parse_journal X J (journal_text text ss @ take n (state_text s) @ state_line t) = Inl e
    \<and> code e = RecoveryIncomplete"
proof -
  let ?p = "parse_state_line X J" and ?line = "take n (state_text s) @ state_text t"
  have ct: "canonical_json X (journal_header_to_value h) = Ok text" "text \<noteq> []"
    "newline \<notin> set text" "parse_header J text = Some h"
    using codec by (simp_all add: journal_codec_def)
  have header_line: "parse_canonical X (parse_header J) (\<lambda>h. Some (journal_header_to_value h)) text
      MAX_MANIFEST_BYTES = Ok h"
    using ct size by (simp add: parse_canonical_Ok journal_text_def)
  have no_newline: "newline \<notin> set ?line"
    using state_text_newline by (auto dest: in_set_takeD)
  have "split_on newline (concat (map state_line ss) @ ?line @ [newline])
      = map state_text ss @ [?line, []]"
    using no_newline split_on_append [of newline ?line "[]"]
    by (induction ss) (simp_all add: state_line_def split_on_append)
  then have lines: "split_on newline (journal_text text ss @ take n (state_text s) @ state_line t)
      = text # map state_text ss @ [?line, []]"
    using ct(3) by (simp add: journal_text_def state_line_def split_on_append)
  obtain e where e: "?p ?line = Inl e"
    using parse_state_line_other [OF codec torn_then_record [OF torn]] by blast
  have "length (journal_text text ss @ take n (state_text s) @ state_line t) \<le> MAX_MANIFEST_BYTES"
    using size state_text_length [of s] state_text_length [of t] by (simp add: state_line_def)
  with ct header_line header lines e torn
    read_states_run [where parse = ?p, OF parse_state_line_text [OF codec] run]
  show ?thesis by (simp add: parse_journal_def Let_def)
qed

subsection \<open>Appending a record\<close>

text \<open>\<open>b'\<close> is the journal \<open>b\<close> with the start of a record behind it.\<close>

definition appended :: "journal_state \<Rightarrow> string \<Rightarrow> string \<Rightarrow> bool" where
  "appended s b b' \<longleftrightarrow> (\<exists>n. b' = b @ take n (state_line s))"

lemma appended_intros [simp]:
  "appended s b (b @ take n (state_line s))" "appended s b (b @ state_line s)" "appended s b b"
  unfolding appended_def
  by (blast, metis order_refl take_all, metis append_Nil2 take0)

lemma append_state_wp:
  assumes codec: "journal_codec X J h text" and old: "file_at d p = Some b"
  shows "wp M (append_state X p s)
     (\<lambda>r d'. (\<forall>q. q \<noteq> p \<longrightarrow> node_at d' q = node_at d q)
        \<and> (\<exists>b'. file_at d' p = Some b' \<and> appended s b b' \<and> (is_ok r \<longrightarrow> b' = b @ state_line s))
        \<and> (is_ok r \<or> fails M))
     (\<lambda>d'. (\<forall>q. q \<noteq> p \<longrightarrow> node_at d' q = node_at d q)
        \<and> (\<exists>b'. file_at d' p = Some b' \<and> appended s b b')) d"
proof -
  obtain f where f: "node_at d p = Some (File f)" "contents f = b"
    using old by (auto simp: file_at_Some)
  show ?thesis
    unfolding append_state_def io_err_def journal_line_state [OF codec] lift_result_def
    by (intro wp_then wp_map_err wp_calls wp_return)
      (use f old in \<open>auto simp: node_at_append_bytes intro!: wp_then wp_map_err wp_calls wp_return\<close>)
qed

end
