(* ===== verification/Engine.thy ===== *)
theory Engine
  imports Journal_Log Transaction
begin

text \<open>
  The transaction engine against the contract of its platform. The locale states what the
  engine relies on: every operation of the platform moves, deletes or inspects one file at a
  time, leaves the rest of the job and every path outside the root alone, and fails only
  when a call fails or its precondition does. The lemmas are about \<open>apply_entries\<close>,
  \<open>rollback_entries\<close>, \<open>commit_file_set\<close> and the recovery, at every point where the machine may
  stop or a call may fail.
\<close>

text \<open>Asking for a value that does not change the disk.\<close>

lemma wp_ask:
  assumes "wp M m (\<lambda>r d'. d' = d \<and> (if is_ok r then r = Ok v else fails M)) (\<lambda>d'. d' = d) d"
    and "wp M (f v) Q C d" and "C d" and "\<And>x. fails M \<Longrightarrow> Q (Inl x) d"
  shows "wp M (io_then m f) Q C d"
  by (rule wp_then, rule wp_conseq [OF assms(1)]) (use assms(2-4) in \<open>auto split: sum.splits\<close>)

subsection \<open>The files of a job\<close>

record job_files =
  target_files :: "string \<Rightarrow> stored_file option"
  backup_files :: "u32 \<Rightarrow> stored_file option"
  prepared_files :: "u32 \<Rightarrow> stored_file option"

text \<open>The engine does nothing around a mutation when the policy injects no faults.\<close>

lemma run_mutation_plain:
  assumes "checkpoint pol = no_fault_injection"
  shows "run_mutation pol k p m = m"
proof
  fix w :: world
  show "run_mutation pol k p m w = m w"
    by (cases "m w"; cases "fst (m w)"; cases "\<exists>e. fst (m w) = Returned (Inl e)")
      (auto simp: run_mutation_def assms no_fault_injection_def io_then_def io_bind_def
        io_return_def split: sum.splits)
qed

text \<open>What the entries of a job satisfy.\<close>

definition entries_ok :: "string set \<Rightarrow> u32 set \<Rightarrow> journal_entry list \<Rightarrow> bool" where
  "entries_ok names indices es \<longleftrightarrow>
     distinct (map target_name es) \<and> distinct (map transaction_index es)
     \<and> set (map target_name es) \<subseteq> names \<and> set (map transaction_index es) \<subseteq> indices
     \<and> (\<forall>e \<in> set es. action e = Replace \<longrightarrow> prepared_index e = Some (transaction_index e))"

text \<open>The file that a job puts at an entry, given the files it prepared.\<close>

definition new_target :: "(u32 \<Rightarrow> stored_file option) \<Rightarrow> journal_entry \<Rightarrow> stored_file option" where
  "new_target prep e = (if action e = Replace then prep (transaction_index e) else None)"

text \<open>
  The invariant of one entry while a job is under way: a file that was there is still there,
  in its backup or at its place, and the backup has precedence. \<open>old\<close> is the file at the
  entry before the job.
\<close>

definition intact :: "(string \<Rightarrow> stored_file option) \<Rightarrow> job_files \<Rightarrow> journal_entry \<Rightarrow> bool" where
  "intact old F e \<longleftrightarrow>
     (case old (target_name e) of
        None \<Rightarrow> backup_files F (transaction_index e) = None
      | Some f \<Rightarrow> backup_files F (transaction_index e) = Some f
          \<or> (backup_files F (transaction_index e) = None \<and> target_files F (target_name e) = Some f))"

definition restored :: "(string \<Rightarrow> stored_file option) \<Rightarrow> job_files \<Rightarrow> journal_entry \<Rightarrow> bool" where
  "restored old F e \<longleftrightarrow>
     target_files F (target_name e) = old (target_name e)
     \<and> backup_files F (transaction_index e) = None"

definition applied ::
  "(string \<Rightarrow> stored_file option) \<Rightarrow> (u32 \<Rightarrow> stored_file option) \<Rightarrow> job_files \<Rightarrow> journal_entry \<Rightarrow> bool"
where
  "applied old prep F e \<longleftrightarrow> intact old F e \<and> target_files F (target_name e) = new_target prep e"

definition fresh ::
  "(string \<Rightarrow> stored_file option) \<Rightarrow> (u32 \<Rightarrow> stored_file option) \<Rightarrow> job_files \<Rightarrow> journal_entry \<Rightarrow> bool"
where
  "fresh old prep F e \<longleftrightarrow> restored old F e
     \<and> prepared_files F (transaction_index e) = prep (transaction_index e)"

text \<open>An operation on one entry leaves the files of the others alone.\<close>

definition elsewhere_same :: "journal_entry \<Rightarrow> job_files \<Rightarrow> job_files \<Rightarrow> bool" where
  "elsewhere_same e F F' \<longleftrightarrow>
     (\<forall>n. n \<noteq> target_name e \<longrightarrow> target_files F' n = target_files F n)
     \<and> (\<forall>i. i \<noteq> transaction_index e \<longrightarrow> backup_files F' i = backup_files F i)
     \<and> (\<forall>i. i \<noteq> transaction_index e \<longrightarrow> prepared_files F' i = prepared_files F i)"

lemma elsewhere_refl [simp]: "elsewhere_same e F F"
  by (simp add: elsewhere_same_def)

lemma elsewhere_trans: "elsewhere_same e F G \<Longrightarrow> elsewhere_same e G H \<Longrightarrow> elsewhere_same e F H"
  by (simp add: elsewhere_same_def)

lemma elsewhere_upd [simp]:
  "elsewhere_same e F (F\<lparr>target_files := (target_files F)(target_name e := x)\<rparr>)"
  "elsewhere_same e F (F\<lparr>target_files := (target_files F)(target_name e := x),
     backup_files := (backup_files F)(transaction_index e := y)\<rparr>)"
  "elsewhere_same e F (F\<lparr>target_files := (target_files F)(target_name e := x),
     prepared_files := (prepared_files F)(transaction_index e := y)\<rparr>)"
  by (simp_all add: elsewhere_same_def)

lemma elsewhere_keeps:
  assumes "elsewhere_same e F F'" and "target_name e' \<noteq> target_name e"
    and "transaction_index e' \<noteq> transaction_index e"
  shows "intact old F' e' \<longleftrightarrow> intact old F e'" and "restored old F' e' \<longleftrightarrow> restored old F e'"
    and "applied old prep F' e' \<longleftrightarrow> applied old prep F e'"
    and "fresh old prep F' e' \<longleftrightarrow> fresh old prep F e'"
  using assms
  by (auto simp: elsewhere_same_def intact_def restored_def applied_def fresh_def
      split: option.splits)

lemma entries_apart:
  assumes "entries_ok names indices (ys @ e # zs)" and "e' \<in> set ys \<union> set zs"
  shows "target_name e' \<noteq> target_name e" and "transaction_index e' \<noteq> transaction_index e"
proof -
  have "target_name e' \<in> target_name ` (set ys \<union> set zs)"
    "transaction_index e' \<in> transaction_index ` (set ys \<union> set zs)"
    using assms(2) by blast+
  with assms(1) show "target_name e' \<noteq> target_name e"
    "transaction_index e' \<noteq> transaction_index e"
    unfolding entries_ok_def by auto
qed

lemma entries_ok_member:
  assumes "entries_ok names indices es" and "e \<in> set es"
  shows "target_name e \<in> names" and "transaction_index e \<in> indices"
    and "action e = Replace \<Longrightarrow> prepared_index e = Some (transaction_index e)"
  using assms by (auto simp: entries_ok_def)

lemma entries_ok_rev: "entries_ok names indices (rev es) = entries_ok names indices es"
  by (simp add: entries_ok_def rev_map [symmetric])

lemma restored_intact: "restored old F e \<Longrightarrow> intact old F e"
  by (auto simp: restored_def intact_def split: option.splits)

subsection \<open>The contract of the platform\<close>

locale transaction_platform =
  fixes plat :: platform and root :: registered_root and job_id :: string and job_dir :: path
    and names :: "string set" and indices :: "u32 set"
    and own :: "path \<Rightarrow> bool" and sane :: "disk \<Rightarrow> bool" and files_of :: "disk \<Rightarrow> job_files"
    and snapshot :: "stored_file \<Rightarrow> target_snapshot"
  assumes exchange: "\<not> uses_atomic_replacement plat"
    and outside: "sane d \<Longrightarrow> below (parent job_dir) q \<Longrightarrow> \<not> own q"
    and job_dir_parent: "sane d \<Longrightarrow> job_dir = parent job_dir @ [job_id]"
    and depends: "sane d \<Longrightarrow> (\<forall>q. own q \<longrightarrow> node_at d' q = node_at d q) \<Longrightarrow>
      sane d' \<and> files_of d' = files_of d"
    and verify_law: "sane d \<Longrightarrow>
      wp M (verify_root_identity plat root)
        (\<lambda>r d'. d' = d \<and> (if is_ok r then r = Ok () else fails M)) (\<lambda>d'. d' = d) d"
    and inspect_law: "sane d \<Longrightarrow> n \<in> names \<Longrightarrow>
      wp M (inspect_target plat root n)
        (\<lambda>r d'. d' = d \<and> (if is_ok r then r = Ok (map_option snapshot (target_files (files_of d) n))
          else fails M)) (\<lambda>d'. d' = d) d"
    and target_exists_law: "sane d \<Longrightarrow> n \<in> names \<Longrightarrow>
      wp M (target_exists plat root n)
        (\<lambda>r d'. d' = d \<and> (if is_ok r then r = Ok (target_files (files_of d) n \<noteq> None)
          else fails M)) (\<lambda>d'. d' = d) d"
    and backup_exists_law: "sane d \<Longrightarrow> i \<in> indices \<Longrightarrow>
      wp M (backup_exists plat root job_id i)
        (\<lambda>r d'. d' = d \<and> (if is_ok r then r = Ok (backup_files (files_of d) i \<noteq> None)
          else fails M)) (\<lambda>d'. d' = d) d"
    and backup_law: "sane d \<Longrightarrow> n \<in> names \<Longrightarrow> i \<in> indices \<Longrightarrow> files_of d = F \<Longrightarrow>
      wp M (rename_target_to_backup plat root job_id i n s)
        (\<lambda>r d'. sane d' \<and> (\<forall>q. \<not> own q \<longrightarrow> node_at d' q = node_at d q)
          \<and> (if is_ok r
             then \<exists>f. target_files F n = Some f
               \<and> files_of d' = F\<lparr>target_files := (target_files F)(n := None),
                   backup_files := (backup_files F)(i := Some f)\<rparr>
             else files_of d' = F \<and> (fails M \<or> backup_files F i \<noteq> None
               \<or> map_option snapshot (target_files F n) \<noteq> Some s)))
        (\<lambda>d'. sane d' \<and> (\<forall>q. \<not> own q \<longrightarrow> node_at d' q = node_at d q) \<and> files_of d' = F) d"
    and activate_law: "sane d \<Longrightarrow> n \<in> names \<Longrightarrow> i \<in> indices \<Longrightarrow> files_of d = F \<Longrightarrow>
      wp M (rename_prepared_to_target plat root job_id i n)
        (\<lambda>r d'. sane d' \<and> (\<forall>q. \<not> own q \<longrightarrow> node_at d' q = node_at d q)
          \<and> (if is_ok r
             then \<exists>f. prepared_files F i = Some f
               \<and> files_of d' = F\<lparr>target_files := (target_files F)(n := Some f),
                   prepared_files := (prepared_files F)(i := None)\<rparr>
             else files_of d' = F \<and> (fails M \<or> prepared_files F i = None
               \<or> target_files F n \<noteq> None)))
        (\<lambda>d'. sane d' \<and> (\<forall>q. \<not> own q \<longrightarrow> node_at d' q = node_at d q) \<and> files_of d' = F) d"
    and delete_law: "sane d \<Longrightarrow> n \<in> names \<Longrightarrow> files_of d = F \<Longrightarrow>
      wp M (delete_target plat root n)
        (\<lambda>r d'. sane d' \<and> (\<forall>q. \<not> own q \<longrightarrow> node_at d' q = node_at d q)
          \<and> (if is_ok r then files_of d' = F\<lparr>target_files := (target_files F)(n := None)\<rparr>
             else files_of d' = F \<and> fails M))
        (\<lambda>d'. sane d' \<and> (\<forall>q. \<not> own q \<longrightarrow> node_at d' q = node_at d q) \<and> files_of d' = F) d"
    and restore_law: "sane d \<Longrightarrow> n \<in> names \<Longrightarrow> i \<in> indices \<Longrightarrow> files_of d = F \<Longrightarrow>
      wp M (restore_backup plat root job_id i n)
        (\<lambda>r d'. sane d' \<and> (\<forall>q. \<not> own q \<longrightarrow> node_at d' q = node_at d q)
          \<and> (if is_ok r
             then \<exists>f. backup_files F i = Some f
               \<and> files_of d' = F\<lparr>target_files := (target_files F)(n := Some f),
                   backup_files := (backup_files F)(i := None)\<rparr>
             else files_of d' = F \<and> (fails M \<or> backup_files F i = None \<or> target_files F n \<noteq> None)))
        (\<lambda>d'. sane d' \<and> (\<forall>q. \<not> own q \<longrightarrow> node_at d' q = node_at d q) \<and> files_of d' = F) d"
    and cleanup_law: "sane d \<Longrightarrow> files_of d = F \<Longrightarrow>
      wp M (cleanup_job plat root job_id job_dir)
        (\<lambda>r d'. sane d' \<and> target_files (files_of d') = target_files F
          \<and> (\<forall>i. backup_files (files_of d') i \<in> {None, backup_files F i})
          \<and> (\<forall>q. \<not> own q \<longrightarrow> \<not> below job_dir q \<longrightarrow> node_at d' q = node_at d q)
          \<and> (\<forall>q q'. below job_dir q \<longrightarrow> below q q' \<longrightarrow> node_at d' q' \<noteq> None \<longrightarrow>
               node_at d' q = node_at d q)
          \<and> (\<not> fails M \<longrightarrow> is_directory d job_dir \<longrightarrow>
               is_ok r \<and> (\<forall>q. below job_dir q \<longrightarrow> node_at d' q = None)))
        (\<lambda>d'. sane d' \<and> target_files (files_of d') = target_files F
          \<and> (\<forall>i. backup_files (files_of d') i \<in> {None, backup_files F i})
          \<and> (\<forall>q. \<not> own q \<longrightarrow> \<not> below job_dir q \<longrightarrow> node_at d' q = node_at d q)
          \<and> (\<forall>q q'. below job_dir q \<longrightarrow> below q q' \<longrightarrow> node_at d' q' \<noteq> None \<longrightarrow>
               node_at d' q = node_at d q)) d"
begin

text \<open>A disk that differs from \<open>d\<close> within the root only, and holds the files \<open>F\<close> there.\<close>

definition becomes :: "disk \<Rightarrow> job_files \<Rightarrow> disk \<Rightarrow> bool" where
  "becomes d F d' \<longleftrightarrow> sane d' \<and> files_of d' = F \<and> (\<forall>q. \<not> own q \<longrightarrow> node_at d' q = node_at d q)"

lemma becomes_refl: "sane d \<Longrightarrow> files_of d = F \<Longrightarrow> becomes d F d"
  by (simp add: becomes_def)

lemma becomes_trans: "becomes d F d1 \<Longrightarrow> becomes d1 G d2 \<Longrightarrow> becomes d G d2"
  by (simp add: becomes_def)

lemma becomesD: "becomes d F d' \<Longrightarrow> sane d'" "becomes d F d' \<Longrightarrow> files_of d' = F"
  by (simp_all add: becomes_def)


subsection \<open>One entry\<close>

lemma backup_step:
  assumes "sane d" "files_of d = F" "target_name e \<in> names" "transaction_index e \<in> indices"
    and "original e = map_option snapshot (old (target_name e))"
    and "target_files F (target_name e) = old (target_name e)"
    and "backup_files F (transaction_index e) = None"
  shows "wp M (case original e of
        Some s \<Rightarrow> rename_target_to_backup plat root job_id (transaction_index e) (target_name e) s
      | None \<Rightarrow> io_return (Ok ()))
     (\<lambda>r d'. \<exists>F'. becomes d F' d' \<and> elsewhere_same e F F' \<and> intact old F' e
        \<and> prepared_files F' = prepared_files F
        \<and> (if is_ok r then target_files F' (target_name e) = None else fails M))
     (\<lambda>d'. \<exists>F'. becomes d F' d' \<and> elsewhere_same e F F' \<and> intact old F' e) d"
proof (cases "old (target_name e)")
  case None
  with assms show ?thesis
    by (auto intro!: wp_return exI [of _ F] simp: becomes_refl intact_def)
next
  case (Some f)
  let ?G = "F\<lparr>target_files := (target_files F)(target_name e := None),
    backup_files := (backup_files F)(transaction_index e := Some f)\<rparr>"
  have start: "intact old F e" using assms Some by (simp add: intact_def)
  have moved: "intact old ?G e" "elsewhere_same e F ?G" using Some by (simp_all add: intact_def)
  have "wp M (rename_target_to_backup plat root job_id (transaction_index e) (target_name e)
        (snapshot f))
     (\<lambda>r d'. \<exists>F'. becomes d F' d' \<and> elsewhere_same e F F' \<and> intact old F' e
        \<and> prepared_files F' = prepared_files F
        \<and> (if is_ok r then target_files F' (target_name e) = None else fails M))
     (\<lambda>d'. \<exists>F'. becomes d F' d' \<and> elsewhere_same e F F' \<and> intact old F' e) d"
  proof (rule wp_conseq [OF backup_law [OF assms(1,3,4,2)]], goal_cases)
    case (1 r d')
    show ?case
    proof (cases "is_ok r")
      case True
      with 1 assms(6) Some have "becomes d ?G d'" by (auto simp: becomes_def)
      with True moved show ?thesis by (intro exI [of _ ?G]) simp
    next
      case False
      with 1 assms(6,7) Some have "becomes d F d'" "fails M" by (auto simp: becomes_def)
      with False start show ?thesis by auto
    qed
  next
    case (2 d')
    with start show ?case by (intro exI [of _ F]) (simp add: becomes_def)
  qed
  with Some assms(5) show ?thesis by simp
qed

lemma apply_entry_wp:
  assumes pol: "checkpoint pol = no_fault_injection" "policy_platform pol = plat"
    and d: "sane d" "files_of d = F" "target_name e \<in> names" "transaction_index e \<in> indices"
    and index: "action e = Replace \<Longrightarrow> prepared_index e = Some (transaction_index e)"
    and old: "original e = map_option snapshot (old (target_name e))"
      "target_files F (target_name e) = old (target_name e)"
      "backup_files F (transaction_index e) = None"
    and new: "action e = Replace \<Longrightarrow> prepared_files F (transaction_index e) \<noteq> None"
  shows "wp M (apply_entry pol root job_id e)
     (\<lambda>r d'. \<exists>F'. becomes d F' d' \<and> elsewhere_same e F F' \<and> intact old F' e
        \<and> (if is_ok r then target_files F' (target_name e) = new_target (prepared_files F) e
           else fails M))
     (\<lambda>d'. \<exists>F'. becomes d F' d' \<and> elsewhere_same e F F' \<and> intact old F' e) d"
    (is "wp M _ ?Q ?C d")
proof -
  note first = backup_step [where old = old and M = M, OF d old]
  show ?thesis
  proof (cases "action e")
    case Remove
    have "apply_entry pol root job_id e = io_then (case original e of
        Some s \<Rightarrow> rename_target_to_backup plat root job_id (transaction_index e) (target_name e) s
      | None \<Rightarrow> io_return (Ok ())) (\<lambda>_. io_return (Ok ()))"
      unfolding apply_entry_def Let_def run_mutation_plain [OF pol(1)] pol(2) using Remove by simp
    moreover have "wp M \<dots> ?Q ?C d"
    proof (rule wp_then, rule wp_conseq [OF first], goal_cases)
      case (1 r d1)
      with Remove show ?case by (cases r) (auto simp: new_target_def intro!: wp_return)
    qed
    ultimately show ?thesis by simp
  next
    case Replace
    have eq: "apply_entry pol root job_id e = io_then (case original e of
        Some s \<Rightarrow> rename_target_to_backup plat root job_id (transaction_index e) (target_name e) s
      | None \<Rightarrow> io_return (Ok ())) (\<lambda>_.
        rename_prepared_to_target plat root job_id (transaction_index e) (target_name e))"
      unfolding apply_entry_def Let_def run_mutation_plain [OF pol(1)] pol(2)
      using Replace exchange index by (simp add: io_simps)
    have second: "wp M (rename_prepared_to_target plat root job_id (transaction_index e) (target_name e))
       (\<lambda>r d'. \<exists>F'. becomes d F' d' \<and> elsewhere_same e F F' \<and> intact old F' e
          \<and> (if is_ok r then target_files F' (target_name e) = new_target (prepared_files F) e
             else fails M))
       (\<lambda>d'. \<exists>F'. becomes d F' d' \<and> elsewhere_same e F F' \<and> intact old F' e) d1"
      if b: "becomes d G d1" and same: "elsewhere_same e F G" and it: "intact old G e"
        and prep: "prepared_files G = prepared_files F" "target_files G (target_name e) = None"
      for d1 G
    proof (rule wp_conseq [OF activate_law [OF becomesD(1) [OF b] d(3,4) becomesD(2) [OF b]]],
        goal_cases)
      case (1 r d')
      show ?case
      proof (cases "is_ok r")
        case True
        with 1 obtain f where f: "prepared_files G (transaction_index e) = Some f"
          "files_of d' = G\<lparr>target_files := (target_files G)(target_name e := Some f),
             prepared_files := (prepared_files G)(transaction_index e := None)\<rparr>" by auto
        let ?H = "files_of d'"
        have "becomes d ?H d'" using 1 b by (auto simp: becomes_def)
        moreover have "elsewhere_same e F ?H"
          unfolding f(2) by (rule elsewhere_trans [OF same]) simp
        moreover have "intact old ?H e"
          using it prep(2) by (auto simp: f(2) intact_def split: option.splits)
        moreover have "target_files ?H (target_name e) = new_target (prepared_files F) e"
          using f(1) Replace prep(1) by (simp add: f(2) new_target_def)
        ultimately show ?thesis using True by auto
      next
        case False
        with 1 b prep new [OF Replace] have "becomes d G d'" "fails M"
          by (auto simp: becomes_def)
        with False same it show ?thesis by auto
      qed
    next
      case (2 d')
      with b same it show ?case by (intro exI [of _ G]) (simp add: becomes_def)
    qed
    show ?thesis
      unfolding eq
    proof (rule wp_then, rule wp_conseq [OF first], goal_cases)
      case (1 r d1)
      show ?case
      proof (cases r)
        case (Inr u)
        with 1 obtain G where "becomes d G d1" "elsewhere_same e F G" "intact old G e"
          "prepared_files G = prepared_files F" "target_files G (target_name e) = None"
          by auto
        from second [OF this] show ?thesis by (simp only: Inr sum.case)
      qed (use 1 in auto)
    qed
  qed
qed

text \<open>Deleting what stands at an entry whose backup is kept, or at one that had no file.\<close>

lemma delete_step:
  assumes "sane d" "files_of d = F" "target_name e \<in> names" "intact old F e"
    and "backup_files F (transaction_index e) = old (target_name e)"
  shows "wp M (if target_files F (target_name e) \<noteq> None
        then delete_target plat root (target_name e) else io_return (Ok ()))
     (\<lambda>r d'. \<exists>F'. becomes d F' d' \<and> elsewhere_same e F F' \<and> intact old F' e
        \<and> backup_files F' = backup_files F
        \<and> (if is_ok r then target_files F' (target_name e) = None else fails M))
     (\<lambda>d'. \<exists>F'. becomes d F' d' \<and> elsewhere_same e F F' \<and> intact old F' e) d"
    (is "wp M _ ?Q ?C d")
proof -
  let ?G = "F\<lparr>target_files := (target_files F)(target_name e := None)\<rparr>"
  have gone: "intact old ?G e" using assms(5) by (auto simp: intact_def split: option.splits)
  have "wp M (delete_target plat root (target_name e)) ?Q ?C d"
  proof (rule wp_conseq [OF delete_law [OF assms(1,3,2)]], goal_cases)
    case (1 r d')
    show ?case
    proof (cases "is_ok r")
      case True
      with 1 have "becomes d ?G d'" by (simp add: becomes_def)
      with True gone show ?thesis by (intro exI [of _ ?G]) simp
    next
      case False
      with 1 have "becomes d F d'" "fails M" by (auto simp: becomes_def)
      with False assms(4) show ?thesis by auto
    qed
  next
    case (2 d')
    with assms(4) show ?case by (intro exI [of _ F]) (simp add: becomes_def)
  qed
  moreover have "wp M (io_return (Ok ())) ?Q ?C d" if "target_files F (target_name e) = None"
    using that assms by (intro wp_return exI [of _ F]) (simp add: becomes_refl)
  ultimately show ?thesis by simp
qed

lemma restore_step:
  assumes "sane d" "files_of d = F" "target_name e \<in> names" "transaction_index e \<in> indices"
    and "old (target_name e) = Some f" "backup_files F (transaction_index e) = Some f"
    and "target_files F (target_name e) = None"
  shows "wp M (restore_backup plat root job_id (transaction_index e) (target_name e))
     (\<lambda>r d'. \<exists>F'. becomes d F' d' \<and> elsewhere_same e F F' \<and> intact old F' e
        \<and> (if is_ok r then restored old F' e else fails M))
     (\<lambda>d'. \<exists>F'. becomes d F' d' \<and> elsewhere_same e F F' \<and> intact old F' e) d"
proof (rule wp_conseq [OF restore_law [OF assms(1,3,4,2)]], goal_cases)
  let ?G = "F\<lparr>target_files := (target_files F)(target_name e := Some f),
    backup_files := (backup_files F)(transaction_index e := None)\<rparr>"
  have it: "intact old F e" and put_back: "intact old ?G e" "restored old ?G e"
    using assms by (simp_all add: intact_def restored_def)
  case (1 r d')
  show ?case
  proof (cases "is_ok r")
    case True
    with 1 assms(6) have "becomes d ?G d'" by (auto simp: becomes_def)
    with True put_back show ?thesis by (intro exI [of _ ?G]) simp
  next
    case False
    with 1 assms(6,7) have "becomes d F d'" "fails M" by (auto simp: becomes_def)
    with False it show ?thesis by auto
  qed
next
  case (2 d')
  with assms show ?case by (intro exI [of _ F]) (simp add: becomes_def intact_def)
qed

lemma rollback_entry_wp:
  assumes pol: "checkpoint pol = no_fault_injection" "policy_platform pol = plat"
    and d: "sane d" "files_of d = F" "target_name e \<in> names" "transaction_index e \<in> indices"
    and original: "original e = None \<longleftrightarrow> old (target_name e) = None"
    and it: "intact old F e"
  shows "wp M (rollback_entry pol root job_id e)
     (\<lambda>r d'. \<exists>F'. becomes d F' d' \<and> elsewhere_same e F F' \<and> intact old F' e
        \<and> (if is_ok r then restored old F' e else fails M))
     (\<lambda>d'. \<exists>F'. becomes d F' d' \<and> elsewhere_same e F F' \<and> intact old F' e) d"
    (is "wp M _ ?Q ?C d")
proof -
  let ?n = "target_name e" and ?i = "transaction_index e"
  have stay: "?C d" using d it by (intro exI [of _ F]) (simp add: becomes_refl)
  have lost: "?Q (Inl x) d" if "fails M" for x
    using stay that by auto
  have eq: "rollback_entry pol root job_id e =
      io_then (if original e = None then io_return (Ok False) else backup_exists plat root job_id ?i)
        (\<lambda>backup.
         if backup
         then io_then (target_exists plat root ?n) (\<lambda>present.
           io_then (if present then delete_target plat root ?n else io_return (Ok ())) (\<lambda>_.
           restore_backup plat root job_id ?i ?n))
         else if original e = None
         then io_then (target_exists plat root ?n) (\<lambda>present.
           if present then delete_target plat root ?n else io_return (Ok ()))
         else io_return (Ok ()))"
    unfolding rollback_entry_def Let_def run_mutation_plain [OF pol(1)] pol(2)
    using exchange by simp
  show ?thesis
  proof (cases "original e = None")
    case True
    with original it have old: "old ?n = None" "backup_files F ?i = old ?n"
      by (auto simp: intact_def)
    have "wp M (if target_files F ?n \<noteq> None then delete_target plat root ?n else io_return (Ok ()))
        ?Q ?C d"
      by (rule wp_conseq [OF delete_step [OF d(1-3) it old(2)]])
        (auto simp: restored_def old split: if_splits)
    then have "wp M (io_then (target_exists plat root ?n) (\<lambda>present.
        if present then delete_target plat root ?n else io_return (Ok ()))) ?Q ?C d"
      using stay lost d(2) by (intro wp_ask [OF target_exists_law [OF d(1,3)]]) simp_all
    with True show ?thesis by (simp add: eq io_simps)
  next
    case False
    with original obtain f where f: "old ?n = Some f" by blast
    have with_backup: "wp M (io_then (target_exists plat root ?n) (\<lambda>present.
        io_then (if present then delete_target plat root ?n else io_return (Ok ())) (\<lambda>_.
        restore_backup plat root job_id ?i ?n))) ?Q ?C d"
      if b: "backup_files F ?i = Some f"
    proof -
      have "backup_files F ?i = old ?n" by (simp add: b f)
      note del = delete_step [OF d(1-3) it this, of M]
      have "wp M (io_then (if target_files F ?n \<noteq> None then delete_target plat root ?n
          else io_return (Ok ())) (\<lambda>_. restore_backup plat root job_id ?i ?n)) ?Q ?C d"
      proof (rule wp_then, rule wp_conseq [OF del], goal_cases)
        case (1 r d1)
        then obtain G where G: "becomes d G d1" "elsewhere_same e F G" "intact old G e"
          "backup_files G = backup_files F"
          "if is_ok r then target_files G ?n = None else fails M" by blast
        show ?case
        proof (cases r)
          case (Inr u)
          with G b have "wp M (restore_backup plat root job_id ?i ?n)
            (\<lambda>r d'. \<exists>F'. becomes d1 F' d' \<and> elsewhere_same e G F' \<and> intact old F' e
              \<and> (if is_ok r then restored old F' e else fails M))
            (\<lambda>d'. \<exists>F'. becomes d1 F' d' \<and> elsewhere_same e G F' \<and> intact old F' e) d1"
            using becomesD [OF G(1)] f d by (intro restore_step) auto
          then have "wp M (restore_backup plat root job_id ?i ?n) ?Q ?C d1"
            by (rule wp_conseq) (meson becomes_trans elsewhere_trans G(1,2))+
          with Inr show ?thesis by simp
        qed (use G in auto)
      qed auto
      then show ?thesis
        using stay lost d(2) by (intro wp_ask [OF target_exists_law [OF d(1,3)]]) simp_all
    qed
    have without: "?Q (Ok ()) d" if "backup_files F ?i = None"
      using that it d f by (intro exI [of _ F]) (auto simp: becomes_refl intact_def restored_def)
    have "backup_files F ?i = None \<or> backup_files F ?i = Some f"
      using it f by (auto simp: intact_def)
    then have "wp M (if backup_files (files_of d) ?i \<noteq> None
        then io_then (target_exists plat root ?n) (\<lambda>present.
           io_then (if present then delete_target plat root ?n else io_return (Ok ())) (\<lambda>_.
           restore_backup plat root job_id ?i ?n))
        else if original e = None
         then io_then (target_exists plat root ?n) (\<lambda>present.
           if present then delete_target plat root ?n else io_return (Ok ()))
         else io_return (Ok ())) ?Q ?C d"
    proof
      assume none: "backup_files F ?i = None"
      have "wp M (io_return (Ok ())) ?Q ?C d" by (rule wp_return, rule without, rule none)
      with none False d(2) show ?thesis by (simp only: if_False not_True_eq_False simp_thms)
    next
      assume some: "backup_files F ?i = Some f"
      with with_backup [OF some] d(2) show ?thesis by (simp split del: if_split)
    qed
    with False show ?thesis
      unfolding eq
      by (simp only: if_False)
        (rule wp_ask [OF backup_exists_law [OF d(1,4)]], assumption, rule stay, rule lost)
  qed
qed

subsection \<open>All entries\<close>

lemma apply_all_wp:
  assumes pol: "checkpoint pol = no_fault_injection" "policy_platform pol = plat"
    and d: "sane d" "files_of d = F0" and ok: "entries_ok names indices es"
    and start: "\<And>e. e \<in> set es \<Longrightarrow> fresh old prep F0 e
      \<and> original e = map_option snapshot (old (target_name e))
      \<and> (action e = Replace \<longrightarrow> prep (transaction_index e) \<noteq> None)"
  shows "wp M (io_each (apply_entry pol root job_id) es)
     (\<lambda>r d'. \<exists>F. becomes d F d' \<and> (\<forall>e \<in> set es. intact old F e)
        \<and> (if is_ok r then \<forall>e \<in> set es. applied old prep F e else fails M))
     (\<lambda>d'. \<exists>F. becomes d F d' \<and> (\<forall>e \<in> set es. intact old F e)) d"
    (is "wp M _ ?Q ?C d")
proof (rule wp_each [where I = "\<lambda>ys d'. \<exists>F. becomes d F d' \<and> (\<forall>e \<in> set ys. applied old prep F e)
      \<and> (\<forall>e \<in> set es. e \<notin> set ys \<longrightarrow> fresh old prep F e)"], goal_cases)
  case (1 ys x zs d1)
  then obtain F where F: "becomes d F d1" "\<forall>e \<in> set ys. applied old prep F e"
    "\<forall>e \<in> set es. e \<notin> set ys \<longrightarrow> fresh old prep F e" by blast
  have x: "x \<in> set es" "x \<notin> set ys" using 1(1) ok by (auto simp: entries_ok_def)
  have apart: "target_name e \<noteq> target_name x" "transaction_index e \<noteq> transaction_index x"
    if "e \<in> set es" "e \<noteq> x" for e
    using entries_apart [of names indices ys x zs e] ok 1(1) that by auto
  have fx: "fresh old prep F x" using F(3) x by blast
  have rest: "intact old F' e \<and> (e \<in> set ys \<longrightarrow> applied old prep F' e)
      \<and> (e \<notin> set ys \<longrightarrow> fresh old prep F' e)"
    if "elsewhere_same x F F'" "e \<in> set es" "e \<noteq> x" for F' e
    using elsewhere_keeps [OF that(1) apart [OF that(2,3)]] F(2,3) that(2)
    by (meson applied_def fresh_def restored_intact)
  have "wp M (apply_entry pol root job_id x)
     (\<lambda>r d'. \<exists>F'. becomes d1 F' d' \<and> elsewhere_same x F F' \<and> intact old F' x
        \<and> (if is_ok r then target_files F' (target_name x) = new_target (prepared_files F) x
           else fails M))
     (\<lambda>d'. \<exists>F'. becomes d1 F' d' \<and> elsewhere_same x F F' \<and> intact old F' x) d1"
    using fx start [OF x(1)] entries_ok_member [OF ok x(1)]
    by (intro apply_entry_wp [OF pol becomesD [OF F(1)]]) (auto simp: fresh_def restored_def)
  then show ?case
  proof (rule wp_conseq, goal_cases)
    case (1 r d')
    then obtain F' where F': "becomes d1 F' d'" "elsewhere_same x F F'" "intact old F' x"
      "if is_ok r then target_files F' (target_name x) = new_target (prepared_files F) x
       else fails M" by blast
    have b: "becomes d F' d'" by (rule becomes_trans [OF F(1) F'(1)])
    have all: "\<forall>e \<in> set es. intact old F' e" using rest [OF F'(2)] F'(3) by blast
    show ?case
    proof (cases r)
      case (Inr u)
      have "applied old prep F' x"
        using F'(3,4) Inr fx by (auto simp: applied_def new_target_def fresh_def)
      with b rest [OF F'(2)] x F(2) \<open>es = ys @ x # zs\<close>
      have "\<exists>F. becomes d F d' \<and> (\<forall>e \<in> set (ys @ [x]). applied old prep F e)
          \<and> (\<forall>e \<in> set es. e \<notin> set (ys @ [x]) \<longrightarrow> fresh old prep F e)"
        by (intro exI [of _ F']) auto
      with Inr show ?thesis by simp
    qed (use b all F'(4) in auto)
  next
    case (2 d')
    then obtain F' where F': "becomes d1 F' d'" "elsewhere_same x F F'" "intact old F' x" by blast
    with becomes_trans [OF F(1) F'(1)] rest [OF F'(2)] show ?case by blast
  qed
next
  case (2 d')
  then show ?case by (auto simp: applied_def)
next
  case 3
  then show ?case using start d by (intro exI [of _ F0]) (simp add: becomes_refl)
qed

lemma rollback_all_wp:
  assumes pol: "checkpoint pol = no_fault_injection" "policy_platform pol = plat"
    and d: "sane d" "files_of d = F0" and ok: "entries_ok names indices es"
    and original: "\<And>e. e \<in> set es \<Longrightarrow> original e = None \<longleftrightarrow> old (target_name e) = None"
    and start: "\<And>e. e \<in> set es \<Longrightarrow> intact old F0 e"
  shows "wp M (io_each (rollback_entry pol root job_id) es)
     (\<lambda>r d'. \<exists>F. becomes d F d' \<and> (\<forall>e \<in> set es. intact old F e)
        \<and> (if is_ok r then \<forall>e \<in> set es. restored old F e else fails M))
     (\<lambda>d'. \<exists>F. becomes d F d' \<and> (\<forall>e \<in> set es. intact old F e)) d"
    (is "wp M _ ?Q ?C d")
proof (rule wp_each [where I = "\<lambda>ys d'. \<exists>F. becomes d F d' \<and> (\<forall>e \<in> set ys. restored old F e)
      \<and> (\<forall>e \<in> set es. intact old F e)"], goal_cases)
  case (1 ys x zs d1)
  then obtain F where F: "becomes d F d1" "\<forall>e \<in> set ys. restored old F e"
    "\<forall>e \<in> set es. intact old F e" by blast
  have x: "x \<in> set es" using 1(1) by simp
  have apart: "target_name e \<noteq> target_name x" "transaction_index e \<noteq> transaction_index x"
    if "e \<in> set es" "e \<noteq> x" for e
    using entries_apart [of names indices ys x zs e] ok 1(1) that by auto
  have rest: "intact old F' e \<and> (e \<in> set ys \<longrightarrow> restored old F' e)"
    if "elsewhere_same x F F'" "e \<in> set es" "e \<noteq> x" for F' e
    using elsewhere_keeps [OF that(1) apart [OF that(2,3)]] F(2,3) that(2) by auto
  have "wp M (rollback_entry pol root job_id x)
     (\<lambda>r d'. \<exists>F'. becomes d1 F' d' \<and> elsewhere_same x F F' \<and> intact old F' x
        \<and> (if is_ok r then restored old F' x else fails M))
     (\<lambda>d'. \<exists>F'. becomes d1 F' d' \<and> elsewhere_same x F F' \<and> intact old F' x) d1"
    using F(3) x original [OF x] entries_ok_member [OF ok x]
    by (intro rollback_entry_wp [OF pol becomesD [OF F(1)]]) auto
  then show ?case
  proof (rule wp_conseq, goal_cases)
    case (1 r d')
    then obtain F' where F': "becomes d1 F' d'" "elsewhere_same x F F'" "intact old F' x"
      "if is_ok r then restored old F' x else fails M" by blast
    have b: "becomes d F' d'" by (rule becomes_trans [OF F(1) F'(1)])
    have all: "\<forall>e \<in> set es. intact old F' e" using rest [OF F'(2)] F'(3) by blast
    show ?case
    proof (cases r)
      case (Inr u)
      with F'(4) b all rest [OF F'(2)] \<open>es = ys @ x # zs\<close>
      have "\<exists>F. becomes d F d' \<and> (\<forall>e \<in> set (ys @ [x]). restored old F e)
          \<and> (\<forall>e \<in> set es. intact old F e)"
        by (intro exI [of _ F']) auto
      with Inr show ?thesis by simp
    qed (use b all F'(4) in auto)
  next
    case (2 d')
    then obtain F' where F': "becomes d1 F' d'" "elsewhere_same x F F'" "intact old F' x" by blast
    with becomes_trans [OF F(1) F'(1)] rest [OF F'(2)] show ?case by blast
  qed
next
  case (2 d')
  then show ?case by auto
next
  case 3
  then show ?case using start d by (intro exI [of _ F0]) (simp add: becomes_refl)
qed

subsection \<open>The journal beside the files\<close>

definition journal_file :: path where
  "journal_file = job_dir @ [''journal.jsonl'']"

text \<open>The job is the only one: nothing else stands in the directory of the jobs.\<close>

definition lone :: "disk \<Rightarrow> bool" where
  "lone d \<longleftrightarrow> is_directory d (parent job_dir)
     \<and> (\<forall>q. q \<noteq> [] \<longrightarrow> parent q = parent job_dir \<longrightarrow> node_at d q \<noteq> None \<longrightarrow> q = job_dir)"

text \<open>What holds of a job throughout.\<close>

definition job_setup ::
  "external \<Rightarrow> journal_parsers \<Rightarrow> policy \<Rightarrow> journal_header \<Rightarrow> string
   \<Rightarrow> (string \<Rightarrow> stored_file option) \<Rightarrow> (u32 \<Rightarrow> stored_file option) \<Rightarrow> bool"
where
  "job_setup X J pol h text old prep \<longleftrightarrow>
     checkpoint pol = no_fault_injection \<and> policy_platform pol = plat
     \<and> jobs_path X pol = parent job_dir
     \<and> header_root h = root \<and> header_job_id h = job_id
     \<and> journal_codec X J h text \<and> validate_journal_header X h = Ok ()
     \<and> length text + 128 \<le> MAX_MANIFEST_BYTES
     \<and> entries_ok names indices (entries h)
     \<and> (\<forall>e \<in> set (entries h). original e = map_option snapshot (old (target_name e))
          \<and> (action e = Replace \<longrightarrow> prep (transaction_index e) \<noteq> None))"

lemma job_setupD:
  assumes "job_setup X J pol h text old prep"
  shows "checkpoint pol = no_fault_injection" "policy_platform pol = plat"
    "jobs_path X pol = parent job_dir" "header_root h = root" "header_job_id h = job_id"
    "journal_codec X J h text" "validate_journal_header X h = Ok ()"
    "length text + 128 \<le> MAX_MANIFEST_BYTES" "entries_ok names indices (entries h)"
    "\<And>e. e \<in> set (entries h) \<Longrightarrow> original e = map_option snapshot (old (target_name e))"
    "\<And>e. e \<in> set (entries h) \<Longrightarrow> action e = Replace \<Longrightarrow> prep (transaction_index e) \<noteq> None"
  using assms by (auto simp: job_setup_def)

text \<open>What the journal says of the files.\<close>

fun phase ::
  "(string \<Rightarrow> stored_file option) \<Rightarrow> (u32 \<Rightarrow> stored_file option) \<Rightarrow> journal_entry list
   \<Rightarrow> journal_state \<Rightarrow> job_files \<Rightarrow> bool"
where
  "phase old prep es Prepared F = (\<forall>e \<in> set es. restored old F e)"
| "phase old prep es Committed F =
     (\<forall>e \<in> set es. target_files F (target_name e) = new_target prep e)"
| "phase old prep es _ F = (\<forall>e \<in> set es. intact old F e)"

text \<open>A disk from which the recovery settles the job.\<close>

definition recoverable ::
  "external \<Rightarrow> journal_parsers \<Rightarrow> journal_header \<Rightarrow> (string \<Rightarrow> stored_file option)
   \<Rightarrow> (u32 \<Rightarrow> stored_file option) \<Rightarrow> disk \<Rightarrow> bool"
where
  "recoverable X J h old prep d \<longleftrightarrow> sane d \<and> lone d
     \<and> ((node_at d journal_file = None
          \<and> ((\<forall>q. below job_dir q \<longrightarrow> node_at d q = None) \<or> is_directory d job_dir)
          \<and> ((\<forall>e \<in> set (entries h). target_files (files_of d) (target_name e) = old (target_name e))
            \<or> (\<forall>e \<in> set (entries h). target_files (files_of d) (target_name e) = new_target prep e)))
        \<or> (is_directory d job_dir \<and> (\<exists>b s. file_at d journal_file = Some b
            \<and> parse_journal X J b = Ok (h, s) \<and> phase old prep (entries h) s (files_of d))))"

lemma job_dir_not_Nil: "sane d \<Longrightarrow> job_dir \<noteq> []"
  using job_dir_parent [of d] by auto

lemma journal_file_facts:
  assumes "sane d"
  shows "below (parent job_dir) job_dir" "below (parent job_dir) journal_file"
    "below job_dir journal_file" "journal_file \<noteq> job_dir" "journal_file \<noteq> parent job_dir"
    "job_dir \<noteq> parent job_dir" "parent journal_file = job_dir"
proof -
  obtain xs where xs: "job_dir = xs @ [job_id]" "parent job_dir = xs"
    using job_dir_parent [OF assms] by metis
  have jf: "journal_file = xs @ [job_id, ''journal.jsonl'']"
    unfolding journal_file_def by (simp only: xs(1)) simp
  show "below (parent job_dir) job_dir" "below (parent job_dir) journal_file"
    "below job_dir journal_file" "journal_file \<noteq> job_dir" "journal_file \<noteq> parent job_dir"
    "job_dir \<noteq> parent job_dir" "parent journal_file = job_dir"
    unfolding xs(2) jf unfolding xs(1) by (simp_all add: below_def parent_def butlast_append)
qed

lemma becomes_frame:
  "becomes d F d' \<Longrightarrow> below (parent job_dir) q \<Longrightarrow> node_at d' q = node_at d q"
  using outside [of d' q] by (auto simp: becomes_def)

lemma becomes_lone: "becomes d F d' \<Longrightarrow> lone d \<Longrightarrow> lone d'"
proof -
  assume b: "becomes d F d'" and l: "lone d"
  have "node_at d' q = node_at d q" if "q \<noteq> []" "parent q = parent job_dir" for q
  proof (rule becomes_frame [OF b])
    have "q = parent q @ [last q]" using that(1) by (simp add: parent_def)
    with that(2) show "below (parent job_dir) q" by (metis below_append)
  qed
  moreover have "node_at d' (parent job_dir) = node_at d (parent job_dir)"
    by (rule becomes_frame [OF b]) simp
  ultimately show "lone d'" using l by (simp add: lone_def is_directory_def)
qed

lemma becomes_job_dir:
  assumes "becomes d F d'"
  shows "is_directory d' job_dir = is_directory d job_dir"
    "file_at d' journal_file = file_at d journal_file"
  using becomes_frame [OF assms] journal_file_facts [OF becomesD(1) [OF assms]]
  by (simp_all add: is_directory_def file_at_def)

text \<open>Writing to the journal changes nothing else.\<close>

lemma journal_written:
  assumes d: "sane d" "files_of d = F" "\<forall>q. q \<noteq> journal_file \<longrightarrow> node_at d' q = node_at d q"
  shows "sane d'" "files_of d' = F" "lone d \<Longrightarrow> lone d'"
    "is_directory d' job_dir = is_directory d job_dir"
proof -
  note j = journal_file_facts [OF d(1)]
  have "\<forall>q. own q \<longrightarrow> node_at d' q = node_at d q"
    using d(3) outside [OF d(1) j(2)] by metis
  from depends [OF d(1) this] d(2) show "sane d'" "files_of d' = F" by simp_all
  show "is_directory d' job_dir = is_directory d job_dir"
    using d(3) j(4) by (auto simp: is_directory_def)
  show "lone d'" if "lone d"
  proof -
    have "node_at d' q = node_at d q" if "parent q = parent job_dir" for q
      using d(3) j(6,7) that by metis
    moreover have "node_at d' (parent job_dir) = node_at d (parent job_dir)"
      using d(3) j(5) by metis
    ultimately show ?thesis using that by (simp add: lone_def is_directory_def)
  qed
qed

lemma verify_snapshots_wp:
  assumes "sane d" and "set (map target_name es) \<subseteq> names"
    and "\<And>e. e \<in> set es \<Longrightarrow> original e = map_option snapshot (target_files (files_of d) (target_name e))"
  shows "wp M (verify_original_snapshots plat root es)
     (\<lambda>r d'. d' = d \<and> (if is_ok r then r = Ok () else fails M)) (\<lambda>d'. d' = d) d"
  using assms(2,3)
proof (induction es)
  case (Cons e es)
  have "wp M (verify_original_snapshots plat root es)
     (\<lambda>r d'. d' = d \<and> (if is_ok r then r = Ok () else fails M)) (\<lambda>d'. d' = d) d"
    using Cons by simp
  with Cons.prems show ?case
    unfolding verify_original_snapshots.simps
    by (intro wp_ask [OF inspect_law [OF assms(1)]]) auto
qed (auto intro: wp_return)

subsection \<open>Cleaning up\<close>

definition cleaned :: "disk \<Rightarrow> disk \<Rightarrow> bool" where
  "cleaned d d' \<longleftrightarrow> sane d' \<and> target_files (files_of d') = target_files (files_of d)
     \<and> (\<forall>i. backup_files (files_of d') i \<in> {None, backup_files (files_of d) i})
     \<and> (\<forall>q. \<not> own q \<longrightarrow> \<not> below job_dir q \<longrightarrow> node_at d' q = node_at d q)
     \<and> (\<forall>q q'. below job_dir q \<longrightarrow> below q q' \<longrightarrow> node_at d' q' \<noteq> None \<longrightarrow>
          node_at d' q = node_at d q)"

lemma cleanup_wp:
  assumes "job_setup X J pol h text old prep" and "sane d" and "prepared_header job = h"
    and "job_directory job = job_dir"
  shows "wp M (cleanup_prepared_job pol job)
     (\<lambda>r d'. cleaned d d' \<and> (\<not> fails M \<longrightarrow> is_directory d job_dir \<longrightarrow>
        r = Ok () \<and> (\<forall>q. below job_dir q \<longrightarrow> node_at d' q = None)))
     (cleaned d) d"
proof -
  have "cleanup_prepared_job pol job = cleanup_job plat root job_id job_dir"
    unfolding cleanup_prepared_job_def Let_def run_mutation_plain [OF job_setupD(1) [OF assms(1)]]
    using job_setupD(2,4,5) [OF assms(1)] assms(3,4) by simp
  moreover have "wp M (cleanup_job plat root job_id job_dir)
     (\<lambda>r d'. cleaned d d' \<and> (\<not> fails M \<longrightarrow> is_directory d job_dir \<longrightarrow>
        r = Ok () \<and> (\<forall>q. below job_dir q \<longrightarrow> node_at d' q = None)))
     (cleaned d) d"
    by (rule wp_conseq [OF cleanup_law [OF assms(2) refl]]) (auto simp: cleaned_def is_ok_iff)
  ultimately show ?thesis by simp
qed

text \<open>The files that an entry keeps while its job is cleaned up.\<close>

fun over :: "(string \<Rightarrow> stored_file option) \<Rightarrow> (u32 \<Rightarrow> stored_file option) \<Rightarrow> journal_entry list
   \<Rightarrow> journal_state \<Rightarrow> job_files \<Rightarrow> bool"
where
  "over old prep es Committed F = (\<forall>e \<in> set es. target_files F (target_name e) = new_target prep e)"
| "over old prep es Committing F = False"
| "over old prep es _ F = (\<forall>e \<in> set es. restored old F e)"

lemma over_phase: "over old prep es s F \<Longrightarrow> phase old prep es s F"
  by (cases s) (auto dest: restored_intact)

lemma over_cleaned:
  assumes "over old prep es s (files_of d)" and "cleaned d d'"
  shows "over old prep es s (files_of d')"
proof -
  have "target_files (files_of d') = target_files (files_of d)"
    "\<And>i. backup_files (files_of d) i = None \<Longrightarrow> backup_files (files_of d') i = None"
    using assms(2) by (auto simp: cleaned_def)
  with assms(1) show ?thesis by (cases s) (simp_all add: restored_def)
qed

lemma cleaned_lone:
  assumes "sane d" and "lone d" and "cleaned d d'"
  shows "lone d'"
proof -
  note j = journal_file_facts [OF assms(1)]
  have keep: "node_at d' q = node_at d q" if "below (parent job_dir) q" "\<not> below job_dir q" for q
    using assms(3) outside [OF assms(1) that(1)] that(2) by (simp add: cleaned_def)
  have "length job_dir = Suc (length (parent job_dir))"
    using job_dir_parent [OF assms(1)] by (metis length_append_singleton)
  then have up: "\<not> below job_dir (parent job_dir)" by (auto simp: below_iff dest: arg_cong [of _ _ length])
  have "node_at d' q = None \<or> node_at d' q = node_at d q" if "q \<noteq> []" "parent q = parent job_dir" for q
  proof (cases "below job_dir q")
    case True
    with assms(3) show ?thesis unfolding cleaned_def using below_refl by blast
  next
    case False
    have "q = parent q @ [last q]" using that(1) by (simp add: parent_def)
    with that(2) have "below (parent job_dir) q" by (metis below_append)
    with keep False show ?thesis by blast
  qed
  moreover have "node_at d' (parent job_dir) = node_at d (parent job_dir)"
    by (rule keep [OF below_refl up])
  ultimately show ?thesis using assms(2) unfolding lone_def is_directory_def by metis
qed

lemma cleaned_recoverable:
  assumes d: "sane d" "lone d" "is_directory d job_dir" "file_at d journal_file = Some b"
    and says: "parse_journal X J b = Ok (h, s)" "over old prep (entries h) s (files_of d)"
    and c: "cleaned d d'"
  shows "recoverable X J h old prep d'"
proof -
  note j = journal_file_facts [OF d(1)]
  have stay: "node_at d' q = node_at d q" if "below job_dir q" "below q q'" "node_at d' q' \<noteq> None"
    for q q' using c that unfolding cleaned_def by blast
  note ov = over_cleaned [OF says(2) c]
  have sane': "sane d'" using c by (simp add: cleaned_def)
  note lone' = cleaned_lone [OF d(1,2) c]
  show ?thesis
  proof (cases "node_at d' journal_file")
    case None
    have "(\<forall>q. below job_dir q \<longrightarrow> node_at d' q = None) \<or> is_directory d' job_dir"
      using stay [OF below_refl] d(3) unfolding is_directory_def by metis
    moreover have "(\<forall>e \<in> set (entries h). target_files (files_of d') (target_name e) = old (target_name e))
        \<or> (\<forall>e \<in> set (entries h). target_files (files_of d') (target_name e) = new_target prep e)"
      using ov by (cases s) (auto simp: restored_def)
    ultimately show ?thesis using sane' lone' None unfolding recoverable_def by blast
  next
    case (Some n)
    then have "node_at d' journal_file = node_at d journal_file"
      and "node_at d' job_dir = node_at d job_dir"
      using stay [OF j(3) below_refl] stay [OF below_refl j(3)] by (metis option.distinct(1))+
    then have "file_at d' journal_file = Some b" "is_directory d' job_dir"
      using d(3,4) by (simp_all add: file_at_def is_directory_def)
    with says(1) over_phase [OF ov] sane' lone' show ?thesis unfolding recoverable_def by blast
  qed
qed

subsection \<open>Commit\<close>

text \<open>
  What a commit guarantees when it returns and when the machine stops in it: every file of
  the old state is kept until every file of the new state is in place.
\<close>

definition all_intact ::
  "(string \<Rightarrow> stored_file option) \<Rightarrow> journal_header \<Rightarrow> disk \<Rightarrow> bool" where
  "all_intact old h d \<longleftrightarrow> (\<forall>e \<in> set (entries h). intact old (files_of d) e)"

definition all_old :: "(string \<Rightarrow> stored_file option) \<Rightarrow> journal_header \<Rightarrow> disk \<Rightarrow> bool" where
  "all_old old h d \<longleftrightarrow>
     (\<forall>e \<in> set (entries h). target_files (files_of d) (target_name e) = old (target_name e))"

definition all_new :: "(u32 \<Rightarrow> stored_file option) \<Rightarrow> journal_header \<Rightarrow> disk \<Rightarrow> bool" where
  "all_new prep h d \<longleftrightarrow>
     (\<forall>e \<in> set (entries h). target_files (files_of d) (target_name e) = new_target prep e)"

fun commit_returns ::
  "mode \<Rightarrow> (string \<Rightarrow> stored_file option) \<Rightarrow> (u32 \<Rightarrow> stored_file option) \<Rightarrow> journal_header
   \<Rightarrow> commit_result result \<Rightarrow> disk \<Rightarrow> bool"
where
  "commit_returns M old prep h (Inr c) d \<longleftrightarrow> sane d \<and> all_new prep h d
     \<and> (\<not> fails M \<longrightarrow> \<not> cleanup_pending c \<and> (\<forall>q. below job_dir q \<longrightarrow> node_at d q = None))"
| "commit_returns M old prep h (Inl x) d \<longleftrightarrow> sane d \<and> fails M \<and> all_intact old h d
     \<and> (code x \<noteq> RecoveryIncomplete \<longrightarrow> all_old old h d)"

definition commit_stops ::
  "mode \<Rightarrow> external \<Rightarrow> journal_parsers \<Rightarrow> (string \<Rightarrow> stored_file option)
   \<Rightarrow> (u32 \<Rightarrow> stored_file option) \<Rightarrow> journal_header \<Rightarrow> disk \<Rightarrow> bool"
where
  "commit_stops M X J old prep h d \<longleftrightarrow> sane d \<and> (all_intact old h d \<or> all_new prep h d)
     \<and> (\<not> fails M \<longrightarrow> recoverable X J h old prep d)"

lemma recoverableI:
  assumes "sane d" "lone d" "is_directory d job_dir" "file_at d journal_file = Some b"
    and "parse_journal X J b = Ok (h, s)" "phase old prep (entries h) s (files_of d)"
  shows "recoverable X J h old prep d"
  using assms unfolding recoverable_def by blast

lemma phase_intact: "all_intact old h d \<Longrightarrow> s = Committing \<or> s = RollingBack \<Longrightarrow>
    phase old prep (entries h) s (files_of d)"
  by (auto simp: all_intact_def)

lemma journal_reads:
  assumes js: "job_setup X J pol h text old prep"
    and run: "journal_run None ss (Some a)" and few: "length ss \<le> 3"
  shows "parse_journal X J (journal_text text ss) = Ok (h, a)"
    and "journal_step (Some a) (Some s) \<Longrightarrow> appended s (journal_text text ss) b \<Longrightarrow>
      \<exists>t. parse_journal X J b = Ok (h, t) \<and> (t = a \<or> t = s)"
proof -
  note facts = job_setupD(6,7,8) [OF js]
  have "length (concat (map state_line ss)) \<le> 25 * length ss"
  proof (induction ss)
    case (Cons t ss)
    with state_text_length [of t] show ?case by (simp add: state_line_def)
  qed simp
  with few facts(3) have size: "length (journal_text text ss) + 25 \<le> MAX_MANIFEST_BYTES"
    by (simp add: journal_text_def)
  with parse_journal_whole [OF facts(1,2) run]
  show "parse_journal X J (journal_text text ss) = Ok (h, a)" by simp
  show "\<exists>t. parse_journal X J b = Ok (h, t) \<and> (t = a \<or> t = s)"
    if "journal_step (Some a) (Some s)" "appended s (journal_text text ss) b"
    using that(2) parse_journal_torn [OF facts(1,2) run that(1) size]
    by (auto simp: appended_def)
qed

lemma rollback_entries_wp:
  assumes js: "job_setup X J pol h text old prep" and job: "prepared_header job = h"
    and d: "sane d" "all_intact old h d"
  shows "wp M (rollback_entries pol job)
     (\<lambda>r d'. \<exists>F. becomes d F d' \<and> all_intact old h d'
        \<and> (if is_ok r then r = Ok () \<and> (\<forall>e \<in> set (entries h). restored old F e) else fails M))
     (\<lambda>d'. \<exists>F. becomes d F d' \<and> all_intact old h d') d"
proof -
  note facts = job_setupD [OF js]
  have "wp M (io_each (rollback_entry pol root job_id) (rev (entries h)))
     (\<lambda>r d'. \<exists>F. becomes d F d' \<and> (\<forall>e \<in> set (rev (entries h)). intact old F e)
        \<and> (if is_ok r then \<forall>e \<in> set (rev (entries h)). restored old F e else fails M))
     (\<lambda>d'. \<exists>F. becomes d F d' \<and> (\<forall>e \<in> set (rev (entries h)). intact old F e)) d"
    using facts d by (intro rollback_all_wp) (auto simp: entries_ok_rev all_intact_def)
  then have each: "wp M (io_each (rollback_entry pol root job_id) (rev (entries h)))
     (\<lambda>r d'. \<exists>F. becomes d F d' \<and> all_intact old h d'
        \<and> (if is_ok r then r = Ok () \<and> (\<forall>e \<in> set (entries h). restored old F e) else fails M))
     (\<lambda>d'. \<exists>F. becomes d F d' \<and> all_intact old h d') d"
  proof (rule wp_conseq, goal_cases)
    case (1 r d')
    then obtain F where F: "becomes d F d'" "\<forall>e \<in> set (entries h). intact old F e"
      "if is_ok r then \<forall>e \<in> set (entries h). restored old F e else fails M" by auto
    with becomesD(2) [OF F(1)] show ?case by (cases r) (auto simp: all_intact_def)
  next
    case (2 d')
    then show ?case by (auto simp: all_intact_def dest: becomesD)
  qed
  have stay: "becomes d (files_of d) d" by (rule becomes_refl [OF d(1) refl])
  show ?thesis
    unfolding rollback_entries_def Let_def job facts(2,4,5)
    by (rule wp_ask [OF verify_law [OF d(1)] each]) (use stay d(2) in auto)
qed

text \<open>The way back of a failed commit: whatever else fails, nothing of the old state is lost.\<close>

lemma undo_commit_wp:
  assumes js: "job_setup X J pol h text old prep"
    and job: "job = \<lparr>prepared_header = h, job_directory = job_dir, job_journal_path = journal_file\<rparr>"
    and d: "sane d" "all_intact old h d" "file_at d journal_file = Some b"
  shows "wp M (undo_commit X pol job what cause)
     (\<lambda>r d'. \<exists>x. r = Inl x \<and> sane d' \<and> all_intact old h d'
        \<and> (code x \<noteq> RecoveryIncomplete \<longrightarrow> all_old old h d'))
     (\<lambda>d'. sane d' \<and> all_intact old h d') d"
    (is "wp M _ ?Q ?C d")
proof -
  have written: "sane d1 \<and> all_intact old h d1"
    if "\<forall>q. q \<noteq> journal_file \<longrightarrow> node_at d1 q = node_at d q" for d1
    using journal_written [OF d(1) refl that] d(2) by (simp add: all_intact_def)
  have clean: "wp M (io_bind (if is_ok r then cleanup_prepared_job pol job else io_return r)
      (\<lambda>cleaned. if \<not> is_ok cleaned
        then io_return (Err RecoveryIncomplete what) else io_return (Inl cause))) ?Q ?C d2"
    if b: "becomes d1 F d2" and it: "all_intact old h d2"
      and r: "is_ok r \<Longrightarrow> \<forall>e \<in> set (entries h). restored old F e" for r d1 d2 F
  proof (cases "is_ok r")
    case False
    then show ?thesis using b it by (auto simp: io_simps intro!: wp_return dest: becomesD)
  next
    case True
    have kept: "sane d' \<and> all_intact old h d' \<and> all_old old h d'" if "cleaned d2 d'" for d'
    proof -
      have "over old prep (entries h) RollingBack (files_of d2)"
        using r [OF True] becomesD(2) [OF b] by simp
      from over_cleaned [OF this that] that show ?thesis
        by (auto simp: cleaned_def all_intact_def all_old_def dest: restored_intact)
          (simp add: restored_def)
    qed
    have "wp M (cleanup_prepared_job pol job) (\<lambda>r d'. cleaned d2 d') (cleaned d2) d2"
      by (rule wp_conseq [OF cleanup_wp [OF js becomesD(1) [OF b]]]) (simp_all add: job)
    then have "wp M (io_bind (cleanup_prepared_job pol job)
      (\<lambda>cleaned. if \<not> is_ok cleaned
        then io_return (Err RecoveryIncomplete what) else io_return (Inl cause))) ?Q ?C d2"
      by (intro wp_bind, elim wp_conseq) (auto intro!: wp_return dest: kept)
    with True show ?thesis by simp
  qed
  have back_out: "wp M (io_bind (rollback_entries pol job) (\<lambda>rolled.
      io_bind (if is_ok rolled then cleanup_prepared_job pol job else io_return rolled)
      (\<lambda>cleaned. if \<not> is_ok cleaned
        then io_return (Err RecoveryIncomplete what) else io_return (Inl cause)))) ?Q ?C d1"
    if d1: "sane d1" "all_intact old h d1" for d1
  proof (rule wp_bind, rule wp_conseq [OF rollback_entries_wp [OF js _ d1]], goal_cases)
    case (2 r d2)
    then obtain F where "becomes d1 F d2" "all_intact old h d2"
      "is_ok r \<Longrightarrow> \<forall>e \<in> set (entries h). restored old F e" by (auto split: if_splits)
    then show ?case by (rule clean)
  qed (auto simp: job dest: becomesD)
  show ?thesis
    unfolding undo_commit_def
  proof (rule wp_bind, rule wp_conseq, simp only: job prepared_job.select_convs,
      rule append_state_wp [OF job_setupD(6) [OF js] d(3)], goal_cases)
    case (1 r d1)
    with written have "sane d1" "all_intact old h d1" by blast+
    from back_out [OF this] show ?case by (simp only: job)
  qed (use written in blast)
qed

lemma finish_commit_wp:
  assumes js: "job_setup X J pol h text old prep"
    and job: "job = \<lparr>prepared_header = h, job_directory = job_dir, job_journal_path = journal_file\<rparr>"
    and d: "sane d" "lone d" "is_directory d job_dir" "all_new prep h d"
      "file_at d journal_file = Some (journal_text text [Prepared, Committing, Committed])"
  shows "wp M (io_bind (cleanup_prepared_job pol job) (\<lambda>cleaned.
        io_return (Ok \<lparr>commit_job_id = header_job_id h, commit_generation = header_generation h,
          cleanup_pending = \<not> is_ok cleaned\<rparr>)))
     (commit_returns M old prep h) (commit_stops M X J old prep h) d"
proof -
  have says: "parse_journal X J (journal_text text [Prepared, Committing, Committed]) = Ok (h, Committed)"
    by (rule journal_reads [OF js]) simp_all
  have new: "over old prep (entries h) Committed (files_of d)" using d(4) by (simp add: all_new_def)
  have kept: "sane d' \<and> all_new prep h d' \<and> recoverable X J h old prep d'" if "cleaned d d'" for d'
    using cleaned_recoverable [OF d(1,2,3,5) says new that] over_cleaned [OF new that] that
    by (simp add: cleaned_def all_new_def)
  show ?thesis
    by (rule wp_bind, rule wp_conseq [OF cleanup_wp [OF js d(1)]])
      (use job d(3) kept in \<open>auto simp: commit_stops_def intro!: wp_return\<close>)
qed

lemma undo_commit_returns:
  assumes "job_setup X J pol h text old prep"
    and "job = \<lparr>prepared_header = h, job_directory = job_dir, job_journal_path = journal_file\<rparr>"
    and "sane d" "all_intact old h d" "file_at d journal_file = Some b" and "fails M"
  shows "wp M (undo_commit X pol job what cause) (commit_returns M old prep h)
    (commit_stops M X J old prep h) d"
  by (rule wp_conseq [OF undo_commit_wp [OF assms(1-5)]])
    (use assms(6) in \<open>auto simp: commit_stops_def\<close>)

text \<open>Recording that the new files are in place, and the end of the commit.\<close>

lemma record_commit_wp:
  assumes js: "job_setup X J pol h text old prep"
    and job: "job = \<lparr>prepared_header = h, job_directory = job_dir, job_journal_path = journal_file\<rparr>"
    and d: "sane d" "lone d" "is_directory d job_dir" "all_intact old h d" "all_new prep h d"
      "file_at d journal_file = Some (journal_text text [Prepared, Committing])"
  shows "wp M (io_bind (append_state X (job_journal_path job) Committed) (\<lambda>recorded.
      if \<not> is_ok recorded then undo_commit X pol job what cause
      else io_bind (cleanup_prepared_job pol job) (\<lambda>cleaned.
        io_return (Ok \<lparr>commit_job_id = header_job_id h, commit_generation = header_generation h,
          cleanup_pending = \<not> is_ok cleaned\<rparr>))))
     (commit_returns M old prep h) (commit_stops M X J old prep h) d"
proof -
  have written: "sane d1" "lone d1" "is_directory d1 job_dir" "all_intact old h d1" "all_new prep h d1"
    if "\<forall>q. q \<noteq> journal_file \<longrightarrow> node_at d1 q = node_at d q" for d1
    using journal_written [OF d(1) refl that] d(2-5) by (simp_all add: all_intact_def all_new_def)
  have run: "journal_run None [Prepared, Committing] (Some Committing)" by simp
  have whole: "journal_text text [Prepared, Committing] @ state_line Committed
      = journal_text text [Prepared, Committing, Committed]" by (simp add: journal_text_def)
  have stop: "commit_stops M X J old prep h d1"
    if same: "\<forall>q. q \<noteq> journal_file \<longrightarrow> node_at d1 q = node_at d q"
      and b: "file_at d1 journal_file = Some b"
        "appended Committed (journal_text text [Prepared, Committing]) b" for d1 b
  proof -
    obtain t where t: "parse_journal X J b = Ok (h, t)" "t = Committing \<or> t = Committed"
      using journal_reads(2) [OF js run _ _ b(2)] by auto
    then have "phase old prep (entries h) t (files_of d1)"
      using written(4,5) [OF same] by (auto simp: all_intact_def all_new_def)
    with written [OF same] t(1) b(1) show ?thesis
      by (auto simp: commit_stops_def intro: recoverableI)
  qed
  show ?thesis
    unfolding job prepared_job.select_convs
  proof (rule wp_bind, rule wp_conseq [OF append_state_wp [OF job_setupD(6) [OF js] d(6)]], goal_cases)
    case (1 r d1)
    then obtain b where r: "\<forall>q. q \<noteq> journal_file \<longrightarrow> node_at d1 q = node_at d q"
      "file_at d1 journal_file = Some b"
      "is_ok r \<longrightarrow> b = journal_text text [Prepared, Committing, Committed]" "is_ok r \<or> fails M"
      by (auto simp: whole)
    note w = written [OF r(1)]
    show ?case
    proof (cases "is_ok r")
      case True
      with finish_commit_wp [OF js job w(1-3,5), of M] r(2,3) show ?thesis by (simp add: job)
    next
      case False
      with undo_commit_returns [OF js job w(1,4) r(2), of M] r(4) show ?thesis by (simp add: job)
    qed
  qed (use stop in blast)
qed

lemma commit_file_set_wp:
  assumes js: "job_setup X J pol h text old prep"
    and job: "job = \<lparr>prepared_header = h, job_directory = job_dir, job_journal_path = journal_file\<rparr>"
    and d: "sane d" "lone d" "is_directory d job_dir"
      "\<forall>e \<in> set (entries h). fresh old prep (files_of d) e"
      "file_at d journal_file = Some (journal_text text [Prepared])"
  shows "wp M (commit_file_set X pol job) (commit_returns M old prep h)
    (commit_stops M X J old prep h) d"
proof -
  note facts = job_setupD [OF js]
  have run: "journal_run None [Prepared] (Some Prepared)" by simp
  have whole: "journal_text text [Prepared] @ state_line Committing
      = journal_text text [Prepared, Committing]" by (simp add: journal_text_def)
  have old_state: "commit_stops M X J old prep h d1 \<and> all_intact old h d1 \<and> all_old old h d1
      \<and> sane d1 \<and> lone d1 \<and> is_directory d1 job_dir
      \<and> (\<forall>e \<in> set (entries h). fresh old prep (files_of d1) e)"
    if same: "\<forall>q. q \<noteq> journal_file \<longrightarrow> node_at d1 q = node_at d q"
      and b: "file_at d1 journal_file = Some b" "appended Committing (journal_text text [Prepared]) b"
    for d1 b
  proof -
    note w = journal_written [OF d(1) refl same]
    have fresh1: "\<forall>e \<in> set (entries h). fresh old prep (files_of d1) e" using d(4) w(2) by simp
    then have it: "all_intact old h d1" "all_old old h d1"
      by (auto simp: all_intact_def all_old_def fresh_def dest: restored_intact)
        (simp add: restored_def)
    obtain t where t: "parse_journal X J b = Ok (h, t)" "t = Prepared \<or> t = Committing"
      using journal_reads(2) [OF js run _ _ b(2)] by auto
    then have "phase old prep (entries h) t (files_of d1)"
      using it(1) fresh1 by (auto simp: all_intact_def fresh_def)
    with w d(2,3) t(1) b(1) it fresh1 show ?thesis
      by (auto simp: commit_stops_def intro: recoverableI)
  qed
  have start: "commit_stops M X J old prep h d \<and> all_intact old h d \<and> all_old old h d"
    using old_state [of d "journal_text text [Prepared]"] d(5) by simp
  then have stay: "commit_stops M X J old prep h d"
    "\<And>x. fails M \<Longrightarrow> commit_returns M old prep h (Inl x) d"
    using d(1) by simp_all
  have snapshots: "wp M (verify_original_snapshots plat root (entries h))
     (\<lambda>r d'. d' = d \<and> (if is_ok r then r = Ok () else fails M)) (\<lambda>d'. d' = d) d"
    using facts(9,10) d(1,4)
    by (intro verify_snapshots_wp) (auto simp: entries_ok_def fresh_def restored_def)
  show ?thesis
    unfolding commit_file_set_def Let_def job prepared_job.select_convs facts(2,4)
  proof (rule wp_ask [OF verify_law [OF d(1)] wp_ask [OF snapshots]], rule wp_then,
      rule wp_conseq [OF append_state_wp [OF facts(6) d(5)]], goal_cases)
    case (1 r d1)
    then obtain b where r: "\<forall>q. q \<noteq> journal_file \<longrightarrow> node_at d1 q = node_at d q"
      "file_at d1 journal_file = Some b" "appended Committing (journal_text text [Prepared]) b"
      "is_ok r \<longrightarrow> b = journal_text text [Prepared, Committing]" "is_ok r \<or> fails M"
      by (auto simp: whole)
    note o1 = old_state [OF r(1-3)]
    show ?case
    proof (cases r)
      case (Inl x)
      with r(5) o1 show ?thesis by simp
    next
      case (Inr u)
      have each: "wp M (io_each (apply_entry pol root job_id) (entries h))
         (\<lambda>r d'. \<exists>F. becomes d1 F d' \<and> (\<forall>e \<in> set (entries h). intact old F e)
            \<and> (if is_ok r then \<forall>e \<in> set (entries h). applied old prep F e else fails M))
         (\<lambda>d'. \<exists>F. becomes d1 F d' \<and> (\<forall>e \<in> set (entries h). intact old F e)) d1"
        using facts o1 by (intro apply_all_wp) auto
      have journal: "file_at d1 journal_file = Some (journal_text text [Prepared, Committing])"
        using r(2,4) Inr by simp
      have next_state: "sane d2" "lone d2" "is_directory d2 job_dir"
        "file_at d2 journal_file = Some (journal_text text [Prepared, Committing])"
        if "becomes d1 F d2" for F d2
        using becomesD [OF that] becomes_lone [OF that] becomes_job_dir [OF that] o1 journal by auto
      have reads: "parse_journal X J (journal_text text [Prepared, Committing]) = Ok (h, Committing)"
        by (rule journal_reads [OF js]) simp_all
      have "wp M (io_bind (io_each (apply_entry pol root job_id) (entries h)) (\<lambda>applied.
          case applied of
            Inl commit_error \<Rightarrow>
              undo_commit X pol job ''commit failed and rollback must be resumed by recovery''
                commit_error
          | Inr _ \<Rightarrow> io_bind (append_state X (job_journal_path job) Committed) (\<lambda>recorded.
              if \<not> is_ok recorded
              then undo_commit X pol job
                  ''journal commit failed and rollback must be resumed by recovery''
                  (maintenance_error_new TransactionIo
                    ''committed journal state could not be persisted'')
              else io_bind (cleanup_prepared_job pol job) (\<lambda>cleaned.
                io_return (Ok \<lparr>commit_job_id = header_job_id h,
                  commit_generation = header_generation h,
                  cleanup_pending = \<not> is_ok cleaned\<rparr>)))))
          (commit_returns M old prep h) (commit_stops M X J old prep h) d1"
      proof (rule wp_bind, rule wp_conseq [OF each], goal_cases)
        case (1 r d2)
        then obtain F where F: "becomes d1 F d2" "\<forall>e \<in> set (entries h). intact old F e"
          "if is_ok r then \<forall>e \<in> set (entries h). applied old prep F e else fails M" by blast
        have it: "all_intact old h d2" using F(2) becomesD(2) [OF F(1)] by (simp add: all_intact_def)
        note n2 = next_state [OF F(1)]
        show ?case
        proof (cases r)
          case (Inl x)
          with undo_commit_returns [OF js job n2(1) it n2(4)] F(3) show ?thesis by simp
        next
          case (Inr u)
          then have "all_new prep h d2"
            using F(3) becomesD(2) [OF F(1)] by (simp add: all_new_def applied_def)
          from record_commit_wp [OF js job n2(1-3) it this n2(4)] Inr show ?thesis by simp
        qed
      next
        case (2 d2)
        then obtain F where F: "becomes d1 F d2" "\<forall>e \<in> set (entries h). intact old F e" by blast
        then have it: "all_intact old h d2" using becomesD(2) [OF F(1)] by (simp add: all_intact_def)
        have "recoverable X J h old prep d2"
          by (rule recoverableI [OF next_state [OF F(1)] reads phase_intact [OF it]]) simp
        with it next_state(1) [OF F(1)] show ?case by (simp add: commit_stops_def)
      qed
      then show ?thesis
        unfolding job prepared_job.select_convs Inr sum.case apply_entries_def Let_def facts(4,5) .
    qed
  next
    case (2 d1)
    then show ?case using old_state by blast
  qed (use stay in auto)
qed

subsection \<open>Recovery\<close>

text \<open>What the recovery reports is what holds of the files, and the job is gone.\<close>

definition recovered ::
  "(string \<Rightarrow> stored_file option) \<Rightarrow> (u32 \<Rightarrow> stored_file option) \<Rightarrow> journal_header
   \<Rightarrow> recovery_result result \<Rightarrow> disk \<Rightarrow> bool"
where
  "recovered old prep h r d \<longleftrightarrow> (\<exists>res. r = Ok res \<and> sane d
     \<and> (all_old old h d \<or> all_new prep h d)
     \<and> (rolled_back_jobs res \<noteq> [] \<longrightarrow> all_old old h d)
     \<and> (committed_jobs res \<noteq> [] \<longrightarrow> all_new prep h d)
     \<and> (\<forall>q. below job_dir q \<longrightarrow> node_at d q = None))"

text \<open>A journal without a torn line.\<close>

definition whole_journal :: "string \<Rightarrow> disk \<Rightarrow> bool" where
  "whole_journal text d \<longleftrightarrow> (\<forall>b. file_at d journal_file = Some b \<longrightarrow>
     (\<exists>ss a. journal_run None ss (Some a) \<and> b = journal_text text ss))"

definition recovery_stops ::
  "external \<Rightarrow> journal_parsers \<Rightarrow> (string \<Rightarrow> stored_file option) \<Rightarrow> (u32 \<Rightarrow> stored_file option)
   \<Rightarrow> journal_header \<Rightarrow> bool \<Rightarrow> disk \<Rightarrow> bool"
where
  "recovery_stops X J old prep h untorn d \<longleftrightarrow> sane d
     \<and> (all_intact old h d \<or> all_old old h d \<or> all_new prep h d)
     \<and> (untorn \<longrightarrow> recoverable X J h old prep d)"

lemma recoverable_kept:
  assumes "recoverable X J h old prep d"
  shows "sane d" "lone d" "all_intact old h d \<or> all_old old h d \<or> all_new prep h d"
proof -
  have "all_intact old h d \<or> all_new prep h d" if "phase old prep (entries h) s (files_of d)" for s
    using that by (cases s) (auto simp: all_intact_def all_new_def dest: restored_intact)
  then show "sane d" "lone d" "all_intact old h d \<or> all_old old h d \<or> all_new prep h d"
    using assms unfolding recoverable_def all_old_def all_new_def by blast+
qed

lemma recoverable_job_dir:
  assumes "recoverable X J h old prep d"
  shows "(\<forall>q. below job_dir q \<longrightarrow> node_at d q = None) \<or> is_directory d job_dir"
proof -
  have "S \<and> L \<and> (J \<and> (A \<or> B) \<and> N \<or> B \<and> E) \<Longrightarrow> A \<or> B" for S L J A B N E by blast
  from this [OF assms [unfolded recoverable_def]] show ?thesis .
qed

lemma over_settled:
  assumes "over old prep (entries h) s (files_of d)"
  shows "s = Committed \<longrightarrow> all_new prep h d" "s \<noteq> Committed \<longrightarrow> all_old old h d"
  using assms by (cases s; simp add: all_new_def all_old_def restored_def)+

text \<open>The cleanup that ends every case of the recovery.\<close>

lemma settle_cleanup_wp:
  assumes js: "job_setup X J pol h text old prep"
    and job: "job = \<lparr>prepared_header = h, job_directory = job_dir, job_journal_path = journal_file\<rparr>"
    and M: "\<not> fails M"
    and d: "sane d" "lone d" "is_directory d job_dir" "file_at d journal_file = Some b"
    and says: "untorn \<Longrightarrow> parse_journal X J b = Ok (h, s)" "over old prep (entries h) s (files_of d)"
    and res: "rolled_back_jobs res \<noteq> [] \<Longrightarrow> s \<noteq> Committed" "committed_jobs res \<noteq> [] \<Longrightarrow> s = Committed"
  shows "wp M (io_then (cleanup_prepared_job pol job) (\<lambda>_. io_return (Ok res)))
    (recovered old prep h) (recovery_stops X J old prep h untorn) d"
proof -
  have kept: "sane d'" "s = Committed \<longrightarrow> all_new prep h d'" "s \<noteq> Committed \<longrightarrow> all_old old h d'"
    "untorn \<longrightarrow> recoverable X J h old prep d'" if "cleaned d d'" for d'
    using over_settled [OF over_cleaned [OF says(2) that]]
      cleaned_recoverable [OF d says(1) says(2) that] that
    by (auto simp: cleaned_def)
  show ?thesis
  proof (rule wp_then, rule wp_conseq [OF cleanup_wp [OF js d(1)]], goal_cases)
    case (3 r d')
    with M d(3) have "r = Ok ()" "cleaned d d'" "\<forall>q. below job_dir q \<longrightarrow> node_at d' q = None" by auto
    with kept [of d'] res show ?case
      by (auto simp: recovered_def intro!: wp_return)
  next
    case (4 d')
    with kept [of d'] show ?case by (auto simp: recovery_stops_def)
  qed (simp_all add: job)
qed

text \<open>Rolling back and cleaning up, once the journal says so.\<close>

lemma settle_rollback_wp:
  assumes js: "job_setup X J pol h text old prep"
    and job: "job = \<lparr>prepared_header = h, job_directory = job_dir, job_journal_path = journal_file\<rparr>"
    and M: "\<not> fails M"
    and d: "sane d" "lone d" "is_directory d job_dir" "file_at d journal_file = Some b"
    and says: "untorn \<Longrightarrow> parse_journal X J b = Ok (h, RollingBack)" "all_intact old h d"
    and res: "committed_jobs res = []"
  shows "wp M (io_then (rollback_entries pol job) (\<lambda>_. io_then (cleanup_prepared_job pol job)
      (\<lambda>_. io_return (Ok res))))
    (recovered old prep h) (recovery_stops X J old prep h untorn) d"
proof (rule wp_then, rule wp_conseq [OF rollback_entries_wp [OF js _ d(1) says(2)]], goal_cases)
  case (2 r d')
  then obtain F where G: "becomes d F d'" "all_intact old h d'"
    "if is_ok r then r = Ok () \<and> (\<forall>e \<in> set (entries h). restored old F e) else fails M" by blast
  then have F: "becomes d F d'" "all_intact old h d'" "r = Ok ()"
    "\<forall>e \<in> set (entries h). restored old F e" using M by (cases "is_ok r"; simp)+
  have "over old prep (entries h) RollingBack (files_of d')"
    using F(4) becomesD(2) [OF F(1)] by simp
  from settle_cleanup_wp [OF js job M becomesD(1) [OF F(1)] becomes_lone [OF F(1) d(2)] _ _ says(1) this]
  show ?case using becomes_job_dir [OF F(1)] d(3,4) res F(3) by simp
next
  case (3 d')
  then obtain F where F: "becomes d F d'" "all_intact old h d'" by blast
  have "untorn \<Longrightarrow> recoverable X J h old prep d'"
    by (rule recoverableI [OF becomesD(1) [OF F(1)] becomes_lone [OF F(1) d(2)] _ _ says(1)
      phase_intact [OF F(2)]]) (use becomes_job_dir [OF F(1)] d(3,4) in simp_all)
  with F becomesD(1) [OF F(1)] show ?case by (auto simp: recovery_stops_def)
qed (simp add: job)

lemma settle_job_wp:
  assumes js: "job_setup X J pol h text old prep"
    and job: "job = \<lparr>prepared_header = h, job_directory = job_dir, job_journal_path = journal_file\<rparr>"
    and M: "\<not> fails M"
    and d: "sane d" "lone d" "is_directory d job_dir" "file_at d journal_file = Some b"
    and says: "parse_journal X J b = Ok (h, s)" "phase old prep (entries h) s (files_of d)"
    and untorn: "untorn \<Longrightarrow> \<exists>ss. journal_run None ss (Some s) \<and> b = journal_text text ss"
  shows "wp M (settle_job X pol job s recovery_result_default)
    (recovered old prep h) (recovery_stops X J old prep h untorn) d"
proof (cases s)
  case Committing
  then have it: "all_intact old h d" using says(2) by (simp add: all_intact_def)
  have written: "sane d1" "lone d1" "is_directory d1 job_dir" "all_intact old h d1"
    if "\<forall>q. q \<noteq> journal_file \<longrightarrow> node_at d1 q = node_at d q" for d1
    using journal_written [OF d(1) refl that] d(2,3) it by (simp_all add: all_intact_def)
  have run: "journal_run None ss (Some Committing) \<Longrightarrow> ss = [Prepared, Committing]" for ss
    by (simp add: journal_histories)
  have stop: "recovery_stops X J old prep h untorn d1"
    if same: "\<forall>q. q \<noteq> journal_file \<longrightarrow> node_at d1 q = node_at d q"
      and b': "file_at d1 journal_file = Some b'" "appended RollingBack b b'" for d1 b'
  proof -
    have "recoverable X J h old prep d1" if untorn
    proof -
      have b: "b = journal_text text [Prepared, Committing]"
        using untorn [OF that] Committing run by auto
      obtain t where "parse_journal X J b' = Ok (h, t)" "t = Committing \<or> t = RollingBack"
        using journal_reads(2) [OF js, of "[Prepared, Committing]" Committing RollingBack b'] b'(2) b
        by auto
      with written [OF same] b'(1) show ?thesis by (auto intro: recoverableI phase_intact)
    qed
    with written [OF same] show ?thesis by (simp add: recovery_stops_def)
  qed
  have "wp M (io_then (append_state X (job_journal_path job) RollingBack)
      (\<lambda>_. io_then (rollback_entries pol job) (\<lambda>_. io_then (cleanup_prepared_job pol job)
      (\<lambda>_. io_return (Ok (recovery_result_default\<lparr>rolled_back_jobs :=
        rolled_back_jobs recovery_result_default @ [header_job_id (prepared_header job)]\<rparr>))))))
    (recovered old prep h) (recovery_stops X J old prep h untorn) d"
    unfolding job prepared_job.select_convs
  proof (rule wp_then, rule wp_conseq [OF append_state_wp [OF job_setupD(6) [OF js] d(4)]], goal_cases)
    case (1 r d1)
    then have r: "\<forall>q. q \<noteq> journal_file \<longrightarrow> node_at d1 q = node_at d q" "is_ok r"
      "file_at d1 journal_file = Some (b @ state_line RollingBack)" using M by auto
    have "parse_journal X J (b @ state_line RollingBack) = Ok (h, RollingBack)" if untorn
    proof -
      have "b = journal_text text [Prepared, Committing]" using untorn [OF that] Committing run by auto
      then have "b @ state_line RollingBack = journal_text text [Prepared, Committing, RollingBack]"
        by (simp add: journal_text_def)
      then show ?thesis using journal_reads(1) [OF js, of "[Prepared, Committing, RollingBack]" RollingBack]
        by simp
    qed
    from settle_rollback_wp [OF js job M written(1-3) [OF r(1)] r(3) this written(4) [OF r(1)]]
    show ?case using r(2) by (auto simp: is_ok_iff job recovery_result_default_def)
  qed (use stop in blast)
  then show ?thesis using Committing by (simp add: settle_job_def Let_def)
next
  case RollingBack
  then show ?thesis
    using settle_rollback_wp [OF js job M d] says by (simp add: settle_job_def Let_def io_simps
        all_intact_def recovery_result_default_def)
next
  case Prepared
  have "wp M (io_then (cleanup_prepared_job pol job) (\<lambda>_.
      io_return (Ok (discard_job (header_job_id (prepared_header job)) recovery_result_default))))
    (recovered old prep h) (recovery_stops X J old prep h untorn) d"
    by (rule settle_cleanup_wp [OF js job M d, where s = Prepared])
      (use says Prepared in \<open>simp_all add: discard_job_def recovery_result_default_def\<close>)
  then show ?thesis using Prepared by (simp add: settle_job_def Let_def)
next
  case Committed
  have "wp M (io_then (cleanup_prepared_job pol job) (\<lambda>_.
      io_return (Ok (recovery_result_default\<lparr>committed_jobs :=
        committed_jobs recovery_result_default @ [header_job_id (prepared_header job)]\<rparr>))))
    (recovered old prep h) (recovery_stops X J old prep h untorn) d"
    by (rule settle_cleanup_wp [OF js job M d, where s = Committed])
      (use says Committed in \<open>simp_all add: recovery_result_default_def\<close>)
  then show ?thesis using Committed by (simp add: settle_job_def Let_def)
qed

text \<open>The recovery of a directory of jobs that holds this one, or nothing.\<close>

lemma lone_children:
  assumes "sane d" "lone d"
  shows "children d (parent job_dir) = (if node_at d job_dir = None then [] else [job_id])"
proof -
  have dom: "q |\<in>| fmdom d \<longleftrightarrow> node_at d q \<noteq> None" for q
    by (simp add: fmlookup_dom_iff)
  have only: "q = job_dir" if "node_at d q \<noteq> None" "q \<noteq> []" "butlast q = parent job_dir" for q
    using assms(2) that unfolding lone_def by (simp add: parent_def)
  have here: "butlast job_dir = parent job_dir" by (simp add: parent_def)
  have "q |\<in>| ffilter (\<lambda>q. q \<noteq> [] \<and> butlast q = parent job_dir) (fmdom d)
      \<longleftrightarrow> q |\<in>| (if node_at d job_dir = None then {||} else {|job_dir|})" for q
    using only [of q] dom [of q] here job_dir_not_Nil [OF assms(1)]
    by (cases "node_at d job_dir = None"; cases "q = []") auto
  then have "ffilter (\<lambda>q. q \<noteq> [] \<and> butlast q = parent job_dir) (fmdom d)
      = (if node_at d job_dir = None then {||} else {|job_dir|})"
    by (intro fset_eqI)
  moreover have "last job_dir = job_id" using job_dir_parent [OF assms(1)] by (metis last_snoc)
  ultimately show ?thesis by (simp add: children_def sorted_list_of_fset.rep_eq)
qed

text \<open>The two branches of the recovery loop: a job without a journal, and one with a journal.\<close>

abbreviation discard_branch where
  "discard_branch \<equiv> io_then (io_err transaction_io (fs_remove_dir_all job_dir))
     (\<lambda>_. io_return (Ok (discard_job job_id recovery_result_default)))"

abbreviation settle_branch where
  "settle_branch X J pol \<equiv> io_then (read_journal X J journal_file) (\<lambda>(header, state).
     if job_id \<noteq> header_job_id header
     then io_return (Err RecoveryIncomplete ''transaction directory does not match journal job ID'')
     else (let job = \<lparr>prepared_header = header, job_directory = job_dir,
         job_journal_path = journal_file\<rparr> in
       io_bind (verify_root_identity plat (header_root header)) (\<lambda>identity.
       case identity of
         Inl identity_error \<Rightarrow>
           io_bind (if state = Prepared then root_is_missing plat (header_root header)
             else io_return False) (\<lambda>missing.
           if missing
           then io_then (cleanup_private_prepared_job pol job) (\<lambda>_.
             io_return (Ok (discard_job (header_job_id header) recovery_result_default)))
           else io_return (Inl identity_error))
       | Inr _ \<Rightarrow> settle_job X pol job state recovery_result_default)))"

lemma discard_branch_wp:
  assumes js: "job_setup X J pol h text old prep" and M: "\<not> fails M"
    and d: "recoverable X J h old prep d" "is_directory d job_dir"
    and none: "node_at d journal_file = None"
  shows "wp M discard_branch (recovered old prep h) (recovery_stops X J old prep h (whole_journal text d)) d"
    (is "wp M _ ?Q ?C d")
proof -
  note kept = recoverable_kept [OF d(1)] and dir = d(2)
  note j = journal_file_facts [OF kept(1)]
  have settled: "all_old old h d \<or> all_new prep h d"
    using d(1) none unfolding recoverable_def all_old_def all_new_def
    by (auto simp: file_at_def)
  have part: "cleaned d (fmfilter (\<lambda>q. \<not> below job_dir q \<or> K q) d)"
    if up: "\<And>q q'. below q q' \<Longrightarrow> K q' \<Longrightarrow> K q" for K
  proof -
    let ?d = "fmfilter (\<lambda>q. \<not> below job_dir q \<or> K q) d"
    have "\<forall>q. own q \<longrightarrow> node_at ?d q = node_at d q"
      using outside [OF kept(1)] below_trans [OF j(1)] by auto
    note same = depends [OF kept(1) this]
    have "node_at ?d q = node_at d q"
      if "below job_dir q" "below q q'" "node_at ?d q' \<noteq> None" for q q'
    proof -
      have "K q'" using that below_trans [OF that(1,2)] by (auto split: if_splits)
      with up [OF that(2)] show ?thesis by simp
    qed
    with same show ?thesis by (simp add: cleaned_def)
  qed
  have part_recoverable: "?C (fmfilter (\<lambda>q. \<not> below job_dir q \<or> K q) d)"
    if up: "\<And>q q'. below q q' \<Longrightarrow> K q' \<Longrightarrow> K q" for K
  proof -
    let ?d = "fmfilter (\<lambda>q. \<not> below job_dir q \<or> K q) d"
    note c = part [OF up]
    have same: "sane ?d" "target_files (files_of ?d) = target_files (files_of d)"
      using c by (simp_all add: cleaned_def)
    have "node_at ?d journal_file = None" using none by simp
    moreover have "(\<forall>q. below job_dir q \<longrightarrow> node_at ?d q = None) \<or> is_directory ?d job_dir"
      using dir up [of job_dir] by (auto simp: is_directory_def)
    ultimately show ?thesis
      using settled same cleaned_lone [OF kept(1,2) c]
      unfolding recovery_stops_def recoverable_def all_old_def all_new_def by auto
  qed
  have whole: "?Q (Ok (discard_job job_id recovery_result_default))
      (fmfilter (\<lambda>q. \<not> below job_dir q) d)"
    using part [of "\<lambda>q. False"] settled
    by (auto simp: recovered_def cleaned_def all_old_def all_new_def discard_job_def
        recovery_result_default_def)
  obtain i where i: "node_at d job_dir = Some (Directory i)" using dir unfolding is_directory_iff by blast
  show ?thesis
    unfolding io_err_def
  proof (intro wp_then wp_map_err wp_remove_dir_all, goal_cases)
    case (1 K)
    show ?case by (rule part_recoverable [OF 1(2)])
  next
    case (2 K)
    with M show ?case by simp
  next
    case 3
    show ?case using i whole by (simp add: wp_return)
  qed
qed

lemma settle_branch_wp:
  assumes js: "job_setup X J pol h text old prep" and M: "\<not> fails M"
    and d: "recoverable X J h old prep d" "is_directory d job_dir"
    and some: "node_at d journal_file \<noteq> None"
  shows "wp M (settle_branch X J pol) (recovered old prep h) (recovery_stops X J old prep h (whole_journal text d)) d"
    (is "wp M _ ?Q ?C d")
proof -
  let ?job = "\<lparr>prepared_header = h, job_directory = job_dir, job_journal_path = journal_file\<rparr>"
  note facts = job_setupD [OF js] and kept = recoverable_kept [OF d(1)] and dir = d(2)
  have stay: "?C d" using kept d(1) by (simp add: recovery_stops_def)
  obtain b s where b: "file_at d journal_file = Some b" "parse_journal X J b = Ok (h, s)"
    "phase old prep (entries h) s (files_of d)"
    using d(1) some unfolding recoverable_def by blast
  obtain f where f: "node_at d journal_file = Some (File f)" "contents f = b"
    using b(1) by (auto simp: file_at_Some)
  have len: "length b \<le> MAX_MANIFEST_BYTES"
    using b(2) by (auto simp: parse_journal_def split: if_splits)
  have untorn: "\<exists>ss. journal_run None ss (Some s) \<and> b = journal_text text ss"
    if whole: "whole_journal text d"
  proof -
    obtain ss a where ss: "journal_run None ss (Some a)" "b = journal_text text ss"
      using whole b(1) unfolding whole_journal_def by blast
    then have "length ss \<le> 3" by (auto simp: journal_histories)
    from journal_reads(1) [OF js ss(1) this] ss(2) b(2) have "a = s" by simp
    with ss show ?thesis by blast
  qed
  have run_settle: "wp M (settle_job X pol ?job s recovery_result_default) ?Q ?C d"
    by (rule settle_job_wp [OF js refl M kept(1,2) dir b untorn])
  have verified: "wp M (io_bind (verify_root_identity plat root) (\<lambda>identity.
      case identity of
        Inl identity_error \<Rightarrow>
          io_bind (if s = Prepared then root_is_missing plat root else io_return False) (\<lambda>missing.
          if missing
          then io_then (cleanup_private_prepared_job pol ?job) (\<lambda>_.
            io_return (Ok (discard_job job_id recovery_result_default)))
          else io_return (Inl identity_error))
      | Inr _ \<Rightarrow> settle_job X pol ?job s recovery_result_default)) ?Q ?C d"
  proof (intro wp_bind, rule wp_conseq [OF verify_law [OF kept(1)]], goal_cases)
    case (1 r d')
    with M have "d' = d" "r = Ok ()" by (auto split: if_splits)
    with run_settle show ?case by (simp only: sum.case)
  qed (use stay in simp)
  have reads: "wp M (read_journal X J journal_file)
      (\<lambda>r d'. d' = d \<and> (if is_ok r then r = Ok (h, s) else fails M)) (\<lambda>d'. d' = d) d"
    unfolding read_journal_def io_err_def
    by (intro wp_then wp_map_err wp_read)
      (use f len b(2) in \<open>auto simp: lift_result_def intro!: wp_return\<close>)
  show ?thesis
  proof (rule wp_ask [OF reads], goal_cases)
    case 1
    show ?case unfolding prod.case facts(4,5) Let_def simp_thms if_False by (rule verified)
  qed (use M stay in simp_all)
qed

lemma recover_job_wp:
  assumes js: "job_setup X J pol h text old prep" and M: "\<not> fails M"
    and d: "recoverable X J h old prep d" "node_at d job_dir \<noteq> None"
  shows "wp M (recover_job X J pol job_id recovery_result_default)
    (recovered old prep h) (recovery_stops X J old prep h (whole_journal text d)) d"
    (is "wp M _ ?Q ?C d")
proof -
  note facts = job_setupD [OF js] and kept = recoverable_kept [OF d(1)]
  note j = journal_file_facts [OF kept(1)]
  have "\<not> (\<forall>q. below job_dir q \<longrightarrow> node_at d q = None)" using d(2) below_refl [of job_dir] by metis
  then have dir: "is_directory d job_dir" using recoverable_job_dir [OF d(1)] by blast
  then obtain i where i: "node_at d job_dir = Some (Directory i)"
    unfolding is_directory_iff by blast
  have stay: "?C d" using kept d(1) by (simp add: recovery_stops_def)
  have paths: "jobs_path X pol @ [job_id] = job_dir" "job_dir @ [''journal.jsonl''] = journal_file"
    using job_dir_parent [OF kept(1)] by (simp_all add: facts(3) journal_file_def)
  have look: "wp M (io_err transaction_io (fs_metadata job_dir))
      (\<lambda>r d'. d' = d \<and> (if is_ok r then r = Ok (Directory i) else fails M)) (\<lambda>d'. d' = d) d"
    unfolding io_err_def by (intro wp_map_err wp_metadata) (simp_all add: i)
  show ?thesis
    unfolding recover_job_def Let_def paths facts(2)
  proof (rule wp_ask [OF look], goal_cases)
    case 1
    have "wp M (io_bind (fs_exists journal_file) (\<lambda>present.
        if \<not> present then discard_branch else settle_branch X J pol)) ?Q ?C d"
    proof (rule wp_bind, rule wp_exists)
      show "wp M (if \<not> node_at d journal_file \<noteq> None then discard_branch else settle_branch X J pol)
          ?Q ?C d"
        using discard_branch_wp [OF js M d(1) dir] settle_branch_wp [OF js M d(1) dir]
        by (cases "node_at d journal_file = None") simp_all
    qed (use stay M in simp_all)
    then show ?case unfolding is_dir_node.simps simp_thms if_False Let_def .
  qed (use M stay in simp_all)
qed

lemma recover_incomplete_wp:
  assumes js: "job_setup X J pol h text old prep" and M: "\<not> fails M"
    and d: "recoverable X J h old prep d"
  shows "wp M (recover_incomplete_with_policy X J pol)
    (recovered old prep h) (recovery_stops X J old prep h (whole_journal text d)) d"
    (is "wp M _ ?Q ?C d")
proof -
  note kept = recoverable_kept [OF d]
  note jobs = job_setupD(3) [OF js]
  have stay: "?C d" using kept d by (simp add: recovery_stops_def)
  have dir: "is_directory d (parent job_dir)" using kept(2) by (simp add: lone_def)
  then have there: "node_at d (parent job_dir) \<noteq> None"
    unfolding is_directory_iff by auto
  have listed: "wp M (io_err transaction_io (fs_read_dir (parent job_dir)))
      (\<lambda>r d'. d' = d \<and> (if is_ok r
         then r = Ok (if node_at d job_dir = None then [] else [job_id]) else fails M))
      (\<lambda>d'. d' = d) d"
    unfolding io_err_def
    by (intro wp_map_err wp_read_dir) (simp_all add: dir lone_children [OF kept(1,2)])
  have gone: "?Q (Ok recovery_result_default) d" if none: "node_at d job_dir = None"
  proof -
    have "\<not> is_directory d job_dir" using none by (simp add: is_directory_def)
    then have "\<forall>q. below job_dir q \<longrightarrow> node_at d q = None" "all_old old h d \<or> all_new prep h d"
      using d unfolding recoverable_def all_old_def all_new_def by blast+
    with kept(1) show ?thesis by (simp add: recovered_def recovery_result_default_def)
  qed
  have jobs_done: "wp M (recover_jobs X J pol (if node_at d job_dir = None then [] else [job_id])
      recovery_result_default) ?Q ?C d"
  proof (cases "node_at d job_dir = None")
    case True
    with gone show ?thesis by (auto intro!: wp_return)
  next
    case False
    have "wp M (io_then (recover_job X J pol job_id recovery_result_default)
        (\<lambda>result. io_return (Ok result))) ?Q ?C d"
      by (rule wp_then, rule wp_conseq [OF recover_job_wp [OF js M d False]])
        (auto simp: recovered_def intro!: wp_return split: sum.splits)
    moreover have "recover_jobs X J pol [] = (\<lambda>result. io_return (Ok result))"
      by (simp add: fun_eq_iff)
    ultimately show ?thesis using False by (cases "node_at d job_dir") simp_all
  qed
  have "wp M (io_then (io_err transaction_io (fs_read_dir (parent job_dir)))
      (\<lambda>names. recover_jobs X J pol names recovery_result_default)) ?Q ?C d"
    by (rule wp_ask [OF listed], rule jobs_done, rule stay) (simp add: M)
  with stay M there show ?thesis
    unfolding recover_incomplete_with_policy_def jobs by (intro wp_bind wp_exists) simp_all
qed

end

end
