(* ===== verification/Local_Engine.thy ===== *)
theory Local_Engine
  imports Local_Platform Engine
begin

text \<open>
  The local platform meets the contract of the engine. The files of a job are its slots: the
  targets, and the backups and prepared files in the reserved directory of the root. On a
  disk where the directories around them are directories or absent, and the slots hold safe
  files or nothing, every operation of the platform keeps to its own slots.
\<close>

subsection \<open>Slots\<close>

datatype slot = Target string | Backup u32 | Ready u32

definition folded_components :: "external \<Rightarrow> string \<Rightarrow> path" where
  "folded_components X n = map (to_lowercase X) (split_on CHR ''/'' n)"

fun slot_path :: "external \<Rightarrow> registered_root \<Rightarrow> string \<Rightarrow> slot \<Rightarrow> path" where
  "slot_path X root job_id (Target n) = target_path X root n"
| "slot_path X root job_id (Backup i) = job_backup_path X root job_id i"
| "slot_path X root job_id (Ready i) = prepared_path X root job_id i"

fun valid_slot :: "string set \<Rightarrow> u32 set \<Rightarrow> slot \<Rightarrow> bool" where
  "valid_slot names indices (Target n) = (n \<in> names)"
| "valid_slot names indices (Backup i) = (i \<in> indices)"
| "valid_slot names indices (Ready i) = (i \<in> indices)"

text \<open>
  The names of a job lie apart: no target is another or a directory above another, and none
  lies in the reserved directory.
\<close>

definition targets_apart :: "external \<Rightarrow> string set \<Rightarrow> bool" where
  "targets_apart X names \<longleftrightarrow>
     (\<forall>n \<in> names. relative_path_wf n
        \<and> hd (folded_components X n) \<noteq> RESERVED_ROOT_DIRECTORY
        \<and> (\<forall>m \<in> names. m \<noteq> n \<longrightarrow> \<not> below (folded_components X m) (folded_components X n)))"

text \<open>The directories around the slots.\<close>

definition job_dirs :: "external \<Rightarrow> registered_root \<Rightarrow> string \<Rightarrow> string set \<Rightarrow> path set" where
  "job_dirs X root job_id names =
     {root_path X root @ take k (folded_components X n) | n k.
        n \<in> names \<and> 0 < k \<and> k < length (folded_components X n)}
     \<union> {root_path X root @ take k [RESERVED_ROOT_DIRECTORY, ''jobs'', job_id, ''prepared''] | k.
        0 < k \<and> k \<le> 4}
     \<union> {root_path X root @ take k [RESERVED_ROOT_DIRECTORY, ''jobs'', job_id, ''backup''] | k.
        0 < k \<and> k \<le> 4}"

lemma folded_components_not_Nil [simp]: "folded_components X n \<noteq> []"
  by (simp add: folded_components_def)

lemma target_path_folded: "target_path X root n = root_path X root @ folded_components X n"
  by (simp add: target_path_def folded_components_def)

lemmas slot_paths = target_path_folded job_backup_path_def prepared_path_def
  reserved_job_directory_def

lemma word_to_string_inject [simp]: "word_to_string v = word_to_string w \<longleftrightarrow> v = (w :: u32)"
  by (simp add: word_to_string_def word_unat_eq_iff)

lemma targets_apartD:
  assumes "targets_apart X names" and "n \<in> names"
  shows "validate_relative_path n = Ok ()" "hd (folded_components X n) \<noteq> RESERVED_ROOT_DIRECTORY"
    "\<And>m. m \<in> names \<Longrightarrow> m \<noteq> n \<Longrightarrow> \<not> below (folded_components X m) (folded_components X n)"
  using assms by (auto simp: targets_apart_def validate_relative_path_Ok)

lemma slot_path_inject:
  assumes "targets_apart X names" and "valid_slot names indices s" "valid_slot names indices t"
  shows "slot_path X root job_id s = slot_path X root job_id t \<longleftrightarrow> s = t"
proof
  assume eq: "slot_path X root job_id s = slot_path X root job_id t"
  have reserved: "folded_components X n \<noteq> RESERVED_ROOT_DIRECTORY # p" if "n \<in> names" for n p
    using targets_apartD(2) [OF assms(1) that] by (metis list.sel(1))
  show "s = t"
  proof (cases s)
    case (Target n)
    show ?thesis
    proof (cases t)
      case (Target m)
      with eq \<open>s = Target n\<close> assms(2,3) targets_apartD(3) [OF assms(1), of n m] show ?thesis
        by (auto simp: slot_paths)
    qed (use eq Target assms(2) reserved in \<open>auto simp: slot_paths\<close>)
  next
    case (Backup i)
    with eq assms(3) reserved show ?thesis by (cases t) (auto simp: slot_paths dest: sym)
  next
    case (Ready i)
    with eq assms(3) reserved show ?thesis by (cases t) (auto simp: slot_paths dest: sym)
  qed
qed simp

lemma job_dirs_cases [consumes 1]:
  assumes "p \<in> job_dirs X root job_id names"
  obtains
    n k where "n \<in> names" "0 < k" "k < length (folded_components X n)"
      "p = root_path X root @ take k (folded_components X n)"
  | k l where "0 < k" "k \<le> 4" "l = ''prepared'' \<or> l = ''backup''"
      "p = root_path X root @ take k [RESERVED_ROOT_DIRECTORY, ''jobs'', job_id, l]"
  using assms unfolding job_dirs_def by auto

lemma slot_not_dir:
  assumes "targets_apart X names" and "valid_slot names indices s"
  shows "slot_path X root job_id s \<notin> job_dirs X root job_id names"
proof
  assume "slot_path X root job_id s \<in> job_dirs X root job_id names"
  then show False
  proof (cases rule: job_dirs_cases)
    case (1 n k)
    note hd1 = targets_apartD(2) [OF assms(1) 1(1)]
    have first: "hd (take k (folded_components X n)) \<noteq> RESERVED_ROOT_DIRECTORY"
      using hd1 1(2) by simp
    show False
    proof (cases s)
      case (Target m)
      with 1(4) have pre: "folded_components X m = take k (folded_components X n)"
        by (simp add: slot_paths)
      then have "below (folded_components X m) (folded_components X n)"
        by (metis append_take_drop_id below_append)
      moreover have "m \<noteq> n" using pre 1(3) by (metis length_take min.absorb4 nat_neq_iff)
      ultimately show False
        using targets_apartD(3) [OF assms(1) 1(1)] assms(2) Target by auto
    qed (use 1(4) first in \<open>auto simp: slot_paths dest: arg_cong [of _ _ hd]\<close>)
  next
    case (2 k l)
    have len: "length (take k [RESERVED_ROOT_DIRECTORY, ''jobs'', job_id, l]) \<le> 4" by simp
    show False
    proof (cases s)
      case (Target m)
      with 2(4) have "folded_components X m = take k [RESERVED_ROOT_DIRECTORY, ''jobs'', job_id, l]"
        by (simp add: slot_paths)
      then have "hd (folded_components X m) = RESERVED_ROOT_DIRECTORY" using 2(1) by (cases k) auto
      then show False using targets_apartD(2) [OF assms(1)] Target assms(2) by auto
    qed (use 2(4) len in \<open>auto simp: slot_paths dest!: arg_cong [of _ _ length]\<close>)
  qed
qed

lemma slot_below_root: "below (root_path X root) (slot_path X root job_id s)"
  by (cases s) (simp_all add: slot_paths)

lemma dir_below_root: "p \<in> job_dirs X root job_id names \<Longrightarrow> below (root_path X root) p"
  by (auto simp: job_dirs_def)

lemma dir_not_root: "p \<in> job_dirs X root job_id names \<Longrightarrow> p \<noteq> take k (root_path X root)"
proof -
  assume "p \<in> job_dirs X root job_id names"
  then obtain r where "p = root_path X root @ r" "r \<noteq> []"
    unfolding job_dirs_def by (elim UnE CollectE exE conjE) (auto simp: take_eq_Nil)
  then have "length (root_path X root) < length p" by simp
  then show ?thesis by (metis length_take min_le_iff_disj not_le order_refl)
qed

lemma slot_not_root: "slot_path X root job_id s \<noteq> take k (root_path X root)"
proof -
  have "length (root_path X root) < length (slot_path X root job_id s)"
    by (cases s) (simp_all add: slot_paths)
  then show ?thesis by (metis length_take min_le_iff_disj not_le order_refl)
qed

subsection \<open>Disks the platform can work on\<close>

definition absent_or_dir :: "disk \<Rightarrow> path \<Rightarrow> bool" where
  "absent_or_dir d p \<longleftrightarrow> node_at d p = None \<or> is_directory d p"

definition absent_or_safe :: "disk \<Rightarrow> path \<Rightarrow> bool" where
  "absent_or_safe d p \<longleftrightarrow> (case node_at d p of None \<Rightarrow> True | Some n \<Rightarrow> safe_file n)"

definition stored_at :: "disk \<Rightarrow> path \<Rightarrow> stored_file option" where
  "stored_at d p = (case node_at d p of Some (File f) \<Rightarrow> Some f | _ \<Rightarrow> None)"

definition local_own :: "external \<Rightarrow> registered_root \<Rightarrow> path \<Rightarrow> bool" where
  "local_own X root q \<longleftrightarrow> below (root_path X root) q \<or> below q (root_path X root)"

definition local_files ::
  "external \<Rightarrow> registered_root \<Rightarrow> string \<Rightarrow> string set \<Rightarrow> u32 set \<Rightarrow> disk \<Rightarrow> job_files"
where
  "local_files X root job_id names indices d =
     (let slot_file = (\<lambda>s. if valid_slot names indices s
        then stored_at d (slot_path X root job_id s) else None) in
      \<lparr>target_files = (\<lambda>n. slot_file (Target n)), backup_files = (\<lambda>i. slot_file (Backup i)),
       prepared_files = (\<lambda>i. slot_file (Ready i))\<rparr>)"

definition local_static ::
  "external \<Rightarrow> registered_root \<Rightarrow> string \<Rightarrow> path \<Rightarrow> string set \<Rightarrow> bool"
where
  "local_static X root job_id job_dir names \<longleftrightarrow>
     targets_apart X names \<and> valid_internal_job_id job_id
     \<and> job_dir = parent job_dir @ [job_id]
     \<and> \<not> below (parent job_dir) (root_path X root) \<and> \<not> below (root_path X root) (parent job_dir)"

definition local_sane ::
  "external \<Rightarrow> registered_root \<Rightarrow> string \<Rightarrow> path \<Rightarrow> string set \<Rightarrow> u32 set \<Rightarrow> disk \<Rightarrow> bool"
where
  "local_sane X root job_id job_dir names indices d \<longleftrightarrow>
     local_static X root job_id job_dir names
     \<and> \<not> crosses_reparse d (root_path X root)
     \<and> node_at d (root_path X root) = Some (Directory (root_identity root))
     \<and> (\<forall>p \<in> job_dirs X root job_id names. absent_or_dir d p)
     \<and> (\<forall>s. valid_slot names indices s \<longrightarrow> absent_or_safe d (slot_path X root job_id s))"

lemma stored_at_upd [simp]:
  "stored_at (fmupd p n d) q = (if q = p then (case n of File f \<Rightarrow> Some f | _ \<Rightarrow> None) else stored_at d q)"
  "stored_at (fmdrop p d) q = (if q = p then None else stored_at d q)"
  by (auto simp: stored_at_def)

lemma local_files_cong:
  assumes "\<And>s. valid_slot names indices s \<Longrightarrow>
      node_at d' (slot_path X root job_id s) = node_at d (slot_path X root job_id s)"
  shows "local_files X root job_id names indices d' = local_files X root job_id names indices d"
proof -
  have "stored_at d' (slot_path X root job_id s) = stored_at d (slot_path X root job_id s)"
    if "valid_slot names indices s" for s
    using assms [OF that] by (simp add: stored_at_def)
  from this [of "Target _"] this [of "Backup _"] this [of "Ready _"] show ?thesis
    by (auto simp: local_files_def Let_def fun_eq_iff simp del: slot_path.simps)
qed

lemma crosses_same:
  assumes "\<And>k. node_at d' (take k p) = node_at d (take k p)"
  shows "crosses_reparse d' p = crosses_reparse d p"
  by (simp add: crosses_reparse_def assms)

lemma local_sane_static:
  "local_sane X root job_id job_dir names indices d \<Longrightarrow> local_static X root job_id job_dir names"
  by (simp add: local_sane_def)

text \<open>Nothing outside the root and the directories above it matters.\<close>

lemma local_depends:
  assumes sane: "local_sane X root job_id job_dir names indices d"
    and same: "\<forall>q. local_own X root q \<longrightarrow> node_at d' q = node_at d q"
  shows "local_sane X root job_id job_dir names indices d'"
    and "local_files X root job_id names indices d' = local_files X root job_id names indices d"
proof -
  have prefix: "node_at d' (take k (root_path X root)) = node_at d (take k (root_path X root))" for k
    using same by (metis append_take_drop_id below_append local_own_def)
  have slot: "node_at d' (slot_path X root job_id s) = node_at d (slot_path X root job_id s)" for s
    using same slot_below_root local_own_def by blast
  have dir: "node_at d' p = node_at d p" if "p \<in> job_dirs X root job_id names" for p
    using same dir_below_root [OF that] local_own_def by blast
  have root: "node_at d' (root_path X root) = node_at d (root_path X root)"
    using prefix [of "length (root_path X root)"] by simp
  show "local_sane X root job_id job_dir names indices d'"
    using sane slot dir root crosses_same [OF prefix]
    by (simp add: local_sane_def absent_or_dir_def absent_or_safe_def is_directory_def)
  show "local_files X root job_id names indices d' = local_files X root job_id names indices d"
    by (rule local_files_cong) (rule slot)
qed

text \<open>Creating directories around the slots.\<close>

definition more_dirs :: "path set \<Rightarrow> disk \<Rightarrow> disk \<Rightarrow> bool" where
  "more_dirs P d d' \<longleftrightarrow> (\<forall>q. node_at d' q = node_at d q
     \<or> (q \<in> P \<and> node_at d q = None \<and> is_directory d' q))"

lemma more_dirs_refl [simp]: "more_dirs P d d"
  by (simp add: more_dirs_def)

lemma more_dirs_trans: "more_dirs P d d1 \<Longrightarrow> more_dirs P d1 d2 \<Longrightarrow> more_dirs P d d2"
  unfolding more_dirs_def is_directory_def by metis

lemma more_dirs_mono: "more_dirs P d d' \<Longrightarrow> P \<subseteq> P' \<Longrightarrow> more_dirs P' d d'"
  unfolding more_dirs_def by blast

lemma more_dirs_is_directory: "more_dirs P d d' \<Longrightarrow> is_directory d p \<Longrightarrow> is_directory d' p"
  unfolding more_dirs_def is_directory_def by (metis option.simps(4))

lemma more_dirs_sane:
  assumes sane: "local_sane X root job_id job_dir names indices d"
    and more: "more_dirs (job_dirs X root job_id names) d d'"
  shows "local_sane X root job_id job_dir names indices d'"
    and "local_files X root job_id names indices d' = local_files X root job_id names indices d"
    and "\<forall>q. \<not> local_own X root q \<longrightarrow> node_at d' q = node_at d q"
proof -
  have apart: "targets_apart X names" using sane by (simp add: local_sane_def local_static_def)
  have slot: "node_at d' (slot_path X root job_id s) = node_at d (slot_path X root job_id s)"
    if "valid_slot names indices s" for s
    using more slot_not_dir [OF apart that] unfolding more_dirs_def by metis
  have prefix: "node_at d' (take k (root_path X root)) = node_at d (take k (root_path X root))" for k
    using more dir_not_root unfolding more_dirs_def by metis
  have dir: "absent_or_dir d' p" if "absent_or_dir d p" for p
    using more that unfolding more_dirs_def absent_or_dir_def is_directory_def by metis
  have root: "node_at d' (root_path X root) = node_at d (root_path X root)"
    using prefix [of "length (root_path X root)"] by simp
  show "local_sane X root job_id job_dir names indices d'"
    using sane slot dir root crosses_same [OF prefix]
    by (simp add: local_sane_def absent_or_safe_def)
  show "local_files X root job_id names indices d' = local_files X root job_id names indices d"
    by (rule local_files_cong) (rule slot)
  show "\<forall>q. \<not> local_own X root q \<longrightarrow> node_at d' q = node_at d q"
    using more dir_below_root unfolding more_dirs_def local_own_def by metis
qed

text \<open>Changing slots only.\<close>

lemma slots_sane:
  assumes sane: "local_sane X root job_id job_dir names indices d"
    and same: "\<And>q. (\<And>s. valid_slot names indices s \<Longrightarrow> q \<noteq> slot_path X root job_id s) \<Longrightarrow>
      node_at d' q = node_at d q"
    and safe: "\<And>s. valid_slot names indices s \<Longrightarrow> absent_or_safe d' (slot_path X root job_id s)"
  shows "local_sane X root job_id job_dir names indices d'"
    and "\<forall>q. \<not> local_own X root q \<longrightarrow> node_at d' q = node_at d q"
proof -
  have apart: "targets_apart X names" using sane by (simp add: local_sane_def local_static_def)
  have prefix: "node_at d' (take k (root_path X root)) = node_at d (take k (root_path X root))" for k
    by (rule same) (metis slot_not_root)
  have dir: "node_at d' p = node_at d p" if "p \<in> job_dirs X root job_id names" for p
    by (rule same) (use that slot_not_dir [OF apart] in blast)
  have root: "node_at d' (root_path X root) = node_at d (root_path X root)"
    using prefix [of "length (root_path X root)"] by simp
  show "local_sane X root job_id job_dir names indices d'"
    using sane safe dir root crosses_same [OF prefix]
    by (simp add: local_sane_def absent_or_dir_def is_directory_def)
  show "\<forall>q. \<not> local_own X root q \<longrightarrow> node_at d' q = node_at d q"
    using same slot_below_root unfolding local_own_def by metis
qed

fun slot_file :: "job_files \<Rightarrow> slot \<Rightarrow> stored_file option" where
  "slot_file F (Target n) = target_files F n"
| "slot_file F (Backup i) = backup_files F i"
| "slot_file F (Ready i) = prepared_files F i"

lemma job_files_eqI: "(\<And>s. slot_file F s = slot_file G s) \<Longrightarrow> F = G" for F G :: job_files
proof -
  assume eq: "\<And>s. slot_file F s = slot_file G s"
  have "target_files F = target_files G" "backup_files F = backup_files G"
    "prepared_files F = prepared_files G"
    using eq [of "Target _"] eq [of "Backup _"] eq [of "Ready _"] by (auto simp: fun_eq_iff)
  then show "F = G" by simp
qed

lemma slot_file_local [simp]:
  "slot_file (local_files X root job_id names indices d) s =
     (if valid_slot names indices s then stored_at d (slot_path X root job_id s) else None)"
  by (cases s) (simp_all add: local_files_def)

lemma stored_safe:
  "absent_or_safe d p \<Longrightarrow> node_at d p = (case stored_at d p of None \<Rightarrow> None | Some f \<Rightarrow> Some (File f))"
  by (auto simp: absent_or_safe_def stored_at_def split: option.splits node.splits elim: safe_file.elims)

lemma stored_single: "absent_or_safe d p \<Longrightarrow> stored_at d p = Some f \<Longrightarrow> \<not> multiple_links f"
  by (auto simp: absent_or_safe_def stored_at_def split: option.splits node.splits)

lemma sane_slot:
  assumes "local_sane X root job_id job_dir names indices d" and "valid_slot names indices s"
  shows "absent_or_safe d (slot_path X root job_id s)"
    and "node_at d (slot_path X root job_id s) =
      (case slot_file (local_files X root job_id names indices d) s of
         None \<Rightarrow> None | Some f \<Rightarrow> Some (File f))"
  using assms stored_safe [of d "slot_path X root job_id s"] by (simp_all add: local_sane_def)

lemma move_slot:
  assumes sane: "local_sane X root job_id job_dir names indices d"
    and slots: "valid_slot names indices s" "valid_slot names indices t" "s \<noteq> t"
    and here: "slot_file (local_files X root job_id names indices d) s = Some f"
    and dest: "is_directory d (parent (slot_path X root job_id t))"
  defines "d' \<equiv> fmupd (slot_path X root job_id t) (File f) (fmdrop (slot_path X root job_id s) d)"
  shows "rename_node (slot_path X root job_id s) (slot_path X root job_id t) d = Inr d'"
    and "local_sane X root job_id job_dir names indices d'"
    and "\<forall>q. \<not> local_own X root q \<longrightarrow> node_at d' q = node_at d q"
    and "slot_file (local_files X root job_id names indices d') u =
      (if u = t then Some f else if u = s then None
       else slot_file (local_files X root job_id names indices d) u)"
proof -
  have apart: "targets_apart X names" using sane by (simp add: local_sane_def local_static_def)
  note inj = slot_path_inject [OF apart, of indices]
  have there: "node_at d (slot_path X root job_id s) = Some (File f)"
    using sane_slot(2) [OF sane slots(1)] here by simp
  have single: "\<not> multiple_links f"
    using sane_slot(1) [OF sane slots(1)] there by (simp add: absent_or_safe_def)
  have "\<not> is_directory d (slot_path X root job_id t)"
    using sane_slot(1) [OF sane slots(2)]
    by (auto simp: absent_or_safe_def is_directory_iff)
  with there dest show "rename_node (slot_path X root job_id s) (slot_path X root job_id t) d = Inr d'"
    by (simp add: rename_node_def d'_def)
  have safe: "absent_or_safe d' (slot_path X root job_id u)" if "valid_slot names indices u" for u
    using sane_slot(1) [OF sane that] single by (auto simp: absent_or_safe_def d'_def)
  have same: "node_at d' q = node_at d q"
    if "\<And>s. valid_slot names indices s \<Longrightarrow> q \<noteq> slot_path X root job_id s" for q
    using that slots(1,2) by (auto simp: d'_def)
  from slots_sane [OF sane same safe] show "local_sane X root job_id job_dir names indices d'"
    "\<forall>q. \<not> local_own X root q \<longrightarrow> node_at d' q = node_at d q" by blast+
  show "slot_file (local_files X root job_id names indices d') u =
      (if u = t then Some f else if u = s then None
       else slot_file (local_files X root job_id names indices d) u)"
    using inj [OF _ slots(1)] inj [OF _ slots(2)] slots
    by (cases "valid_slot names indices u") (auto simp: d'_def)
qed

lemma drop_slot:
  assumes sane: "local_sane X root job_id job_dir names indices d" and slot: "valid_slot names indices s"
  defines "d' \<equiv> fmdrop (slot_path X root job_id s) d"
  shows "local_sane X root job_id job_dir names indices d'"
    and "\<forall>q. \<not> local_own X root q \<longrightarrow> node_at d' q = node_at d q"
    and "slot_file (local_files X root job_id names indices d') u =
      (if u = s then None else slot_file (local_files X root job_id names indices d) u)"
proof -
  have apart: "targets_apart X names" using sane by (simp add: local_sane_def local_static_def)
  have safe: "absent_or_safe d' (slot_path X root job_id u)" if "valid_slot names indices u" for u
    using sane_slot(1) [OF sane that] by (auto simp: absent_or_safe_def d'_def)
  have same: "node_at d' q = node_at d q"
    if "\<And>s. valid_slot names indices s \<Longrightarrow> q \<noteq> slot_path X root job_id s" for q
    using that slot by (auto simp: d'_def)
  from slots_sane [OF sane same safe] show "local_sane X root job_id job_dir names indices d'"
    "\<forall>q. \<not> local_own X root q \<longrightarrow> node_at d' q = node_at d q" by blast+
  show "slot_file (local_files X root job_id names indices d') u =
      (if u = s then None else slot_file (local_files X root job_id names indices d) u)"
    using slot_path_inject [OF apart _ slot]
    by (cases "valid_slot names indices u") (auto simp: d'_def)
qed

subsection \<open>The walks\<close>

lemma check_descent_wp:
  "(\<And>k. 0 < k \<Longrightarrow> k \<le> length xs \<Longrightarrow> node_at d (current @ take k xs) \<noteq> Some Reparse) \<Longrightarrow>
    wp M (check_descent current c xs)
      (\<lambda>r d'. d' = d \<and> (if is_ok r then r = Ok () else fails M)) (\<lambda>d'. d' = d) d"
proof (induction xs arbitrary: current)
  case (Cons x xs)
  have "node_at d (current @ [x]) \<noteq> Some Reparse" using Cons.prems [of 1] by simp
  moreover have "wp M (check_descent (current @ [x]) c xs)
      (\<lambda>r d'. d' = d \<and> (if is_ok r then r = Ok () else fails M)) (\<lambda>d'. d' = d) d"
  proof (rule Cons.IH)
    fix k assume "0 < k" "k \<le> length xs"
    then show "node_at d ((current @ [x]) @ take k xs) \<noteq> Some Reparse"
      using Cons.prems [of "Suc k"] by simp
  qed
  ultimately show ?case
    by (auto intro!: wp_bind wp_metadata wp_return split: option.splits node.splits)
qed (auto intro: wp_return)

lemma absent_or_dir_not_file: "absent_or_dir d p \<Longrightarrow> node_at d p \<noteq> Some Reparse"
  by (auto simp: absent_or_dir_def is_directory_iff)

lemma absent_or_safe_not_reparse: "absent_or_safe d p \<Longrightarrow> node_at d p \<noteq> Some Reparse"
  by (auto simp: absent_or_safe_def)

lemma target_walk:
  assumes sane: "local_sane X root job_id job_dir names indices d" and n: "n \<in> names"
    and k: "0 < k" "k \<le> length (folded_components X n)"
  shows "node_at d (root_path X root @ take k (folded_components X n)) \<noteq> Some Reparse"
proof (cases "k = length (folded_components X n)")
  case True
  have "absent_or_safe d (slot_path X root job_id (Target n))"
    by (rule sane_slot(1) [OF sane]) (use n in simp)
  then show ?thesis using True by (simp add: target_path_folded absent_or_safe_not_reparse)
next
  case False
  then have "root_path X root @ take k (folded_components X n) \<in> job_dirs X root job_id names"
    using n k unfolding job_dirs_def by (intro UnI1) force
  then show ?thesis using sane by (simp add: local_sane_def absent_or_dir_not_file)
qed

lemma inspect_target_wp:
  assumes sane: "local_sane X root job_id job_dir names indices d" and n: "n \<in> names"
  shows "wp M (local_inspect_target X root n)
    (\<lambda>r d'. d' = d \<and> (if is_ok r
       then r = Ok (map_option (\<lambda>f. node_snapshot (File f))
         (target_files (local_files X root job_id names indices d) n))
       else fails M)) (\<lambda>d'. d' = d) d"
proof -
  let ?p = "target_path X root n"
  have ok: "validate_relative_path n = Ok ()"
    using sane targets_apartD(1) [of X names, OF _ n] by (simp add: local_sane_def local_static_def)
  have descend: "wp M (checked_descendant X (root_path X root) n RootIdentity)
      (\<lambda>r d'. d' = d \<and> (if is_ok r then r = Ok ?p else fails M)) (\<lambda>d'. d' = d) d"
  proof -
    have "wp M (check_descent (root_path X root) RootIdentity (folded_components X n))
        (\<lambda>r d'. d' = d \<and> (if is_ok r then r = Ok () else fails M)) (\<lambda>d'. d' = d) d"
      by (rule check_descent_wp) (rule target_walk [OF sane n])
    then have "wp M (io_then (check_descent (root_path X root) RootIdentity (folded_components X n))
        (\<lambda>_. io_return (Ok (root_path X root @ folded_components X n))))
        (\<lambda>r d'. d' = d \<and> (if is_ok r then r = Ok ?p else fails M)) (\<lambda>d'. d' = d) d"
      by (rule wp_ask) (auto intro: wp_return simp: target_path_folded)
    then show ?thesis
      by (simp add: checked_descendant_def Let_def ok io_simps folded_components_def)
  qed
  have safe: "absent_or_safe d ?p"
    and at: "node_at d ?p = (case target_files (local_files X root job_id names indices d) n of
      None \<Rightarrow> None | Some f \<Rightarrow> Some (File f))"
    using sane_slot [OF sane, of "Target n"] n by (simp_all add: local_files_def)
  show ?thesis
    unfolding local_inspect_target_def ok io_simps
  proof (rule wp_ask [OF descend])
    show "wp M (io_bind (fs_metadata ?p) (\<lambda>r. case r of
        Inl NotFound \<Rightarrow> io_return (Ok None)
      | Inl _ \<Rightarrow> io_return (Err RootIdentity ''target metadata cannot be inspected'')
      | Inr n \<Rightarrow>
          io_then (lift_result (validate_regular_file_metadata n RootIdentity)) (\<lambda>_.
          io_return (Ok (Some (node_snapshot n))))))
      (\<lambda>r d'. d' = d \<and> (if is_ok r
       then r = Ok (map_option (\<lambda>f. node_snapshot (File f))
         (target_files (local_files X root job_id names indices d) n))
       else fails M)) (\<lambda>d'. d' = d) d"
      using at safe
      by (intro wp_bind wp_metadata)
        (auto simp: validate_regular_file_metadata_def absent_or_safe_def io_simps
          split: option.splits intro!: wp_return)
  qed simp_all
qed

lemma ensure_directories_wp:
  assumes "is_directory d current"
    and "\<And>k. 0 < k \<Longrightarrow> k \<le> length xs \<Longrightarrow> current @ take k xs \<in> P"
    and "\<And>k. 0 < k \<Longrightarrow> k \<le> length xs \<Longrightarrow> absent_or_dir d (current @ take k xs)"
  shows "wp M (ensure_directories recheck err current xs)
    (\<lambda>r d'. more_dirs P d d' \<and> (if is_ok r then r = Ok () \<and> is_directory d' (current @ xs) else fails M))
    (more_dirs P d) d"
  using assms
proof (induction xs arbitrary: current d)
  case Nil
  then show ?case by (auto intro: wp_return)
next
  case (Cons x xs)
  let ?Q = "\<lambda>r d'. more_dirs P d d'
    \<and> (if is_ok r then r = Ok () \<and> is_directory d' (current @ x # xs) else fails M)"
  have rest: "wp M (ensure_directories recheck err (current @ [x]) xs) ?Q (more_dirs P d) d1"
    if d1: "is_directory d1 (current @ [x])" "more_dirs P d d1"
      "\<And>p. absent_or_dir d p \<Longrightarrow> absent_or_dir d1 p" for d1
  proof (rule wp_conseq [OF Cons.IH])
    fix k assume k: "0 < k" "k \<le> length xs"
    show "(current @ [x]) @ take k xs \<in> P" using Cons.prems(2) [of "Suc k"] k by simp
    show "absent_or_dir d1 ((current @ [x]) @ take k xs)"
      using Cons.prems(3) [of "Suc k"] k d1(3) by simp
  qed (use d1 more_dirs_trans in auto)
  have here: "current @ [x] \<in> P" "absent_or_dir d (current @ [x])"
    using Cons.prems(2,3) [of 1] by auto
  let ?next = "ensure_directories recheck err (current @ [x]) xs"
  have create: "wp M (io_then (io_err transaction_io (fs_create_dir (current @ [x]))) (\<lambda>_.
      if recheck
      then io_then (io_err transaction_io (fs_metadata (current @ [x]))) (\<lambda>n.
        if \<not> is_dir_node n
        then io_return (Err RootIdentity ''created transaction directory changed identity'')
        else ?next)
      else ?next)) ?Q (more_dirs P d) d"
    if none: "node_at d (current @ [x]) = None"
  proof -
    have made: "more_dirs P d (fmupd (current @ [x]) (Directory i) d)"
      "wp M ?next ?Q (more_dirs P d) (fmupd (current @ [x]) (Directory i) d)" for i
    proof -
      show "more_dirs P d (fmupd (current @ [x]) (Directory i) d)"
        using none here(1) by (auto simp: more_dirs_def)
      then show "wp M ?next ?Q (more_dirs P d) (fmupd (current @ [x]) (Directory i) d)"
        by (rule rest [rotated]) (auto simp: absent_or_dir_def)
    qed
    show ?thesis
      unfolding io_err_def
      by (cases recheck; intro wp_then wp_map_err wp_create_dir;
        use none made Cons.prems(1) in \<open>auto simp: parent_def split del: if_split
          intro!: wp_then wp_map_err wp_metadata\<close>)
  qed
  have "wp M (io_bind (fs_metadata (current @ [x])) (\<lambda>r. case r of
       Inr n \<Rightarrow>
         if \<not> is_dir_node n then io_return (Inl (err ''contains an unsafe component'')) else ?next
     | Inl NotFound \<Rightarrow>
         io_then (io_err transaction_io (fs_create_dir (current @ [x]))) (\<lambda>_.
         if recheck
         then io_then (io_err transaction_io (fs_metadata (current @ [x]))) (\<lambda>n.
           if \<not> is_dir_node n
           then io_return (Err RootIdentity ''created transaction directory changed identity'')
           else ?next)
         else ?next)
     | Inl _ \<Rightarrow> io_return (Inl (err ''cannot be inspected'')))) ?Q (more_dirs P d) d"
  proof (rule wp_bind, rule wp_metadata)
    show "fails M \<Longrightarrow> wp M (case Inl Other of
       Inr n \<Rightarrow>
         if \<not> is_dir_node n then io_return (Inl (err ''contains an unsafe component'')) else ?next
     | Inl NotFound \<Rightarrow>
         io_then (io_err transaction_io (fs_create_dir (current @ [x]))) (\<lambda>_.
         if recheck
         then io_then (io_err transaction_io (fs_metadata (current @ [x]))) (\<lambda>n.
           if \<not> is_dir_node n
           then io_return (Err RootIdentity ''created transaction directory changed identity'')
           else ?next)
         else ?next)
     | Inl _ \<Rightarrow> io_return (Inl (err ''cannot be inspected''))) ?Q (more_dirs P d) d"
      by (auto intro: wp_return)
  next
    show "wp M (case (case node_at d (current @ [x]) of None \<Rightarrow> Inl NotFound | Some n \<Rightarrow> Inr n) of
       Inr n \<Rightarrow>
         if \<not> is_dir_node n then io_return (Inl (err ''contains an unsafe component'')) else ?next
     | Inl NotFound \<Rightarrow>
         io_then (io_err transaction_io (fs_create_dir (current @ [x]))) (\<lambda>_.
         if recheck
         then io_then (io_err transaction_io (fs_metadata (current @ [x]))) (\<lambda>n.
           if \<not> is_dir_node n
           then io_return (Err RootIdentity ''created transaction directory changed identity'')
           else ?next)
         else ?next)
     | Inl _ \<Rightarrow> io_return (Inl (err ''cannot be inspected''))) ?Q (more_dirs P d) d"
    proof (cases "node_at d (current @ [x])")
      case None
      with create show ?thesis by simp
    next
      case (Some n)
      with here(2) have "is_dir_node n" "is_directory d (current @ [x])"
        by (auto simp: absent_or_dir_def is_directory_def)
      with Some rest [of d] show ?thesis by simp
    qed
  qed simp
  then show ?case by simp
qed

subsection \<open>The operations\<close>

lemma local_sane_facts:
  assumes "local_sane X root job_id job_dir names indices d"
  shows "targets_apart X names" "valid_internal_job_id job_id" "job_dir = parent job_dir @ [job_id]"
    "\<not> below (parent job_dir) (root_path X root)" "\<not> below (root_path X root) (parent job_dir)"
    "\<not> crosses_reparse d (root_path X root)"
    "node_at d (root_path X root) = Some (Directory (root_identity root))"
    "\<And>p. p \<in> job_dirs X root job_id names \<Longrightarrow> absent_or_dir d p"
  using assms by (simp_all add: local_sane_def local_static_def)

lemma verify_root_wp:
  assumes "local_sane X root job_id job_dir names indices d"
  shows "wp M (local_verify_root_identity X root)
    (\<lambda>r d'. d' = d \<and> (if is_ok r then r = Ok () else fails M)) (\<lambda>d'. d' = d) d"
  unfolding local_verify_root_identity_def io_err_def root_path_def [symmetric]
  by (intro wp_then wp_map_err wp_canonicalize)
    (use local_sane_facts(6,7) [OF assms] in \<open>auto simp: root_path_def
      intro!: wp_then wp_map_err wp_metadata wp_return\<close>)

lemma target_exists_wp:
  assumes "local_sane X root job_id job_dir names indices d" and "n \<in> names"
  shows "wp M (local_target_exists X root n)
    (\<lambda>r d'. d' = d \<and> (if is_ok r
       then r = Ok (target_files (local_files X root job_id names indices d) n \<noteq> None)
       else fails M)) (\<lambda>d'. d' = d) d"
  unfolding local_target_exists_def
  by (rule wp_ask [OF inspect_target_wp [OF assms]]) (auto intro: wp_return)

lemma reserved_dirs:
  assumes "0 < k" "k \<le> 4" and "l = ''prepared'' \<or> l = ''backup''"
  shows "root_path X root @ take k [RESERVED_ROOT_DIRECTORY, ''jobs'', job_id, l]
    \<in> job_dirs X root job_id names"
  using assms unfolding job_dirs_def by blast

lemma validate_directories_wp:
  "(\<And>k. 0 < k \<Longrightarrow> k \<le> length xs \<Longrightarrow> absent_or_dir d (current @ take k xs)) \<Longrightarrow>
    wp M (validate_directories current xs)
      (\<lambda>r d'. d' = d \<and> (if is_ok r then r = Ok () else fails M)) (\<lambda>d'. d' = d) d"
proof (induction xs arbitrary: current)
  case (Cons x xs)
  have here: "absent_or_dir d (current @ [x])" using Cons.prems [of 1] by simp
  have "wp M (validate_directories (current @ [x]) xs)
      (\<lambda>r d'. d' = d \<and> (if is_ok r then r = Ok () else fails M)) (\<lambda>d'. d' = d) d"
  proof (rule Cons.IH)
    fix k assume "0 < k" "k \<le> length xs"
    then show "absent_or_dir d ((current @ [x]) @ take k xs)" using Cons.prems [of "Suc k"] by simp
  qed
  with here show ?case
    by (auto simp: absent_or_dir_def is_directory_def intro!: wp_bind wp_metadata wp_return
        split: option.splits)
qed (auto intro: wp_return)

lemma validate_reserved_wp:
  assumes "local_sane X root job_id job_dir names indices d"
  shows "wp M (validate_reserved_job_directory X root job_id)
    (\<lambda>r d'. d' = d \<and> (if is_ok r then r = Ok () else fails M)) (\<lambda>d'. d' = d) d"
proof -
  note facts = local_sane_facts [OF assms]
  have "wp M (validate_directories (root_path X root) [RESERVED_ROOT_DIRECTORY, ''jobs'', job_id])
    (\<lambda>r d'. d' = d \<and> (if is_ok r then r = Ok () else fails M)) (\<lambda>d'. d' = d) d"
  proof (rule validate_directories_wp)
    fix k assume k: "0 < k" "k \<le> length [RESERVED_ROOT_DIRECTORY, ''jobs'', job_id]"
    then have "take k [RESERVED_ROOT_DIRECTORY, ''jobs'', job_id]
        = take k [RESERVED_ROOT_DIRECTORY, ''jobs'', job_id, ''backup'']"
      by (auto simp: take_Cons split: nat.splits)
    with k show "absent_or_dir d (root_path X root @ take k [RESERVED_ROOT_DIRECTORY, ''jobs'', job_id])"
      by (simp only:) (intro facts(8) reserved_dirs, simp_all)
  qed
  then show ?thesis using facts(2) by (simp add: validate_reserved_job_directory_def)
qed

lemma backup_exists_wp:
  assumes "local_sane X root job_id job_dir names indices d" and "i \<in> indices"
  shows "wp M (local_backup_exists X root job_id i)
    (\<lambda>r d'. d' = d \<and> (if is_ok r
       then r = Ok (backup_files (local_files X root job_id names indices d) i \<noteq> None)
       else fails M)) (\<lambda>d'. d' = d) d"
proof -
  have safe: "absent_or_safe d (job_backup_path X root job_id i)"
    and at: "node_at d (job_backup_path X root job_id i)
      = (case backup_files (local_files X root job_id names indices d) i of
          None \<Rightarrow> None | Some f \<Rightarrow> Some (File f))"
    using sane_slot [OF assms(1), of "Backup i"] assms(2) by (simp_all add: local_files_def)
  show ?thesis
    unfolding local_backup_exists_def
  proof (rule wp_ask [OF validate_reserved_wp [OF assms(1)]], goal_cases)
    case 1
    show ?case
      using at safe
      by (intro wp_bind wp_metadata)
        (auto simp: validate_regular_file_metadata_def absent_or_safe_def io_simps
          split: option.splits intro!: wp_return)
  qed simp_all
qed

text \<open>The reserved leaf directory and the parents of a target.\<close>

lemma walk_then_path:
  assumes "wp M m
      (\<lambda>r d'. more_dirs P d d' \<and> (if is_ok r then r = Ok () \<and> is_directory d' p else fails M))
      (more_dirs P d) d"
  shows "wp M (io_then m (\<lambda>_. io_return (Ok v)))
      (\<lambda>r d'. more_dirs P d d' \<and> (if is_ok r then r = Ok v \<and> is_directory d' p else fails M))
      (more_dirs P d) d"
proof (rule wp_then, rule wp_conseq [OF assms], goal_cases)
  case (1 r d')
  then show ?case by (cases r) (auto intro: wp_return)
qed simp

lemma reserved_leaf_wp:
  assumes sane: "local_sane X root job_id job_dir names indices d"
    and l: "l = ''prepared'' \<or> l = ''backup''"
  shows "wp M (ensure_reserved_leaf_directory X root job_id l)
    (\<lambda>r d'. more_dirs (job_dirs X root job_id names) d d'
       \<and> (if is_ok r then r = Ok (reserved_job_directory X root job_id @ [l])
             \<and> is_directory d' (reserved_job_directory X root job_id @ [l])
          else fails M))
    (more_dirs (job_dirs X root job_id names) d) d"
proof -
  note facts = local_sane_facts [OF sane]
  let ?walk = "ensure_directories True
    (\<lambda>what. maintenance_error_new RootIdentity (''reserved transaction path '' @ what))
    (root_path X root) [RESERVED_ROOT_DIRECTORY, ''jobs'', job_id, l]"
  have path: "root_path X root @ [RESERVED_ROOT_DIRECTORY, ''jobs'', job_id, l]
      = reserved_job_directory X root job_id @ [l]"
    by (simp add: reserved_job_directory_def)
  have root: "is_directory d (root_path X root)" by (simp add: is_directory_iff facts(7))
  have walk: "wp M ?walk
    (\<lambda>r d'. more_dirs (job_dirs X root job_id names) d d'
      \<and> (if is_ok r then r = Ok ()
           \<and> is_directory d' (root_path X root @ [RESERVED_ROOT_DIRECTORY, ''jobs'', job_id, l])
         else fails M))
    (more_dirs (job_dirs X root job_id names) d) d"
  proof (rule ensure_directories_wp [OF root])
    fix k assume "0 < k" "k \<le> length [RESERVED_ROOT_DIRECTORY, ''jobs'', job_id, l]"
    then have "0 < k" "k \<le> 4" by simp_all
    then show "root_path X root @ take k [RESERVED_ROOT_DIRECTORY, ''jobs'', job_id, l]
        \<in> job_dirs X root job_id names"
      by (rule reserved_dirs [OF _ _ l])
    then show "absent_or_dir d (root_path X root @ take k [RESERVED_ROOT_DIRECTORY, ''jobs'', job_id, l])"
      by (rule facts(8))
  qed
  have ok: "\<not> (\<not> valid_internal_job_id job_id \<or> l \<notin> {''prepared'', ''backup''})"
    using facts(2) l by blast
  show ?thesis
    unfolding ensure_reserved_leaf_directory_def if_not_P [OF ok]
    by (rule walk_then_path) (rule walk [unfolded path])
qed

lemma target_parent_wp:
  assumes sane: "local_sane X root job_id job_dir names indices d" and n: "n \<in> names"
  shows "wp M (ensure_target_parent X root n)
    (\<lambda>r d'. more_dirs (job_dirs X root job_id names) d d'
       \<and> (if is_ok r then r = Ok (parent (target_path X root n))
             \<and> is_directory d' (parent (target_path X root n)) else fails M))
    (more_dirs (job_dirs X root job_id names) d) d"
proof -
  note facts = local_sane_facts [OF sane]
  let ?cs = "folded_components X n"
  let ?walk = "ensure_directories False
    (\<lambda>what. maintenance_error_new RootIdentity (''target parent '' @ what))
    (root_path X root) (butlast ?cs)"
  have root: "is_directory d (root_path X root)" by (simp add: is_directory_iff facts(7))
  have parent_eq: "parent (target_path X root n) = root_path X root @ butlast ?cs"
    by (simp add: target_path_folded parent_def butlast_append)
  have walk: "wp M ?walk
    (\<lambda>r d'. more_dirs (job_dirs X root job_id names) d d'
      \<and> (if is_ok r then r = Ok () \<and> is_directory d' (root_path X root @ butlast ?cs) else fails M))
    (more_dirs (job_dirs X root job_id names) d) d"
  proof (rule ensure_directories_wp [OF root])
    fix k assume k: "0 < k" "k \<le> length (butlast ?cs)"
    then have "take k (butlast ?cs) = take k ?cs" by (simp add: take_butlast)
    moreover have "k < length ?cs" using k by (cases ?cs rule: rev_cases) auto
    ultimately show "root_path X root @ take k (butlast ?cs) \<in> job_dirs X root job_id names"
      using n k unfolding job_dirs_def by (intro UnI1) force
    then show "absent_or_dir d (root_path X root @ take k (butlast ?cs))" by (rule facts(8))
  qed
  show ?thesis
    unfolding ensure_target_parent_def Let_def targets_apartD(1) [OF facts(1) n] io_simps
      folded_components_def [symmetric] parent_eq
    by (rule walk_then_path [OF walk])
qed

subsection \<open>The renames\<close>

definition local_keeps ::
  "external \<Rightarrow> registered_root \<Rightarrow> string \<Rightarrow> path \<Rightarrow> string set \<Rightarrow> u32 set \<Rightarrow> disk \<Rightarrow> job_files \<Rightarrow> disk \<Rightarrow> bool"
where
  "local_keeps X root job_id job_dir names indices d F d' \<longleftrightarrow>
     local_sane X root job_id job_dir names indices d'
     \<and> (\<forall>q. \<not> local_own X root q \<longrightarrow> node_at d' q = node_at d q)
     \<and> local_files X root job_id names indices d' = F"

lemma keeps_more_dirs:
  assumes "local_sane X root job_id job_dir names indices d"
    and "more_dirs (job_dirs X root job_id names) d d'"
  shows "local_keeps X root job_id job_dir names indices d
    (local_files X root job_id names indices d) d'"
  using more_dirs_sane [OF assms] by (simp add: local_keeps_def)

lemma keeps_refl:
  "local_sane X root job_id job_dir names indices d \<Longrightarrow>
   local_keeps X root job_id job_dir names indices d (local_files X root job_id names indices d) d"
  by (simp add: local_keeps_def)

lemma keeps_trans:
  "local_keeps X root job_id job_dir names indices d F d1 \<Longrightarrow>
   local_keeps X root job_id job_dir names indices d1 G d2 \<Longrightarrow>
   local_keeps X root job_id job_dir names indices d G d2"
  by (simp add: local_keeps_def)

text \<open>One file moved from a slot to another.\<close>

fun moved :: "slot \<Rightarrow> slot \<Rightarrow> job_files \<Rightarrow> job_files \<Rightarrow> bool" where
  "moved s t F G \<longleftrightarrow> slot_file F s \<noteq> None
     \<and> (\<forall>u. slot_file G u = (if u = t then slot_file F s else if u = s then None else slot_file F u))"

lemma rename_slot_wp:
  assumes sane: "local_sane X root job_id job_dir names indices d"
    and slots: "valid_slot names indices s" "valid_slot names indices t" "s \<noteq> t"
    and F: "F = local_files X root job_id names indices d"
    and here: "slot_file F s \<noteq> None"
    and dest: "is_directory d (parent (slot_path X root job_id t))"
  shows "wp M (io_err transaction_io
      (fs_rename (slot_path X root job_id s) (slot_path X root job_id t)))
    (\<lambda>r d'. if is_ok r then \<exists>G. moved s t F G \<and> local_keeps X root job_id job_dir names indices d G d'
       else fails M \<and> local_keeps X root job_id job_dir names indices d F d')
    (local_keeps X root job_id job_dir names indices d F) d"
proof -
  obtain f where f: "slot_file (local_files X root job_id names indices d) s = Some f"
    using here F by blast
  note facts = move_slot [OF sane slots f dest]
  let ?d = "fmupd (slot_path X root job_id t) (File f) (fmdrop (slot_path X root job_id s) d)"
  have "moved s t F (local_files X root job_id names indices ?d)"
    using facts(4) f F by simp
  moreover have "local_keeps X root job_id job_dir names indices d
      (local_files X root job_id names indices ?d) ?d"
    using facts(2,3) by (simp add: local_keeps_def)
  ultimately show ?thesis
    unfolding io_err_def
    by (intro wp_map_err wp_rename) (auto simp: facts(1) F keeps_refl [OF sane] simp del: moved.simps)
qed

text \<open>The rename comes after the walk that creates the directories it needs.\<close>

lemma rename_after_wp:
  assumes sane: "local_sane X root job_id job_dir names indices d"
    and slots: "valid_slot names indices s" "valid_slot names indices t" "s \<noteq> t"
    and F: "F = local_files X root job_id names indices d" and here: "slot_file F s \<noteq> None"
    and more: "more_dirs (job_dirs X root job_id names) d d1"
    and dest: "is_directory d1 (parent (slot_path X root job_id t))"
  shows "wp M (io_err transaction_io
      (fs_rename (slot_path X root job_id s) (slot_path X root job_id t)))
    (\<lambda>r d'. if is_ok r then \<exists>G. moved s t F G \<and> local_keeps X root job_id job_dir names indices d G d'
       else fails M \<and> local_keeps X root job_id job_dir names indices d F d')
    (local_keeps X root job_id job_dir names indices d F) d1"
proof -
  note k = more_dirs_sane [OF sane more] and k1 = keeps_more_dirs [OF sane more]
  have F1: "F = local_files X root job_id names indices d1" using F k(2) by simp
  show ?thesis
    by (rule wp_conseq [OF rename_slot_wp [OF k(1) slots F1 here dest]])
      (use keeps_trans [OF k1] in \<open>auto split: if_splits simp del: moved.simps\<close>)
qed

lemma moved_backup:
  "moved (Target n) (Backup i) F G \<Longrightarrow> \<exists>f. target_files F n = Some f
     \<and> G = F\<lparr>target_files := (target_files F)(n := None), backup_files := (backup_files F)(i := Some f)\<rparr>"
  by (auto intro!: job_files_eqI, rename_tac u, case_tac u, auto)

lemma moved_activate:
  "moved (Ready i) (Target n) F G \<Longrightarrow> \<exists>f. prepared_files F i = Some f
     \<and> G = F\<lparr>target_files := (target_files F)(n := Some f), prepared_files := (prepared_files F)(i := None)\<rparr>"
  by (auto intro!: job_files_eqI, rename_tac u, case_tac u, auto)

lemma moved_restore:
  "moved (Backup i) (Target n) F G \<Longrightarrow> \<exists>f. backup_files F i = Some f
     \<and> G = F\<lparr>target_files := (target_files F)(n := Some f), backup_files := (backup_files F)(i := None)\<rparr>"
  by (auto intro!: job_files_eqI, rename_tac u, case_tac u, auto)

lemma backup_wp:
  assumes sane: "local_sane X root job_id job_dir names indices d"
    and valid: "n \<in> names" "i \<in> indices" and F: "F = local_files X root job_id names indices d"
  shows "wp M (local_rename_target_to_backup X root job_id i n s)
    (\<lambda>r d'. if is_ok r
       then \<exists>G. moved (Target n) (Backup i) F G \<and> local_keeps X root job_id job_dir names indices d G d'
       else local_keeps X root job_id job_dir names indices d F d'
         \<and> (fails M \<or> backup_files F i \<noteq> None \<or> map_option (\<lambda>f. node_snapshot (File f)) (target_files F n) \<noteq> Some s))
    (local_keeps X root job_id job_dir names indices d F) d"
    (is "wp M _ ?Q ?C d")
  unfolding local_rename_target_to_backup_def
proof (rule wp_ask [OF inspect_target_wp [OF sane valid(1)]], goal_cases)
  case 1
  show ?case
  proof (cases "map_option (\<lambda>f. node_snapshot (File f)) (target_files F n) = Some s")
    case True
    then have here: "slot_file F (Target n) \<noteq> None" by auto
    have last: "wp M (io_err transaction_io
        (fs_rename (target_path X root n) (job_backup_path X root job_id i))) ?Q ?C d1"
      if "more_dirs (job_dirs X root job_id names) d d1"
        "is_directory d1 (reserved_job_directory X root job_id @ [''backup''])" for d1
      using rename_after_wp [OF sane, of "Target n" "Backup i" F d1 M] that valid F here
      by (auto simp: job_backup_path_def parent_def butlast_append simp del: moved.simps
          elim!: wp_conseq split: if_splits)
    have look: "wp M (io_bind (fs_exists (job_backup_path X root job_id i)) (\<lambda>present.
       if present
       then io_return (Err TransactionConflict ''transaction backup already exists'')
       else io_err transaction_io
         (fs_rename (target_path X root n) (job_backup_path X root job_id i)))) ?Q ?C d1"
      if d1: "more_dirs (job_dirs X root job_id names) d d1"
        "is_directory d1 (reserved_job_directory X root job_id @ [''backup''])" for d1
    proof -
      note k = more_dirs_sane [OF sane d1(1)] and k1 = keeps_more_dirs [OF sane d1(1)]
      have at: "node_at d1 (job_backup_path X root job_id i)
          = (case backup_files F i of None \<Rightarrow> None | Some f \<Rightarrow> Some (File f))"
        using sane_slot(2) [OF k(1), of "Backup i"] valid(2) k(2) F by simp
      show ?thesis
        using at last [OF d1] k1 F
        by (intro wp_bind wp_exists) (auto split: option.splits intro!: wp_return)
    qed
    have "wp M (io_then (ensure_reserved_leaf_directory X root job_id ''backup'') (\<lambda>_.
       io_bind (fs_exists (job_backup_path X root job_id i)) (\<lambda>present.
       if present
       then io_return (Err TransactionConflict ''transaction backup already exists'')
       else io_err transaction_io
         (fs_rename (target_path X root n) (job_backup_path X root job_id i))))) ?Q ?C d"
    proof (rule wp_then, rule wp_conseq [OF reserved_leaf_wp [OF sane]], goal_cases)
      case (2 r d1)
      then show ?case using look [of d1] keeps_more_dirs [OF sane] F by (cases r) auto
    qed (use keeps_more_dirs [OF sane] F in auto)
    with True show ?thesis by (simp add: F)
  next
    case False
    then show ?thesis by (auto simp: F keeps_refl [OF sane] intro!: wp_return)
  qed
qed (use F keeps_refl [OF sane] in auto)

text \<open>Activation and restoration are one walk: a file moves from its slot onto a free target.\<close>

lemma arrive_wp:
  assumes sane: "local_sane X root job_id job_dir names indices d"
    and valid: "n \<in> names" "valid_slot names indices s" "s \<noteq> Target n"
    and F: "F = local_files X root job_id names indices d"
  shows "wp M (io_then (local_inspect_target X root n) (\<lambda>current.
     if current \<noteq> None then io_return (Err TransactionConflict what)
     else
       io_then (io_err transaction_io (fs_metadata (slot_path X root job_id s))) (\<lambda>m.
       io_then (lift_result (validate_regular_file_metadata m RootIdentity)) (\<lambda>_.
       io_then (ensure_target_parent X root n) (\<lambda>_.
       io_err transaction_io (fs_rename (slot_path X root job_id s) (target_path X root n)))))))
    (\<lambda>r d'. if is_ok r
       then \<exists>G. moved s (Target n) F G \<and> local_keeps X root job_id job_dir names indices d G d'
       else local_keeps X root job_id job_dir names indices d F d'
         \<and> (fails M \<or> slot_file F s = None \<or> target_files F n \<noteq> None))
    (local_keeps X root job_id job_dir names indices d F) d"
    (is "wp M _ ?Q ?C d")
proof (rule wp_ask [OF inspect_target_wp [OF sane valid(1)]], goal_cases)
  case 1
  note keep = keeps_refl [OF sane, folded F]
  have at: "node_at d (slot_path X root job_id s)
      = (case slot_file F s of None \<Rightarrow> None | Some f \<Rightarrow> Some (File f))"
    and safe: "absent_or_safe d (slot_path X root job_id s)"
    using sane_slot [OF sane valid(2)] F by simp_all
  have last: "wp M (io_then (ensure_target_parent X root n) (\<lambda>_.
       io_err transaction_io (fs_rename (slot_path X root job_id s) (target_path X root n)))) ?Q ?C d"
    if here: "slot_file F s \<noteq> None"
  proof (rule wp_then, rule wp_conseq [OF target_parent_wp [OF sane valid(1)]], goal_cases)
    case (1 r d1)
    then show ?case
    proof (cases r)
      case (Inr p)
      with 1 have more: "more_dirs (job_dirs X root job_id names) d d1"
        and dest: "is_directory d1 (parent (slot_path X root job_id (Target n)))" by simp_all
      show ?thesis
        using rename_after_wp [OF sane valid(2) _ valid(3) F here more dest, of M] valid(1) Inr
        by (auto simp del: moved.simps elim!: wp_conseq split: if_splits)
    qed (use keeps_more_dirs [OF sane, folded F] in auto)
  qed (use keeps_more_dirs [OF sane, folded F] in auto)
  have walk: "wp M (io_then (io_err transaction_io (fs_metadata (slot_path X root job_id s))) (\<lambda>m.
       io_then (lift_result (validate_regular_file_metadata m RootIdentity)) (\<lambda>_.
       io_then (ensure_target_parent X root n) (\<lambda>_.
       io_err transaction_io (fs_rename (slot_path X root job_id s) (target_path X root n)))))) ?Q ?C d"
    unfolding io_err_def [of _ "fs_metadata (slot_path X root job_id s)"]
  proof (intro wp_then wp_map_err wp_metadata, goal_cases)
    case 3
    show ?case
    proof (cases "slot_file F s")
      case (Some f)
      with at safe have "\<not> multiple_links f" by (simp add: absent_or_safe_def)
      with Some at last show ?thesis
        by (simp add: validate_regular_file_metadata_def io_simps)
    qed (use at keep in simp)
  qed (use keep in auto)
  show ?case
  proof (cases "target_files F n")
    case None
    with walk show ?thesis by (simp add: F)
  qed (use keep in \<open>auto simp: F intro!: wp_return\<close>)
qed (use F keeps_refl [OF sane] in auto)

lemma delete_wp:
  assumes sane: "local_sane X root job_id job_dir names indices d" and n: "n \<in> names"
    and F: "F = local_files X root job_id names indices d"
  shows "wp M (local_delete_target X root n)
    (\<lambda>r d'. if is_ok r
       then local_keeps X root job_id job_dir names indices d
         (F\<lparr>target_files := (target_files F)(n := None)\<rparr>) d'
       else local_keeps X root job_id job_dir names indices d F d' \<and> fails M)
    (local_keeps X root job_id job_dir names indices d F) d"
    (is "wp M _ ?Q ?C d")
  unfolding local_delete_target_def
proof (rule wp_ask [OF inspect_target_wp [OF sane n]], goal_cases)
  case 1
  note keep = keeps_refl [OF sane, folded F]
  have slot: "valid_slot names indices (Target n)" using n by simp
  have at: "node_at d (target_path X root n)
      = (case target_files F n of None \<Rightarrow> None | Some f \<Rightarrow> Some (File f))"
    using sane_slot(2) [OF sane slot] F by simp
  note drop = drop_slot [OF sane slot]
  have gone: "local_keeps X root job_id job_dir names indices d
      (F\<lparr>target_files := (target_files F)(n := None)\<rparr>) (fmdrop (target_path X root n) d)"
  proof -
    have "local_files X root job_id names indices (fmdrop (target_path X root n) d)
        = F\<lparr>target_files := (target_files F)(n := None)\<rparr>"
    proof (rule job_files_eqI)
      fix u
      show "slot_file (local_files X root job_id names indices (fmdrop (target_path X root n) d)) u
          = slot_file (F\<lparr>target_files := (target_files F)(n := None)\<rparr>) u"
        using drop(3) [of u] F by (cases u) (auto simp: local_files_def)
    qed
    with drop(1,2) show ?thesis by (simp add: local_keeps_def)
  qed
  show ?case
  proof (cases "target_files F n")
    case None
    then have "F\<lparr>target_files := (target_files F)(n := None)\<rparr> = F"
      by (intro job_files_eqI, rename_tac u, case_tac u) auto
    with None keep show ?thesis by (auto simp: F intro!: wp_return)
  next
    case (Some f)
    then show ?thesis
      using at gone keep by (auto simp: F intro!: wp_bind wp_remove_file wp_return)
  qed
qed (use F keeps_refl [OF sane] in auto)

subsection \<open>The cleanup\<close>

lemma below_comparable: "below p q \<Longrightarrow> below p' q \<Longrightarrow> below p p' \<or> below p' p"
  unfolding below_iff by (metis append_eq_append_conv2)

lemma local_outside:
  assumes sane: "local_sane X root job_id job_dir names indices d" and q: "below (parent job_dir) q"
  shows "\<not> local_own X root q"
proof
  note apart = local_sane_facts(4,5) [OF sane]
  assume "local_own X root q"
  then consider "below (root_path X root) q" | "below q (root_path X root)"
    by (auto simp: local_own_def)
  then show False
  proof cases
    case 1
    with below_comparable [OF q] apart show False by blast
  next
    case 2
    with below_trans [OF q] apart show False by blast
  qed
qed

lemma below_job_dir_outside:
  assumes sane: "local_sane X root job_id job_dir names indices d" and q: "below job_dir q"
  shows "\<not> local_own X root q"
proof (rule local_outside [OF sane])
  have "below (parent job_dir) job_dir" using local_sane_facts(3) [OF sane] by (metis below_append)
  then show "below (parent job_dir) q" using q by (rule below_trans)
qed

text \<open>What the files of the job and the rest of the disk are while a cleanup runs.\<close>

definition cleaning ::
  "external \<Rightarrow> registered_root \<Rightarrow> string \<Rightarrow> path \<Rightarrow> string set \<Rightarrow> u32 set \<Rightarrow> disk \<Rightarrow> job_files \<Rightarrow> disk \<Rightarrow> bool"
where
  "cleaning X root job_id job_dir names indices d F d' \<longleftrightarrow>
     local_sane X root job_id job_dir names indices d'
     \<and> target_files (local_files X root job_id names indices d') = target_files F
     \<and> (\<forall>i. backup_files (local_files X root job_id names indices d') i \<in> {None, backup_files F i})
     \<and> (\<forall>q. \<not> local_own X root q \<longrightarrow> \<not> below job_dir q \<longrightarrow> node_at d' q = node_at d q)
     \<and> (\<forall>q q'. below job_dir q \<longrightarrow> below q q' \<longrightarrow> node_at d' q' \<noteq> None \<longrightarrow>
          node_at d' q = node_at d q)"

lemma node_at_fmfilter [simp]: "node_at (fmfilter P d) q = (if P q then node_at d q else None)"
  by simp

lemma reserved_below_root: "below (reserved_job_directory X root job_id) q \<Longrightarrow> local_own X root q"
  unfolding local_own_def reserved_job_directory_def by (metis below_append below_trans)

lemma cleaning_reserved:
  fixes K :: "path \<Rightarrow> bool"
  assumes sane: "local_sane X root job_id job_dir names indices d"
  defines "d' \<equiv> fmfilter (\<lambda>q. \<not> below (reserved_job_directory X root job_id) q \<or> K q) d"
  shows "cleaning X root job_id job_dir names indices d (local_files X root job_id names indices d) d'"
    and "\<And>q. below job_dir q \<Longrightarrow> node_at d' q = node_at d q"
proof -
  note facts = local_sane_facts [OF sane]
  have less: "node_at d' q = node_at d q \<or> node_at d' q = None" for q by (simp add: d'_def)
  have outside: "node_at d' q = node_at d q" if "\<not> local_own X root q" for q
    using that reserved_below_root by (auto simp: d'_def)
  have prefix: "node_at d' (take k (root_path X root)) = node_at d (take k (root_path X root))" for k
  proof -
    have "length (take k (root_path X root)) < length (reserved_job_directory X root job_id)"
      by (simp add: reserved_job_directory_def)
    then have "\<not> below (reserved_job_directory X root job_id) (take k (root_path X root))"
      unfolding below_def by (metis length_take min_less_iff_conj nat_neq_iff)
    then show ?thesis by (simp add: d'_def)
  qed
  have root: "node_at d' (root_path X root) = node_at d (root_path X root)"
    using prefix [of "length (root_path X root)"] by simp
  have dirs: "absent_or_dir d' p" if "absent_or_dir d p" for p
    using that less [of p] by (auto simp: absent_or_dir_def is_directory_def)
  have safe: "absent_or_safe d' p" if "absent_or_safe d p" for p
    using that less [of p] by (auto simp: absent_or_safe_def)
  have target: "node_at d' (target_path X root n) = node_at d (target_path X root n)"
    if n: "n \<in> names" for n
  proof -
    have "\<not> below (reserved_job_directory X root job_id) (target_path X root n)"
      using targets_apartD(2) [OF facts(1) n]
      by (auto simp: below_iff target_path_folded reserved_job_directory_def)
    then show ?thesis by (simp add: d'_def)
  qed
  have stored: "stored_at d' p \<in> {None, stored_at d p}" for p
    using less [of p] by (auto simp: stored_at_def)
  show inside: "\<And>q. below job_dir q \<Longrightarrow> node_at d' q = node_at d q"
    using below_job_dir_outside [OF sane] outside by blast
  have "local_sane X root job_id job_dir names indices d'"
    using sane dirs safe root crosses_same [OF prefix] by (simp add: local_sane_def)
  moreover have "target_files (local_files X root job_id names indices d')
      = target_files (local_files X root job_id names indices d)"
    using target by (simp add: local_files_def stored_at_def fun_eq_iff)
  moreover have "\<forall>i. backup_files (local_files X root job_id names indices d') i
      \<in> {None, backup_files (local_files X root job_id names indices d) i}"
    using stored by (auto simp: local_files_def Let_def)
  ultimately show "cleaning X root job_id job_dir names indices d
      (local_files X root job_id names indices d) d'"
    using outside inside by (simp add: cleaning_def)
qed

lemma cleaning_private:
  fixes K :: "path \<Rightarrow> bool"
  assumes sane: "local_sane X root job_id job_dir names indices d"
    and first: "cleaning X root job_id job_dir names indices d F d1"
    and up: "\<And>q q'. below q q' \<Longrightarrow> K q' \<Longrightarrow> K q"
  shows "cleaning X root job_id job_dir names indices d F
    (fmfilter (\<lambda>q. \<not> below job_dir q \<or> K q) d1)"
proof -
  let ?d = "fmfilter (\<lambda>q. \<not> below job_dir q \<or> K q) d1"
  have sane1: "local_sane X root job_id job_dir names indices d1"
    using first by (simp add: cleaning_def)
  have same: "\<forall>q. local_own X root q \<longrightarrow> node_at ?d q = node_at d1 q"
    using below_job_dir_outside [OF sane1] by auto
  note kept = local_depends [OF sane1 same]
  have "node_at ?d q = node_at d q"
    if "below job_dir q" "below q q'" "node_at ?d q' \<noteq> None" for q q'
  proof -
    have "K q'" "node_at d1 q' \<noteq> None"
      using that below_trans [OF that(1,2)] by (auto split: if_splits)
    with that first up show ?thesis unfolding cleaning_def by auto
  qed
  with first kept show ?thesis by (simp add: cleaning_def)
qed

lemma private_cleanup_wp:
  assumes sane: "local_sane X root job_id job_dir names indices d"
    and first: "cleaning X root job_id job_dir names indices d F d1"
    and inside: "\<And>q. below job_dir q \<Longrightarrow> node_at d1 q = node_at d q"
  shows "wp M (io_bind (fs_exists job_dir) (\<lambda>present.
      if present
      then
        io_then (validate_absolute_directory True job_dir TransactionIo) (\<lambda>_.
        io_err transaction_io (fs_remove_dir_all job_dir))
      else io_return (Ok ())))
    (\<lambda>r d'. cleaning X root job_id job_dir names indices d F d'
       \<and> (\<not> fails M \<longrightarrow> is_directory d job_dir \<longrightarrow>
            is_ok r \<and> (\<forall>q. below job_dir q \<longrightarrow> node_at d' q = None)))
    (cleaning X root job_id job_dir names indices d F) d1"
    (is "wp M _ ?Q ?C d1")
proof -
  note part = cleaning_private [OF sane first]
  have all: "cleaning X root job_id job_dir names indices d F (fmfilter (\<lambda>q. \<not> below job_dir q) d1)"
    using part [of "\<lambda>_. False"] by simp
  have start: "?C d1" "is_directory d1 job_dir = is_directory d job_dir"
    using first inside [of job_dir] by (simp_all add: is_directory_def)
  have delete: "wp M (io_err transaction_io (fs_remove_dir_all job_dir)) ?Q ?C d1"
    if "is_directory d1 job_dir"
    unfolding io_err_def
    using that all
    by (intro wp_map_err wp_remove_dir_all part) (auto simp: is_directory_iff part simp del: disj_not1)
  have check: "wp M (validate_absolute_directory True job_dir TransactionIo)
      (\<lambda>r d'. d' = d1 \<and> (if is_ok r then is_directory d1 job_dir
        else fails M \<or> \<not> is_directory d1 job_dir)) (\<lambda>d'. d' = d1) d1"
    unfolding validate_absolute_directory_def io_err_def
    by (auto simp: is_directory_def split: option.splits
        intro!: wp_then wp_map_err wp_metadata wp_return)
  have "wp M (io_then (validate_absolute_directory True job_dir TransactionIo) (\<lambda>_.
        io_err transaction_io (fs_remove_dir_all job_dir))) ?Q ?C d1"
  proof (rule wp_then, rule wp_conseq [OF check], goal_cases)
    case (1 r d')
    with delete start show ?case by (cases r) auto
  qed (use start in auto)
  then show ?thesis
    using start by (intro wp_bind wp_exists) (auto simp: is_directory_def intro!: wp_return)
qed

lemma local_cleanup_wp:
  assumes sane: "local_sane X root job_id job_dir names indices d"
    and F: "F = local_files X root job_id names indices d"
  shows "wp M (local_cleanup_job X root job_id job_dir)
    (\<lambda>r d'. cleaning X root job_id job_dir names indices d F d'
       \<and> (\<not> fails M \<longrightarrow> is_directory d job_dir \<longrightarrow>
            is_ok r \<and> (\<forall>q. below job_dir q \<longrightarrow> node_at d' q = None)))
    (cleaning X root job_id job_dir names indices d F) d"
    (is "wp M _ ?Q ?C d")
proof -
  let ?R = "reserved_job_directory X root job_id"
  let ?private = "io_bind (fs_exists job_dir) (\<lambda>present.
      if present
      then
        io_then (validate_absolute_directory True job_dir TransactionIo) (\<lambda>_.
        io_err transaction_io (fs_remove_dir_all job_dir))
      else io_return (Ok ()))"
  note part = cleaning_reserved [OF sane, folded F]
  have start: "?C d" using part(1) [where K = "\<lambda>_. True"] by simp
  have "absent_or_dir d ?R"
    using reserved_dirs [of 3 "''backup''" X root job_id names] local_sane_facts(8) [OF sane]
    by (simp add: reserved_job_directory_def numeral_3_eq_3)
  then have dir: "node_at d ?R \<noteq> None \<Longrightarrow> is_directory d ?R" by (auto simp: absent_or_dir_def)
  let ?d1 = "fmfilter (\<lambda>q. \<not> below ?R q) d"
  have d1: "?C ?d1" "below job_dir q \<Longrightarrow> node_at ?d1 q = node_at d q" for q
    using part [where K = "\<lambda>_. False"] by simp_all
  have delete: "wp M (io_then (validate_reserved_job_directory X root job_id) (\<lambda>_.
      io_err transaction_io (fs_remove_dir_all ?R)))
      (\<lambda>r d'. ?C d' \<and> (if is_ok r then d' = ?d1 else fails M)) ?C d"
    if "node_at d ?R \<noteq> None"
  proof (rule wp_ask [OF validate_reserved_wp [OF sane]], goal_cases)
    case 1
    show ?case
      unfolding io_err_def
      using dir [OF that] d1(1)
      by (intro wp_map_err wp_remove_dir_all) (auto simp: is_directory_iff part(1) simp del: disj_not1)
  qed (use start in auto)
  have after: "wp M (io_then m (\<lambda>_. ?private)) ?Q ?C d"
    if "wp M m (\<lambda>r d'. ?C d' \<and> (if is_ok r then d' = ?d1 \<or> d' = d else fails M)) ?C d" for m :: "unit result io"
  proof (rule wp_then, rule wp_conseq [OF that], goal_cases)
    case (1 r d')
    have "wp M ?private ?Q ?C d1'" if "d1' = ?d1 \<or> d1' = d" for d1'
      using private_cleanup_wp [OF sane, of F d1' M] d1 start that by auto
    with 1 show ?case by (cases r) auto
  qed
  have none: "wp M (io_then (io_return (Ok ())) (\<lambda>_. ?private)) ?Q ?C d"
    using start by (intro after wp_return) simp
  show ?thesis
    unfolding local_cleanup_job_def Let_def
  proof (intro wp_bind wp_exists, goal_cases)
    case 3
    show ?case
    proof (cases "node_at d ?R = None")
      case True
      with start show ?thesis by (simp add: after wp_return)
    next
      case False
      with delete show ?thesis by (auto intro!: after elim!: wp_conseq split: if_splits)
    qed
  qed (use start none in simp_all)
qed

subsection \<open>The platform meets the contract\<close>

lemma local_platform_simps:
  "uses_atomic_replacement (local_platform X) = False"
  "rename_target_to_backup (local_platform X) = local_rename_target_to_backup X"
  "rename_prepared_to_target (local_platform X) = local_rename_prepared_to_target X"
  "delete_target (local_platform X) = local_delete_target X"
  "restore_backup (local_platform X) = local_restore_backup X"
  "cleanup_job (local_platform X) = local_cleanup_job X"
  by (simp_all add: local_platform_def)

interpretation lp: transaction_platform "local_platform X" root job_id job_dir names indices
  "local_own X root" "local_sane X root job_id job_dir names indices"
  "local_files X root job_id names indices" "\<lambda>f. node_snapshot (File f)"
  for X root job_id job_dir names indices
proof (unfold_locales, goal_cases)
  case 1
  show ?case by (simp add: local_platform_def)
next
  case (2 d q)
  then show ?case by (rule local_outside)
next
  case (3 d)
  then show ?case by (rule local_sane_facts(3))
next
  case (4 d d')
  then show ?case using local_depends by blast
next
  case (5 d M)
  then show ?case by (simp add: local_platform_def verify_root_wp)
next
  case (6 d n M)
  then show ?case by (simp add: local_platform_def inspect_target_wp)
next
  case (7 d n M)
  then show ?case by (simp add: local_platform_def target_exists_wp)
next
  case (8 d i M)
  then show ?case by (simp add: local_platform_def backup_exists_wp)
next
  case (9 d n i F M s)
  show ?case
    unfolding local_platform_simps
    by (rule wp_conseq [OF backup_wp [OF 9(1-3) 9(4) [symmetric]]])
      (auto simp: local_keeps_def split: if_splits dest!: moved_backup simp del: moved.simps)
next
  case (10 d n i F M)
  have ready: "valid_slot names indices (Ready i)" using 10(3) by simp
  show ?case
    unfolding local_platform_simps local_rename_prepared_to_target_def
    by (rule wp_conseq [OF arrive_wp [OF 10(1,2) ready _ 10(4) [symmetric], simplified slot_path.simps]])
      (auto simp: local_keeps_def split: if_splits dest!: moved_activate simp del: moved.simps)
next
  case (11 d n F M)
  show ?case
    unfolding local_platform_simps
    by (rule wp_conseq [OF delete_wp [OF 11(1,2) 11(3) [symmetric]]])
      (auto simp: local_keeps_def split: if_splits)
next
  case (12 d n i F M)
  have backed: "valid_slot names indices (Backup i)" using 12(3) by simp
  show ?case
    unfolding local_platform_simps local_restore_backup_def
    by (rule wp_conseq [OF arrive_wp [OF 12(1,2) backed _ 12(4) [symmetric], simplified slot_path.simps]])
      (auto simp: local_keeps_def split: if_splits dest!: moved_restore simp del: moved.simps)
next
  case (13 d F M)
  show ?case
    unfolding local_platform_simps
    by (rule wp_conseq [OF local_cleanup_wp [OF 13(1) 13(2) [symmetric]]]) (auto simp: cleaning_def)
qed

end
