(* ===== verification/File_Transactions.thy ===== *)
theory File_Transactions
  imports Local_Engine
begin

text \<open>
  What a file transaction on the local platform guarantees, stated over the paths of the
  disk: a commit that meets faults never loses a file, a commit cut short by a crash is
  settled by the next recovery, and the two situations in which recovery itself goes wrong.
\<close>

subsection \<open>The terms of the statements\<close>

abbreviation job_names :: "prepared_job \<Rightarrow> string set" where
  "job_names job \<equiv> target_name ` set (entries (prepared_header job))"

abbreviation job_indices :: "prepared_job \<Rightarrow> u32 set" where
  "job_indices job \<equiv> transaction_index ` set (entries (prepared_header job))"

definition target_at :: "external \<Rightarrow> prepared_job \<Rightarrow> disk \<Rightarrow> journal_entry \<Rightarrow> stored_file option" where
  "target_at X job d e = stored_at d (target_path X (header_root (prepared_header job)) (target_name e))"

definition backup_at :: "external \<Rightarrow> prepared_job \<Rightarrow> disk \<Rightarrow> journal_entry \<Rightarrow> stored_file option" where
  "backup_at X job d e = stored_at d (job_backup_path X (header_root (prepared_header job))
     (header_job_id (prepared_header job)) (transaction_index e))"

definition ready_at :: "external \<Rightarrow> prepared_job \<Rightarrow> disk \<Rightarrow> journal_entry \<Rightarrow> stored_file option" where
  "ready_at X job d e = stored_at d (prepared_path X (header_root (prepared_header job))
     (header_job_id (prepared_header job)) (transaction_index e))"





text \<open>
  A job as \<open>prepare_file_set\<close> leaves it: its names apart, the snapshots of its header those of
  the files \<open>old\<close> at the targets, its prepared files \<open>prep\<close> in place, no backups yet, its
  journal in the state \<open>Prepared\<close>, and no other job in the directory of the jobs.
\<close>

definition known_job ::
  "external \<Rightarrow> journal_parsers \<Rightarrow> policy \<Rightarrow> prepared_job \<Rightarrow> string
   \<Rightarrow> (string \<Rightarrow> stored_file option) \<Rightarrow> (u32 \<Rightarrow> stored_file option) \<Rightarrow> bool"
where
  "known_job X J pol job htext old prep \<longleftrightarrow>
     (let h = prepared_header job; es = entries h in
      checkpoint pol = no_fault_injection \<and> policy_platform pol = local_platform X
      \<and> jobs_path X pol = parent (job_directory job)
      \<and> job_journal_path job = job_directory job @ [''journal.jsonl'']
      \<and> journal_codec X J h htext \<and> validate_journal_header X h = Ok ()
      \<and> length htext + 128 \<le> MAX_MANIFEST_BYTES
      \<and> distinct (map target_name es) \<and> distinct (map transaction_index es)
      \<and> (\<forall>e \<in> set es. original e = map_option (\<lambda>f. node_snapshot (File f)) (old (target_name e))
           \<and> (action e = Replace \<longrightarrow> prepared_index e = Some (transaction_index e)
                \<and> prep (transaction_index e) \<noteq> None)))"

definition job_alone :: "external \<Rightarrow> policy \<Rightarrow> prepared_job \<Rightarrow> disk \<Rightarrow> bool" where
  "job_alone X pol job d \<longleftrightarrow> is_directory d (jobs_path X pol)
     \<and> (\<forall>q. q \<noteq> [] \<longrightarrow> parent q = jobs_path X pol \<longrightarrow> node_at d q \<noteq> None \<longrightarrow> q = job_directory job)"

definition job_sane :: "external \<Rightarrow> prepared_job \<Rightarrow> disk \<Rightarrow> bool" where
  "job_sane X job d \<longleftrightarrow> local_sane X (header_root (prepared_header job))
     (header_job_id (prepared_header job)) (job_directory job) (job_names job) (job_indices job) d"

definition prepared_disk ::
  "external \<Rightarrow> journal_parsers \<Rightarrow> policy \<Rightarrow> prepared_job \<Rightarrow> string
   \<Rightarrow> (string \<Rightarrow> stored_file option) \<Rightarrow> (u32 \<Rightarrow> stored_file option) \<Rightarrow> disk \<Rightarrow> bool"
where
  "prepared_disk X J pol job htext old prep d \<longleftrightarrow>
     known_job X J pol job htext old prep
     \<and> job_sane X job d \<and> job_alone X pol job d \<and> is_directory d (job_directory job)
     \<and> (\<forall>e \<in> set (entries (prepared_header job)).
          target_at X job d e = old (target_name e) \<and> backup_at X job d e = None
          \<and> ready_at X job d e = prep (transaction_index e))
     \<and> file_at d (job_journal_path job) = Some (journal_text htext [Prepared])"



subsection \<open>From the contract to the paths\<close>

declare node_snapshot.simps [simp del]













subsection \<open>A concrete job\<close>

text \<open>
  A job that replaces \<open>bin/game.exe\<close> and removes \<open>old.dll\<close> below the sample root, on the disk
  that its preparation leaves.
\<close>

definition sample_stored :: "string \<Rightarrow> nat \<Rightarrow> stored_file" where
  "sample_stored s i = \<lparr>contents = s, file_identity = new_identity i, last_write_time = 1,
     multiple_links = False\<rparr>"

definition sample_old :: "string \<Rightarrow> stored_file option" where
  "sample_old n =
     (if n = ''bin/game.exe'' then Some (sample_stored ''old!'' 3)
      else if n = ''old.dll'' then Some (sample_stored ''dll'' 4) else None)"

definition sample_ready :: "u32 \<Rightarrow> stored_file option" where
  "sample_ready i = (if i = 0 then Some (sample_stored ''new!'' 5) else None)"

definition sample_header :: journal_header where
  "sample_header =
     \<lparr>entries =
        [\<lparr>action = Replace, original = map_option (\<lambda>f. node_snapshot (File f)) (sample_old ''bin/game.exe''),
           target_name = ''bin/game.exe'', prepared_index = Some 0, transaction_index = 0\<rparr>,
         \<lparr>action = Remove, original = map_option (\<lambda>f. node_snapshot (File f)) (sample_old ''old.dll''),
           target_name = ''old.dll'', prepared_index = None, transaction_index = 1\<rparr>],
      header_generation = 4, header_job_id = ''job-1'',
      manifest_digest = encode_lower_hex sample_key, header_root = sample_root,
      header_schema = JOURNAL_SCHEMA\<rparr>"

definition sample_header_text :: string where
  "sample_header_text = sample_text (journal_header_to_value sample_header)"

definition sample_parsers :: journal_parsers where
  "sample_parsers =
     \<lparr>parse_header = (\<lambda>t. if t = sample_header_text then Some sample_header else None),
      parse_state = (\<lambda>t. find (\<lambda>s. state_text s = t) [Prepared, Committing, Committed, RollingBack])\<rparr>"

definition sample_policy :: policy where
  "sample_policy = \<lparr>data_directory = ''C:'' @ [CHR 0x5C] @ ''Data'',
     policy_platform = local_platform sample_external, checkpoint = no_fault_injection\<rparr>"

definition sample_job :: prepared_job where
  "sample_job = \<lparr>prepared_header = sample_header,
     job_directory = [''c:'', ''data'', ''jobs'', ''job-1''],
     job_journal_path = [''c:'', ''data'', ''jobs'', ''job-1'', ''journal.jsonl'']\<rparr>"

definition sample_nodes :: "(path \<times> node) list" where
  "sample_nodes =
     [([''c:''], Directory (new_identity 1)),
      ([''c:'', ''games''], Directory (root_identity sample_root)),
      ([''c:'', ''games'', ''bin''], Directory (new_identity 2)),
      ([''c:'', ''games'', ''bin'', ''game.exe''], File (sample_stored ''old!'' 3)),
      ([''c:'', ''games'', ''old.dll''], File (sample_stored ''dll'' 4)),
      ([''c:'', ''games'', RESERVED_ROOT_DIRECTORY], Directory (new_identity 6)),
      ([''c:'', ''games'', RESERVED_ROOT_DIRECTORY, ''jobs''], Directory (new_identity 7)),
      ([''c:'', ''games'', RESERVED_ROOT_DIRECTORY, ''jobs'', ''job-1''], Directory (new_identity 8)),
      ([''c:'', ''games'', RESERVED_ROOT_DIRECTORY, ''jobs'', ''job-1'', ''prepared''],
         Directory (new_identity 9)),
      ([''c:'', ''games'', RESERVED_ROOT_DIRECTORY, ''jobs'', ''job-1'', ''prepared'', ''0''],
         File (sample_stored ''new!'' 5)),
      ([''c:'', ''data''], Directory (new_identity 10)),
      ([''c:'', ''data'', ''jobs''], Directory (new_identity 11)),
      ([''c:'', ''data'', ''jobs'', ''job-1''], Directory (new_identity 12)),
      ([''c:'', ''data'', ''jobs'', ''job-1'', ''journal.jsonl''],
         File (sample_stored (journal_text sample_header_text [Prepared]) 13))]"

definition sample_job_disk :: disk where
  "sample_job_disk = fmap_of_list sample_nodes"

lemma sample_paths:
  "root_path sample_external sample_root = [''c:'', ''games'']"
  "folded_components sample_external ''bin/game.exe'' = [''bin'', ''game.exe'']"
  "folded_components sample_external ''old.dll'' = [''old.dll'']"
  "jobs_path sample_external sample_policy = [''c:'', ''data'', ''jobs'']"
  unfolding root_path_def folded_components_def jobs_path_def sample_policy_def sample_root_def
    fold_path_def sample_external_sel policy.select_convs registered_root.select_convs
  by code_simp+

lemma sample_node: "node_at sample_job_disk p = map_of sample_nodes p"
  by (simp add: sample_job_disk_def fmlookup_of_list)

lemma header_no_float [simp]: "\<not> json_has_float (journal_header_to_value h)"
  by (auto simp: journal_header_to_value_def journal_entry_to_value_def json_option_def
      snapshot_to_value_def identity_to_value_def root_to_value_def list_ex_iff split: option.splits)

lemma sample_header_text:
  "canonical_json sample_external (journal_header_to_value sample_header) = Ok sample_header_text"
  unfolding sample_header_text_def by (rule sample_text_Ok) simp

lemmas sample_header_text_simps = sample_header_text_def sample_text_simps
  journal_header_to_value_def journal_entry_to_value_def json_option_def snapshot_to_value_def
  identity_to_value_def root_to_value_def sample_header_def sample_old_def sample_stored_def
  sample_root_def sample_key_def new_identity_def digit_char_def newline_def JOURNAL_SCHEMA_def
  node_snapshot.simps

lemma sample_codec: "journal_codec sample_external sample_parsers sample_header sample_header_text"
proof -
  have "\<forall>w \<in> set state_names. json_string_text sample_external w = Some ([CHR 0x22] @ w @ [CHR 0x22])"
    by (simp add: state_names_def)
  moreover have "parse_state sample_parsers (state_text s) = Some s" for s
  proof -
    have "list_all (\<lambda>s. parse_state sample_parsers (state_text s) = Some s)
        [Prepared, Committing, Committed, RollingBack]"
      unfolding sample_parsers_def journal_parsers.select_convs by code_simp
    then show ?thesis by (cases s) (simp_all only: list.pred_inject simp_thms)
  qed
  moreover have "newline \<notin> set (encode_lower_hex sample_key)"
    using encode_lower_hex_chars [of sample_key]
    by (auto simp: list_all_iff is_lower_hex_def ascii_defs newline_def)
  then have "sample_header_text \<noteq> [] \<and> newline \<notin> set sample_header_text"
    by (simp add: sample_header_text_simps)
  moreover have "parse_header sample_parsers sample_header_text = Some sample_header"
    by (simp add: sample_parsers_def)
  ultimately show ?thesis using sample_header_text by (simp add: journal_codec_def)
qed

lemma sample_header_length: "length sample_header_text + 128 \<le> MAX_MANIFEST_BYTES"
  by (simp add: sample_header_text_simps MAX_MANIFEST_BYTES_def)

lemma sample_header_valid: "validate_journal_header sample_external sample_header = Ok ()"
proof -
  have "valid_internal_job_id ''job-1''" by code_simp
  moreover have "is_ok (decode_lower_hex 32 (encode_lower_hex sample_key) RecoveryIncomplete)"
    by (simp add: sample_key_def del: encode_lower_hex_simps)
  moreover have "validate_relative_path ''bin/game.exe'' = Ok ()" "validate_relative_path ''old.dll'' = Ok ()"
    using sample_paths_wf by (simp_all add: validate_relative_path_Ok)
  moreover have "to_ascii_lowercase ''bin/game.exe'' \<noteq> to_ascii_lowercase ''old.dll''" by code_simp
  ultimately show ?thesis
    by (simp add: validate_journal_header_def sample_header_def)
qed

lemma sample_known:
  "known_job sample_external sample_parsers sample_policy sample_job sample_header_text sample_old sample_ready"
proof -
  have "checkpoint sample_policy = no_fault_injection"
    "policy_platform sample_policy = local_platform sample_external"
    "jobs_path sample_external sample_policy = parent (job_directory sample_job)"
    "job_journal_path sample_job = job_directory sample_job @ [''journal.jsonl'']"
    "prepared_header sample_job = sample_header"
    unfolding sample_paths by (simp_all add: sample_policy_def sample_job_def parent_def)
  moreover have "distinct (map target_name (entries sample_header))"
    "distinct (map transaction_index (entries sample_header))"
    "\<forall>e \<in> set (entries sample_header). original e = map_option (\<lambda>f. node_snapshot (File f)) (sample_old (target_name e))
      \<and> (action e = Replace \<longrightarrow> prepared_index e = Some (transaction_index e)
        \<and> sample_ready (transaction_index e) \<noteq> None)"
    by (simp_all add: sample_header_def sample_ready_def)
  ultimately show ?thesis
    using sample_codec sample_header_length sample_header_valid by (simp add: known_job_def)
qed

lemma sample_names:
  "job_names sample_job = {''bin/game.exe'', ''old.dll''}" "job_indices sample_job = {0, 1}"
  "header_root (prepared_header sample_job) = sample_root"
  "header_job_id (prepared_header sample_job) = ''job-1''"
  "job_directory sample_job = [''c:'', ''data'', ''jobs'', ''job-1'']"
  by (simp_all add: sample_job_def sample_header_def)

lemma sample_apart: "targets_apart sample_external {''bin/game.exe'', ''old.dll''}"
  by (simp add: targets_apart_def sample_paths_wf sample_paths RESERVED_ROOT_DIRECTORY_def below_def)

lemma sample_dirs:
  assumes "p \<in> job_dirs sample_external sample_root ''job-1'' {''bin/game.exe'', ''old.dll''}"
  shows "absent_or_dir sample_job_disk p"
  using assms
proof (cases rule: job_dirs_cases)
  case (1 n k)
  then have "p = [''c:'', ''games'', ''bin'']" by (auto simp: sample_paths less_Suc_eq)
  then show ?thesis by (simp add: absent_or_dir_def is_directory_def sample_node sample_nodes_def)
next
  case (2 k l)
  then have "k = 1 \<or> k = 2 \<or> k = 3 \<or> k = 4" by auto
  with 2(3,4) show ?thesis
    by (elim disjE; simp add: sample_paths absent_or_dir_def is_directory_def sample_node
      sample_nodes_def RESERVED_ROOT_DIRECTORY_def)
qed

lemma sample_slots:
  assumes "valid_slot {''bin/game.exe'', ''old.dll''} {0, 1} s"
  shows "absent_or_safe sample_job_disk (slot_path sample_external sample_root ''job-1'' s)"
  using assms
  by (cases s) (auto simp: absent_or_safe_def slot_paths sample_paths sample_node sample_nodes_def
      RESERVED_ROOT_DIRECTORY_def sample_stored_def word_to_string_def nat_to_string.simps digit_char_def)

lemma sample_sane: "job_sane sample_external sample_job sample_job_disk"
proof -
  have "local_static sample_external sample_root ''job-1'' [''c:'', ''data'', ''jobs'', ''job-1'']
      {''bin/game.exe'', ''old.dll''}"
    using sample_apart
    by (simp add: local_static_def sample_paths parent_def below_def valid_internal_job_id_def
        identifier_char_def ascii_defs)
  moreover have "\<not> crosses_reparse sample_job_disk [''c:'', ''games'']"
    by (simp add: crosses_reparse_def sample_node sample_nodes_def upt_rec)
  moreover have "node_at sample_job_disk [''c:'', ''games''] = Some (Directory (root_identity sample_root))"
    by (simp add: sample_node sample_nodes_def)
  ultimately show ?thesis
    unfolding job_sane_def local_sane_def sample_names sample_paths
    using sample_dirs sample_slots by blast
qed

lemma sample_prepared:
  "prepared_disk sample_external sample_parsers sample_policy sample_job sample_header_text
     sample_old sample_ready sample_job_disk"
proof -
  have alone: "job_alone sample_external sample_policy sample_job sample_job_disk"
    by (auto simp: job_alone_def sample_paths sample_names parent_def is_directory_def sample_node
        sample_nodes_def split: if_splits)
  have dir: "is_directory sample_job_disk (job_directory sample_job)"
    "file_at sample_job_disk (job_journal_path sample_job)
      = Some (journal_text sample_header_text [Prepared])"
    by (simp_all add: is_directory_def file_at_def sample_node sample_nodes_def sample_job_def
        sample_stored_def)
  have slots: "\<forall>e \<in> set (entries (prepared_header sample_job)).
      target_at sample_external sample_job sample_job_disk e = sample_old (target_name e)
      \<and> backup_at sample_external sample_job sample_job_disk e = None
      \<and> ready_at sample_external sample_job sample_job_disk e = sample_ready (transaction_index e)"
    by (simp add: target_at_def backup_at_def ready_at_def sample_names slot_paths sample_paths)
      (simp add: sample_job_def sample_header_def sample_paths stored_at_def sample_node sample_nodes_def
        RESERVED_ROOT_DIRECTORY_def word_to_string_def nat_to_string.simps digit_char_def
        sample_old_def sample_ready_def)
  from sample_known sample_sane alone dir slots show ?thesis by (simp add: prepared_disk_def)
qed

subsection \<open>Commit\<close>




definition sample_world :: "fault list \<Rightarrow> world" where
  "sample_world fs = \<lparr>disk = sample_job_disk, faults = fs, clock = 20, hive = fmempty\<rparr>"




subsection \<open>Recovery\<close>









subsection \<open>Where recovery goes wrong\<close>





text \<open>
  C6: A call that fails while the recovery looks for the journal of a job makes it believe the
  job was never journaled: it deletes the private directory with the journal in it, touches no
  file of the root, and reports the job as discarded. This holds for a job in any state, so
  originals that the commit had moved to their backups stay there.
\<close>

theorem failed_probe_discards_job:
  assumes "is_directory (disk w) (jobs_path X pol @ [name])"
    and "faults w = [Works, Fails n keep]"
  shows "\<exists>w'. recover_job X J pol name result w = (Returned (Ok (discard_job name result)), w')
    \<and> (\<forall>q. node_at (disk w') q
         = (if below (jobs_path X pol @ [name]) q then None else node_at (disk w) q))"
proof -
  obtain i where "node_at (disk w) (jobs_path X pol @ [name]) = Some (Directory i)"
    using assms(1) by (auto simp: is_directory_iff)
  with assms(2) show ?thesis
    by (auto simp: recover_job_def Let_def fs_metadata_def fs_exists_def fs_remove_dir_all_def
        io_err_def map_err_def io_then_def io_bind_def io_return_def disk_call_def unchanged_def)
qed

theorem failed_probe_discards_job_witness:
  "\<exists>w'. recover_job sample_external sample_parsers sample_policy ''job-1'' recovery_result_default
       (sample_world [Works, Fails 0 (\<lambda>_. False)])
     = (Returned (Ok (discard_job ''job-1'' recovery_result_default)), w')
    \<and> (\<forall>q. node_at (disk w') q
         = (if below (job_directory sample_job) q then None else node_at sample_job_disk q))"
proof -
  let ?w = "sample_world [Works, Fails 0 (\<lambda>_. False)]"
  have path: "jobs_path sample_external sample_policy @ [''job-1''] = job_directory sample_job"
    by (simp add: sample_paths sample_names)
  have world: "disk ?w = sample_job_disk" "faults ?w = [Works, Fails 0 (\<lambda>_. False)]"
    by (simp_all add: sample_world_def)
  have "is_directory sample_job_disk (job_directory sample_job)"
    using sample_prepared by (simp add: prepared_disk_def)
  from failed_probe_discards_job [of ?w sample_external sample_policy "''job-1''", unfolded path world,
      OF this refl]
  show ?thesis .
qed

end
