(* ===== verification/Spec2Isabelle.thy ===== *)
theory Spec2Isabelle
  imports Protocol File_Transactions
begin

text \<open>
  A verification library for the maintenance service of se7en: a Windows service that applies
  signed file sets and registry sets on behalf of an unprivileged client.

  The library models the Rust crate below \<open>src/src\<close>, one theory per module:

  \<^item> \<open>Prelude\<close>, \<open>Rust_Std\<close>: machine integers, results, error codes and the parts of Rust's
    standard library the crate uses.
  \<^item> \<open>Contract\<close>, \<open>Canonical\<close> (\<open>lib.rs\<close>): bounds, canonical JSON, hex and identifiers.
  \<^item> \<open>Trust\<close> (\<open>trust.rs\<close>): the release keyring.
  \<^item> \<open>File_Set\<close> (\<open>file_set.rs\<close>): the signed file-set manifest.
  \<^item> \<open>Registry_Set\<close> (\<open>registry_set.rs\<close>): the signed registry-set manifest.
  \<^item> \<open>File_System\<close>: the calls of \<open>std::fs\<close>, each of which may fail or be the last before the
    machine stops, with a calculus of weakest preconditions over them.
  \<^item> \<open>Document_Store\<close> (parts of \<open>roots.rs\<close>, \<open>registry_scopes.rs\<close>, \<open>windows.rs\<close>): documents
    that are replaced by renames.
  \<^item> \<open>Keyed_Registry\<close>, \<open>Roots\<close> (\<open>roots.rs\<close>), \<open>Registry_Scopes\<close> (\<open>registry_scopes.rs\<close>).
  \<^item> \<open>Protocol\<close> (\<open>protocol.rs\<close>): requests.
  \<^item> \<open>Journal\<close>, \<open>Transaction\<close>, \<open>Local_Platform\<close> (\<open>transaction.rs\<close>): file transactions.
  \<^item> \<open>Journal_Log\<close>, \<open>Engine\<close>, \<open>Local_Engine\<close>, \<open>File_Transactions\<close>: what they guarantee under
    failing calls and crashes.
\<close>

end
